theory Spec2Isabelle
  imports Complex_Main "HOL-Library.AList" "HOL-Library.Monad_Syntax"
    "HOL-Library.List_Lexorder" "HOL-Library.Char_ord" "HOL-Library.Multiset"
begin

section \<open>JavaScript values\<close>

text \<open>
  The program is dynamically typed: patches come back from LocalStorage as parsed JSON,
  selection components are strings, numbers or \<open>null\<close>. Values are modelled by one
  datatype. Finite numbers are exact rationals (the numbers of this program are small
  integers read from JSON, from the route or typed into a form); \<open>NaN\<close> is a value of
  its own; the infinities and the rounding of IEEE doubles are not represented. A string
  is a list of 8-bit characters. An object is the list of its own properties in
  insertion order.
\<close>

datatype jsval =
    JUndefined
  | JNull
  | JBool bool
  | JNaN
  | JNum rat
  | JStr string
  | JArr "jsval list"
  | JObj "(string \<times> jsval) list"

type_synonym jsobj = "(string \<times> jsval) list"

text \<open>ToBoolean, and the operator \<open>!\<close>.\<close>

fun truthy :: "jsval \<Rightarrow> bool" where
  "truthy JUndefined = False"
| "truthy JNull = False"
| "truthy (JBool b) = b"
| "truthy JNaN = False"
| "truthy (JNum r) = (r \<noteq> 0)"
| "truthy (JStr s) = (s \<noteq> [])"
| "truthy (JArr xs) = True"
| "truthy (JObj kvs) = True"

definition js_not :: "jsval \<Rightarrow> bool" where
  "js_not v = (\<not> truthy v)"

text \<open>\<open>a || b\<close> on values.\<close>

definition js_or :: "jsval \<Rightarrow> jsval \<Rightarrow> jsval" where
  "js_or a b = (if truthy a then a else b)"

text \<open>\<open>typeof v === "string"\<close> and \<open>Array.isArray(v)\<close>.\<close>

fun is_string :: "jsval \<Rightarrow> bool" where
  "is_string (JStr s) = True"
| "is_string v = False"

fun is_array :: "jsval \<Rightarrow> bool" where
  "is_array (JArr xs) = True"
| "is_array v = False"

text \<open>
  Reading a property of an object that lacks it gives \<open>undefined\<close>. The program reads
  only named data properties (\<open>work\<close>, \<open>videos\<close>, ...), which a primitive or an array
  does not have; reading them from \<open>null\<close> or \<open>undefined\<close> would throw, and every such
  read in the source is guarded by a truthiness test that the model keeps.
\<close>

definition obj_get :: "jsobj \<Rightarrow> string \<Rightarrow> jsval" where
  "obj_get kvs k = (case map_of kvs k of None \<Rightarrow> JUndefined | Some v \<Rightarrow> v)"

fun js_get :: "jsval \<Rightarrow> string \<Rightarrow> jsval" where
  "js_get (JObj kvs) k = obj_get kvs k"
| "js_get v k = JUndefined"

text \<open>
  Assignment \<open>o[k] = v\<close>: an existing property keeps its place, a new one is appended
  (\<^const>\<open>AList.update\<close>). \<open>delete o[k]\<close> is \<^const>\<open>AList.delete\<close>.
\<close>

definition obj_set :: "string \<Rightarrow> jsval \<Rightarrow> jsobj \<Rightarrow> jsobj" where
  "obj_set k v kvs = AList.update k v kvs"

definition obj_delete :: "string \<Rightarrow> jsobj \<Rightarrow> jsobj" where
  "obj_delete k kvs = AList.delete k kvs"

section \<open>Strings and numbers\<close>

subsection \<open>Decimal text of a number\<close>

definition digit_char :: "nat \<Rightarrow> char" where
  "digit_char d = ''0123456789'' ! d"

fun nat_digits :: "nat \<Rightarrow> string" where
  "nat_digits n =
     (if n < 10 then [digit_char n] else nat_digits (n div 10) @ [digit_char (n mod 10)])"

declare nat_digits.simps [simp del]

text \<open>The decimal text of an integer, as \<open>String(n)\<close> gives it.\<close>

definition int_text :: "int \<Rightarrow> string" where
  "int_text i = (if i < 0 then CHR ''-'' # nat_digits (nat (- i)) else nat_digits (nat i))"

text \<open>
  The digits after the decimal point, at most \<open>k\<close> of them. A number that was read from
  decimal text has a finite expansion.
\<close>

fun frac_digits :: "nat \<Rightarrow> rat \<Rightarrow> string" where
  "frac_digits 0 r = []"
| "frac_digits (Suc k) r =
     (if r = 0 then []
      else digit_char (nat \<lfloor>r * 10\<rfloor>) # frac_digits k (r * 10 - of_int \<lfloor>r * 10\<rfloor>))"

text \<open>
  \<open>Number::toString\<close> in plain decimal notation: an integer prints as \<^const>\<open>int_text\<close>
  does, \<open>1.5\<close> prints as \<open>1.5\<close>. This is what JavaScript prints for the safe integers
  (magnitude at most \<open>2^53 - 1\<close>, which a double holds exactly) and for short decimal
  fractions. Beyond them JavaScript rounds to a double, and from \<open>1e21\<close> on and below
  \<open>1e-6\<close> it prints in exponent notation; the model does not follow it there, and a
  statement about the text of a number is made for safe integers only.
\<close>

definition safe_integer :: "int \<Rightarrow> bool" where
  "safe_integer n = (\<bar>n\<bar> \<le> 9007199254740991)"

definition num_text :: "rat \<Rightarrow> string" where
  "num_text r =
     (let a = \<bar>r\<bar>; n = \<lfloor>a\<rfloor> in
      (if r < 0 then ''-'' else '''') @ nat_digits (nat n) @
      (if a = of_int n then '''' else CHR ''.'' # frac_digits 20 (a - of_int n)))"

subsection \<open>Joining and splitting\<close>

fun join_strings :: "string \<Rightarrow> string list \<Rightarrow> string" where
  "join_strings sep [] = []"
| "join_strings sep [x] = x"
| "join_strings sep (x # y # ys) = x @ sep @ join_strings sep (y # ys)"

text \<open>\<open>String(v)\<close>. An array prints its elements joined by commas, as \<open>join\<close> does.\<close>

fun js_String :: "jsval \<Rightarrow> string" where
  "js_String JUndefined = ''undefined''"
| "js_String JNull = ''null''"
| "js_String (JBool b) = (if b then ''true'' else ''false'')"
| "js_String JNaN = ''NaN''"
| "js_String (JNum r) = num_text r"
| "js_String (JStr s) = s"
| "js_String (JArr xs) =
     join_strings '',''
       (map (\<lambda>x. case x of JUndefined \<Rightarrow> [] | JNull \<Rightarrow> [] | _ \<Rightarrow> js_String x) xs)"
| "js_String (JObj kvs) = ''[object Object]''"

text \<open>
  \<open>Array.prototype.join\<close>: \<open>undefined\<close> and \<open>null\<close> elements give the empty string,
  every other element its \<open>String\<close>.
\<close>

definition elem_text :: "jsval \<Rightarrow> string" where
  "elem_text x = (case x of JUndefined \<Rightarrow> [] | JNull \<Rightarrow> [] | _ \<Rightarrow> js_String x)"

definition js_join :: "string \<Rightarrow> jsval list \<Rightarrow> string" where
  "js_join sep xs = join_strings sep (map elem_text xs)"

text \<open>\<open>s.split(c)\<close> for a one-character separator.\<close>

fun split_on :: "char \<Rightarrow> string \<Rightarrow> string list" where
  "split_on c [] = [[]]"
| "split_on c (x # xs) =
     (if x = c then [] # split_on c xs
      else (case split_on c xs of [] \<Rightarrow> [[x]] | w # ws \<Rightarrow> (x # w) # ws))"

subsection \<open>Reading a number from text\<close>

text \<open>
  \<open>Number(s)\<close> on a string, following the grammar of StringToNumber: white space is
  trimmed, the empty string is \<open>0\<close>, then either a signed decimal literal with optional
  fraction and exponent, or an unsigned hexadecimal, octal or binary literal. Anything
  else is \<open>NaN\<close> (\<open>None\<close>). The value is the exact rational that the text denotes.
  This is \<open>Number(s)\<close> where a double holds that rational exactly, as for the decimal
  text of a safe integer; where \<open>Number(s)\<close> rounds, overflows to \<open>Infinity\<close>, or
  reads the literal \<open>Infinity\<close> (which has no value in this model and is \<open>None\<close>
  here), the model does not follow it.
\<close>

definition is_ws :: "char \<Rightarrow> bool" where
  "is_ws c = ((of_char c :: nat) \<in> {9, 10, 11, 12, 13, 32, 160})"

definition js_trim :: "string \<Rightarrow> string" where
  "js_trim s = rev (dropWhile is_ws (rev (dropWhile is_ws s)))"

definition is_digit :: "char \<Rightarrow> bool" where
  "is_digit c = (48 \<le> (of_char c :: nat) \<and> (of_char c :: nat) \<le> 57)"

definition is_hex_digit :: "char \<Rightarrow> bool" where
  "is_hex_digit c =
     (is_digit c \<or> (97 \<le> (of_char c :: nat) \<and> (of_char c :: nat) \<le> 102)
      \<or> (65 \<le> (of_char c :: nat) \<and> (of_char c :: nat) \<le> 70))"

definition is_oct_digit :: "char \<Rightarrow> bool" where
  "is_oct_digit c = (48 \<le> (of_char c :: nat) \<and> (of_char c :: nat) \<le> 55)"

definition is_bin_digit :: "char \<Rightarrow> bool" where
  "is_bin_digit c = (48 \<le> (of_char c :: nat) \<and> (of_char c :: nat) \<le> 49)"

definition digit_val :: "char \<Rightarrow> nat" where
  "digit_val c =
     (if (of_char c :: nat) \<le> 57 then of_char c - 48
      else if 97 \<le> (of_char c :: nat) then of_char c - 87
      else of_char c - 55)"

definition digits_value :: "nat \<Rightarrow> string \<Rightarrow> nat" where
  "digits_value base ds = foldl (\<lambda>a c. base * a + digit_val c) 0 ds"

definition parse_radix :: "nat \<Rightarrow> (char \<Rightarrow> bool) \<Rightarrow> string \<Rightarrow> rat option" where
  "parse_radix base ok ds =
     (if ds \<noteq> [] \<and> list_all ok ds then Some (of_nat (digits_value base ds)) else None)"

text \<open>The exponent part: absent, or \<open>e\<close> with an optional sign and at least one digit.\<close>

definition parse_exponent :: "string \<Rightarrow> int option" where
  "parse_exponent s =
     (if s = [] then Some 0
      else if hd s = CHR ''e'' \<or> hd s = CHR ''E'' then
        (let t = tl s;
             neg = (t \<noteq> [] \<and> hd t = CHR ''-'');
             ds = (if t \<noteq> [] \<and> (hd t = CHR ''-'' \<or> hd t = CHR ''+'') then tl t else t)
         in if ds \<noteq> [] \<and> list_all is_digit ds
            then Some (if neg then - int (digits_value 10 ds) else int (digits_value 10 ds))
            else None)
      else None)"

definition scale10 :: "rat \<Rightarrow> int \<Rightarrow> rat" where
  "scale10 r e = (if 0 \<le> e then r * 10 ^ nat e else r / 10 ^ nat (- e))"

definition parse_unsigned_decimal :: "string \<Rightarrow> rat option" where
  "parse_unsigned_decimal s =
     (let ip = takeWhile is_digit s;
          r1 = dropWhile is_digit s;
          dot = (r1 \<noteq> [] \<and> hd r1 = CHR ''.'');
          fp = (if dot then takeWhile is_digit (tl r1) else []);
          r2 = (if dot then dropWhile is_digit (tl r1) else r1)
      in if ip = [] \<and> fp = [] then None
         else (case parse_exponent r2 of
                 None \<Rightarrow> None
               | Some e \<Rightarrow>
                   Some (scale10 (of_nat (digits_value 10 ip)
                                  + of_nat (digits_value 10 fp) / 10 ^ length fp) e)))"

definition parse_decimal :: "string \<Rightarrow> rat option" where
  "parse_decimal s =
     (if s \<noteq> [] \<and> hd s = CHR ''-'' then map_option uminus (parse_unsigned_decimal (tl s))
      else if s \<noteq> [] \<and> hd s = CHR ''+'' then parse_unsigned_decimal (tl s)
      else parse_unsigned_decimal s)"

definition string_to_number :: "string \<Rightarrow> rat option" where
  "string_to_number s =
     (let t = js_trim s in
      if t = [] then Some 0
      else if take 2 t = ''0x'' \<or> take 2 t = ''0X'' then parse_radix 16 is_hex_digit (drop 2 t)
      else if take 2 t = ''0o'' \<or> take 2 t = ''0O'' then parse_radix 8 is_oct_digit (drop 2 t)
      else if take 2 t = ''0b'' \<or> take 2 t = ''0B'' then parse_radix 2 is_bin_digit (drop 2 t)
      else parse_decimal t)"

text \<open>ToNumber; \<open>None\<close> is \<open>NaN\<close>. An array converts through its \<open>String\<close>.\<close>

fun to_number :: "jsval \<Rightarrow> rat option" where
  "to_number JUndefined = None"
| "to_number JNull = Some 0"
| "to_number (JBool b) = Some (if b then 1 else 0)"
| "to_number JNaN = None"
| "to_number (JNum r) = Some r"
| "to_number (JStr s) = string_to_number s"
| "to_number (JArr xs) = string_to_number (js_String (JArr xs))"
| "to_number (JObj kvs) = None"

definition js_Number :: "jsval \<Rightarrow> jsval" where
  "js_Number v = (case to_number v of None \<Rightarrow> JNaN | Some r \<Rightarrow> JNum r)"

text \<open>
  Strict equality \<open>===\<close>. At every use in the program one operand is a string or a
  number, so the identity of objects never decides it; \<open>NaN\<close> equals nothing.
\<close>

definition strict_eq :: "jsval \<Rightarrow> jsval \<Rightarrow> bool" where
  "strict_eq a b = (a = b \<and> a \<noteq> JNaN)"


text \<open>The characters of the decimal text of an integer.\<close>

definition is_int_char :: "char \<Rightarrow> bool" where
  "is_int_char c = (is_digit c \<or> c = CHR ''-'')"

section \<open>The training log\<close>

subsection \<open>Base document\<close>

text \<open>
  The base document is the tree of \<open>data/data.json\<close>: periods, blocks, weeks, days and
  exercises. Identifiers have the types of the data format (slugs are strings, block,
  week and day are numbers); the content fields of an exercise are optional in the JSON
  and are kept as values, \<^const>\<open>JUndefined\<close> standing for a field that is absent.
\<close>

record exercise =
  ex_id :: string
  ex_name :: string
  ex_work :: jsval
  ex_videos :: jsval
  ex_lifterComment :: jsval
  ex_coachComment :: jsval
  ex_updatedAt :: jsval

record day =
  day_day :: rat
  day_label :: jsval
  day_exercises :: "exercise list"

record week =
  week_week :: rat
  week_days :: "day list"

record block =
  block_id :: rat
  block_weeks :: "week list"

record period =
  period_id :: string
  period_name :: string
  period_blocks :: "block list"

record document =
  periods :: "period list"

subsection \<open>In-memory state\<close>

text \<open>
  The module state of lines 164-175: \<open>baseData\<close>, the map \<open>edits\<close> from entry key to
  patch, and the current selection \<open>sel\<close>.
\<close>

record selection =
  sel_periodId :: jsval
  sel_blockId :: jsval
  sel_week :: jsval
  sel_day :: jsval
  sel_exerciseId :: jsval

record state =
  baseData :: document
  edits :: jsobj
  sel :: selection

subsection \<open>Entry keys\<close>

text \<open>\<open>entryKey\<close>, lines 145-147.\<close>

definition entryKey :: "jsval \<Rightarrow> jsval \<Rightarrow> jsval \<Rightarrow> jsval \<Rightarrow> jsval \<Rightarrow> string" where
  "entryKey periodId blockId week day exerciseId =
     js_join ''|'' [periodId, blockId, week, day, exerciseId]"

text \<open>
  The only decoding of a key in the source is the destructuring of line 401,
  \<open>const [periodId, blockId, week, day, exerciseId] = r.k.split("|")\<close>: the first five
  segments, \<open>undefined\<close> for a segment that is missing.
\<close>

definition destructure :: "string list \<Rightarrow> nat \<Rightarrow> jsval" where
  "destructure xs i = (if i < length xs then JStr (xs ! i) else JUndefined)"

definition decodeKey :: "string \<Rightarrow> jsval \<times> jsval \<times> jsval \<times> jsval \<times> jsval" where
  "decodeKey k =
     (let parts = split_on CHR ''|'' k in
      (destructure parts 0, destructure parts 1, destructure parts 2,
       destructure parts 3, destructure parts 4))"

subsection \<open>Navigation\<close>

text \<open>
  \<open>getPeriod\<close> ... \<open>getExercise\<close>, lines 197-215. \<open>Array.prototype.find\<close> returns the
  first element that satisfies the predicate, or \<open>undefined\<close> (\<open>None\<close>).
\<close>

definition isPeriod :: "jsval \<Rightarrow> period \<Rightarrow> bool" where
  "isPeriod periodId p = strict_eq (JStr (period_id p)) periodId"

definition isBlock :: "jsval \<Rightarrow> block \<Rightarrow> bool" where
  "isBlock blockId b =
     strict_eq (JStr (js_String (JNum (block_id b)))) (JStr (js_String blockId))"

definition isWeek :: "jsval \<Rightarrow> week \<Rightarrow> bool" where
  "isWeek week w = strict_eq (js_Number (JNum (week_week w))) (js_Number week)"

definition isDay :: "jsval \<Rightarrow> day \<Rightarrow> bool" where
  "isDay day d = strict_eq (js_Number (JNum (day_day d))) (js_Number day)"

definition isExercise :: "jsval \<Rightarrow> exercise \<Rightarrow> bool" where
  "isExercise exerciseId e = strict_eq (JStr (ex_id e)) exerciseId"

definition getPeriod :: "document \<Rightarrow> jsval \<Rightarrow> period option" where
  "getPeriod doc periodId = find (isPeriod periodId) (periods doc)"

definition getBlock :: "period \<Rightarrow> jsval \<Rightarrow> block option" where
  "getBlock period blockId = find (isBlock blockId) (period_blocks period)"

definition getWeek :: "block \<Rightarrow> jsval \<Rightarrow> week option" where
  "getWeek block week = find (isWeek week) (block_weeks block)"

definition getDay :: "week \<Rightarrow> jsval \<Rightarrow> day option" where
  "getDay weekObj day = find (isDay day) (week_days weekObj)"

definition getExercise :: "day \<Rightarrow> jsval \<Rightarrow> exercise option" where
  "getExercise dayObj exerciseId = find (isExercise exerciseId) (day_exercises dayObj)"

text \<open>The lookups in a chain, the first failure ending it.\<close>

definition lookup_chain ::
  "document \<Rightarrow> jsval \<Rightarrow> jsval \<Rightarrow> jsval \<Rightarrow> jsval \<Rightarrow> jsval
     \<Rightarrow> (period \<times> block \<times> week \<times> day \<times> exercise) option" where
  "lookup_chain doc periodId blockId week day exerciseId =
     do {
       period \<leftarrow> getPeriod doc periodId;
       block \<leftarrow> getBlock period blockId;
       weekObj \<leftarrow> getWeek block week;
       dayObj \<leftarrow> getDay weekObj day;
       ex \<leftarrow> getExercise dayObj exerciseId;
       Some (period, block, weekObj, dayObj, ex)
     }"

subsection \<open>Applying a patch to an entry\<close>

text \<open>
  \<open>applyPatchToEntry(entry, patch)\<close>, lines 150-160. \<open>{...entry}\<close> copies the entry,
  \<open>[...patch.videos]\<close> copies the array; both copies are the same value.
\<close>

definition applyPatchToEntry :: "jsobj \<Rightarrow> jsval \<Rightarrow> jsobj" where
  "applyPatchToEntry entry patch =
    (if js_not patch then entry
     else
       let out = entry;
           out = (if is_string (js_get patch ''work'')
                  then obj_set ''work'' (js_get patch ''work'') out else out);
           out = (if is_array (js_get patch ''videos'')
                  then obj_set ''videos'' (js_get patch ''videos'') out else out);
           out = (if is_string (js_get patch ''lifterComment'')
                  then obj_set ''lifterComment'' (js_get patch ''lifterComment'') out else out);
           out = (if is_string (js_get patch ''coachComment'')
                  then obj_set ''coachComment'' (js_get patch ''coachComment'') out else out);
           out = (if is_string (js_get patch ''updatedAt'')
                  then obj_set ''updatedAt'' (js_get patch ''updatedAt'') out else out)
       in out)"

definition overlay_fields :: "string list" where
  "overlay_fields = [''work'', ''videos'', ''lifterComment'', ''coachComment'', ''updatedAt'']"

subsection \<open>Resolving an entry\<close>

text \<open>
  The object literal of lines 233-246: the entry before the patch, with the defaults
  for content fields that are missing.
\<close>

definition baseEntry :: "jsval \<Rightarrow> period \<Rightarrow> block \<Rightarrow> week \<Rightarrow> day \<Rightarrow> exercise \<Rightarrow> jsobj" where
  "baseEntry periodId period block weekObj dayObj ex =
     [(''periodId'', periodId),
      (''periodName'', JStr (period_name period)),
      (''blockId'', JNum (block_id block)),
      (''week'', JNum (week_week weekObj)),
      (''day'', JNum (day_day dayObj)),
      (''exerciseId'', JStr (ex_id ex)),
      (''exerciseName'', JStr (ex_name ex)),
      (''work'', js_or (ex_work ex) (JStr [])),
      (''videos'', if is_array (ex_videos ex) then ex_videos ex else JArr []),
      (''lifterComment'', js_or (ex_lifterComment ex) (JStr [])),
      (''coachComment'', js_or (ex_coachComment ex) (JStr [])),
      (''updatedAt'', js_or (ex_updatedAt ex) JNull)]"

text \<open>\<open>getPatchedEntry\<close>, lines 218-247; \<open>None\<close> is the \<open>null\<close> it returns.\<close>

definition getPatchedEntry ::
  "document \<Rightarrow> jsobj \<Rightarrow> jsval \<Rightarrow> jsval \<Rightarrow> jsval \<Rightarrow> jsval \<Rightarrow> jsval \<Rightarrow> jsobj option" where
  "getPatchedEntry doc ed periodId blockId week day exerciseId =
     (case getPeriod doc periodId of
        None \<Rightarrow> None
      | Some period \<Rightarrow>
     (case getBlock period blockId of
        None \<Rightarrow> None
      | Some block \<Rightarrow>
     (case getWeek block week of
        None \<Rightarrow> None
      | Some weekObj \<Rightarrow>
     (case getDay weekObj day of
        None \<Rightarrow> None
      | Some dayObj \<Rightarrow>
     (case getExercise dayObj exerciseId of
        None \<Rightarrow> None
      | Some ex \<Rightarrow>
          (let key = entryKey periodId blockId week day exerciseId;
               patch = obj_get ed key
           in Some (applyPatchToEntry
                      (baseEntry periodId period block weekObj dayObj ex) patch)))))))"

text \<open>
  Line 402: a key of the overlay is resolved by passing its segments to
  \<open>getPatchedEntry\<close>, week and day through \<open>Number\<close>.
\<close>

definition resolveKey :: "document \<Rightarrow> jsobj \<Rightarrow> string \<Rightarrow> jsobj option" where
  "resolveKey doc ed k =
     (case decodeKey k of
        (periodId, blockId, week, day, exerciseId) \<Rightarrow>
          getPatchedEntry doc ed periodId blockId (js_Number week) (js_Number day) exerciseId)"

subsection \<open>Saving a patch\<close>

text \<open>
  The own enumerable properties that an object spread \<open>{...v}\<close> copies: those of an
  object, the indexed characters of a string, the indexed elements of an array, none for
  any other value.
\<close>

definition indexed :: "jsval list \<Rightarrow> jsobj" where
  "indexed xs = zip (map nat_digits [0..<length xs]) xs"

fun own_props :: "jsval \<Rightarrow> jsobj" where
  "own_props (JObj kvs) = kvs"
| "own_props (JStr s) = indexed (map (\<lambda>c. JStr [c]) s)"
| "own_props (JArr xs) = indexed xs"
| "own_props v = []"

definition spread :: "jsobj \<Rightarrow> jsobj \<Rightarrow> jsobj" where
  "spread target src = foldl (\<lambda>acc kv. obj_set (fst kv) (snd kv) acc) target src"

text \<open>
  \<open>saveEntryPatch\<close>, lines 584-590. The clock \<open>nowIso()\<close> is the parameter \<open>now\<close>.
  \<open>saveEdits\<close> writes the map to LocalStorage, which is outside the model.
\<close>

definition saveEntryPatch :: "jsobj \<Rightarrow> string \<Rightarrow> state \<Rightarrow> state" where
  "saveEntryPatch partialPatch now s =
     (let key = entryKey (sel_periodId (sel s)) (sel_blockId (sel s)) (sel_week (sel s))
                  (sel_day (sel s)) (sel_exerciseId (sel s));
          prev = js_or (obj_get (edits s) key) (JObj []);
          next = obj_set ''updatedAt'' (JStr now) (spread (spread [] (own_props prev)) partialPatch)
      in s\<lparr>edits := obj_set key (JObj next) (edits s)\<rparr>)"

subsection \<open>Export\<close>

text \<open>
  \<open>JSON.parse(JSON.stringify(base))\<close>, line 813, copies the tree. A value comes
  back as it was, except that \<open>NaN\<close> becomes \<open>null\<close>, an \<open>undefined\<close> array element
  becomes \<open>null\<close> and an \<open>undefined\<close> property is dropped. The copy also matters to
  the caller, whose document is not mutated: here the function returns the merged
  document and leaves its argument as it is.
\<close>

fun json_value :: "jsval \<Rightarrow> jsval" where
  "json_value JNaN = JNull"
| "json_value (JArr xs) =
     JArr (map (\<lambda>x. case x of JUndefined \<Rightarrow> JNull | _ \<Rightarrow> json_value x) xs)"
| "json_value (JObj kvs) =
     JObj (map (\<lambda>kv. (fst kv, json_value (snd kv)))
            (filter (\<lambda>kv. snd kv \<noteq> JUndefined) kvs))"
| "json_value v = v"

definition clone_exercise :: "exercise \<Rightarrow> exercise" where
  "clone_exercise e =
     e\<lparr>ex_work := json_value (ex_work e), ex_videos := json_value (ex_videos e),
       ex_lifterComment := json_value (ex_lifterComment e),
       ex_coachComment := json_value (ex_coachComment e),
       ex_updatedAt := json_value (ex_updatedAt e)\<rparr>"

definition clone_day :: "day \<Rightarrow> day" where
  "clone_day d =
     d\<lparr>day_label := json_value (day_label d),
       day_exercises := map clone_exercise (day_exercises d)\<rparr>"

definition clone_week :: "week \<Rightarrow> week" where
  "clone_week w = w\<lparr>week_days := map clone_day (week_days w)\<rparr>"

definition clone_block :: "block \<Rightarrow> block" where
  "clone_block b = b\<lparr>block_weeks := map clone_week (block_weeks b)\<rparr>"

definition clone_period :: "period \<Rightarrow> period" where
  "clone_period p = p\<lparr>period_blocks := map clone_block (period_blocks p)\<rparr>"

definition deep_clone :: "document \<Rightarrow> document" where
  "deep_clone base = base\<lparr>periods := map clone_period (periods base)\<rparr>"

text \<open>Lines 823-827: the patch written into the exercise node.\<close>

definition patchExercise :: "jsval \<Rightarrow> exercise \<Rightarrow> exercise" where
  "patchExercise patch ex =
     (let ex = (if is_string (js_get patch ''work'')
                then ex\<lparr>ex_work := js_get patch ''work''\<rparr> else ex);
          ex = (if is_array (js_get patch ''videos'')
                then ex\<lparr>ex_videos := js_get patch ''videos''\<rparr> else ex);
          ex = (if is_string (js_get patch ''lifterComment'')
                then ex\<lparr>ex_lifterComment := js_get patch ''lifterComment''\<rparr> else ex);
          ex = (if is_string (js_get patch ''coachComment'')
                then ex\<lparr>ex_coachComment := js_get patch ''coachComment''\<rparr> else ex);
          ex = (if is_string (js_get patch ''updatedAt'')
                then ex\<lparr>ex_updatedAt := js_get patch ''updatedAt''\<rparr> else ex)
      in ex)"

text \<open>\<open>mergeBaseWithEdits\<close>, lines 812-834: the five nested loops over the copy.\<close>

definition mergeExercise ::
  "jsobj \<Rightarrow> period \<Rightarrow> block \<Rightarrow> week \<Rightarrow> day \<Rightarrow> exercise \<Rightarrow> exercise" where
  "mergeExercise editsMap p b w d ex =
     (let key = entryKey (JStr (period_id p)) (JNum (block_id b)) (JNum (week_week w))
                  (JNum (day_day d)) (JStr (ex_id ex));
          patch = obj_get editsMap key
      in if js_not patch then ex else patchExercise patch ex)"

definition mergeBaseWithEdits :: "document \<Rightarrow> jsobj \<Rightarrow> document" where
  "mergeBaseWithEdits base editsMap =
     (let out = deep_clone base in
      out\<lparr>periods := map (\<lambda>p.
        p\<lparr>period_blocks := map (\<lambda>b.
          b\<lparr>block_weeks := map (\<lambda>w.
            w\<lparr>week_days := map (\<lambda>d.
              d\<lparr>day_exercises := map (mergeExercise editsMap p b w d) (day_exercises d)\<rparr>)
              (week_days w)\<rparr>)
            (block_weeks b)\<rparr>)
          (period_blocks p)\<rparr>)
        (periods out)\<rparr>)"

section \<open>Array helpers\<close>

text \<open>
  \<open>findIndex\<close> followed by \<open>splice(idx, 1)\<close> removes the first element that satisfies
  the predicate. An object found by \<open>find\<close> and then mutated is the first element that
  satisfies the predicate: \<open>replace_first\<close> and \<open>modify_first\<close> write the change back
  at that place.
\<close>

fun remove_first :: "('a \<Rightarrow> bool) \<Rightarrow> 'a list \<Rightarrow> 'a list" where
  "remove_first P [] = []"
| "remove_first P (x # xs) = (if P x then xs else x # remove_first P xs)"

fun replace_first :: "('a \<Rightarrow> bool) \<Rightarrow> 'a \<Rightarrow> 'a list \<Rightarrow> 'a list" where
  "replace_first P y [] = []"
| "replace_first P y (x # xs) = (if P x then y # xs else x # replace_first P y xs)"

fun modify_first :: "('a \<Rightarrow> bool) \<Rightarrow> ('a \<Rightarrow> 'a) \<Rightarrow> 'a list \<Rightarrow> 'a list" where
  "modify_first P f [] = []"
| "modify_first P f (x # xs) = (if P x then f x # xs else x # modify_first P f xs)"

text \<open>
  \<open>Array.prototype.sort\<close> with a comparator is a stable sort; \<open>le a b\<close> stands for
  \<open>compare(a, b) <= 0\<close>.
\<close>

fun insert_sorted :: "('a \<Rightarrow> 'a \<Rightarrow> bool) \<Rightarrow> 'a \<Rightarrow> 'a list \<Rightarrow> 'a list" where
  "insert_sorted le x [] = [x]"
| "insert_sorted le x (y # ys) = (if le x y then x # y # ys else y # insert_sorted le x ys)"

definition js_sort :: "('a \<Rightarrow> 'a \<Rightarrow> bool) \<Rightarrow> 'a list \<Rightarrow> 'a list" where
  "js_sort le xs = foldr (insert_sorted le) xs []"

section \<open>Structure manager\<close>

subsection \<open>Fallback selection\<close>

text \<open>The placeholder nodes that \<open>ensureSelected\<close> pushes, lines 859-885.\<close>

definition placeholder_exercise :: exercise where
  "placeholder_exercise =
     \<lparr>ex_id = ''exercise-1'', ex_name = ''Exercise 1'', ex_work = JStr [],
      ex_videos = JArr [], ex_lifterComment = JStr [], ex_coachComment = JStr [],
      ex_updatedAt = JNull\<rparr>"

definition placeholder_day :: day where
  "placeholder_day = \<lparr>day_day = 1, day_label = JStr ''Day 1'', day_exercises = []\<rparr>"

definition placeholder_week :: week where
  "placeholder_week = \<lparr>week_week = 1, week_days = []\<rparr>"

definition placeholder_block :: block where
  "placeholder_block = \<lparr>block_id = 1, block_weeks = []\<rparr>"

definition placeholder_period :: period where
  "placeholder_period =
     \<lparr>period_id = ''period-1'', period_name = ''Period 1'',
      period_blocks =
        [\<lparr>block_id = 1,
          block_weeks = [\<lparr>week_week = 1, week_days = [placeholder_day]\<rparr>]\<rparr>]\<rparr>"

text \<open>
  \<open>ensureSelected\<close>, lines 857-890, one function per level: each works on the node that
  the level above has found, pushes a placeholder when the node has no children, repairs
  its selection component, and hands the child it finds to the level below. The child
  is mutated in place in the source; here the changed child is written back where it
  was found. \<open>None\<close> is a TypeError (reading a property of \<open>undefined\<close>).
\<close>

definition ensureExercise :: "day \<Rightarrow> selection \<Rightarrow> (day \<times> selection) option" where
  "ensureExercise d sl =
     (let d = (if day_exercises d = []
               then d\<lparr>day_exercises := day_exercises d @ [placeholder_exercise]\<rparr> else d)
      in if js_not (sel_exerciseId sl) \<or> getExercise d (sel_exerciseId sl) = None
         then (case day_exercises d of
                 [] \<Rightarrow> None
               | e # es \<Rightarrow> Some (d, sl\<lparr>sel_exerciseId := JStr (ex_id e)\<rparr>))
         else Some (d, sl))"

definition ensureDay :: "week \<Rightarrow> selection \<Rightarrow> (week \<times> selection) option" where
  "ensureDay w sl =
     (let w = (if week_days w = []
               then w\<lparr>week_days := week_days w @ [placeholder_day]\<rparr> else w)
      in do {
        sl \<leftarrow> (if js_not (sel_day sl) \<or> getDay w (sel_day sl) = None
               then (case week_days w of
                       [] \<Rightarrow> None
                     | d0 # ds \<Rightarrow>
                         Some (sl\<lparr>sel_day := JNum (day_day d0), sel_exerciseId := JNull\<rparr>))
               else Some sl);
        d \<leftarrow> getDay w (sel_day sl);
        (d', sl') \<leftarrow> ensureExercise d sl;
        Some (w\<lparr>week_days := replace_first (isDay (sel_day sl)) d' (week_days w)\<rparr>, sl')
      })"

definition ensureWeek :: "block \<Rightarrow> selection \<Rightarrow> (block \<times> selection) option" where
  "ensureWeek b sl =
     (let b = (if block_weeks b = []
               then b\<lparr>block_weeks := block_weeks b @ [placeholder_week]\<rparr> else b)
      in do {
        sl \<leftarrow> (if js_not (sel_week sl) \<or> getWeek b (sel_week sl) = None
               then (case block_weeks b of
                       [] \<Rightarrow> None
                     | w0 # ws \<Rightarrow>
                         Some (sl\<lparr>sel_week := JNum (week_week w0), sel_day := JNull,
                                  sel_exerciseId := JNull\<rparr>))
               else Some sl);
        w \<leftarrow> getWeek b (sel_week sl);
        (w', sl') \<leftarrow> ensureDay w sl;
        Some (b\<lparr>block_weeks := replace_first (isWeek (sel_week sl)) w' (block_weeks b)\<rparr>, sl')
      })"

definition ensureBlock :: "period \<Rightarrow> selection \<Rightarrow> (period \<times> selection) option" where
  "ensureBlock p sl =
     (let p = (if period_blocks p = []
               then p\<lparr>period_blocks := period_blocks p @ [placeholder_block]\<rparr> else p)
      in do {
        sl \<leftarrow> (if js_not (sel_blockId sl) \<or> getBlock p (sel_blockId sl) = None
               then (case period_blocks p of
                       [] \<Rightarrow> None
                     | b0 # bs \<Rightarrow>
                         Some (sl\<lparr>sel_blockId := JNum (block_id b0), sel_week := JNull,
                                  sel_day := JNull, sel_exerciseId := JNull\<rparr>))
               else Some sl);
        b \<leftarrow> getBlock p (sel_blockId sl);
        (b', sl') \<leftarrow> ensureWeek b sl;
        Some (p\<lparr>period_blocks := replace_first (isBlock (sel_blockId sl)) b' (period_blocks p)\<rparr>,
              sl')
      })"

definition ensureSelected :: "state \<Rightarrow> state option" where
  "ensureSelected s =
     (let doc = baseData s;
          doc = (if periods doc = []
                 then doc\<lparr>periods := periods doc @ [placeholder_period]\<rparr> else doc);
          sl = sel s
      in do {
        sl \<leftarrow> (if js_not (sel_periodId sl) \<or> getPeriod doc (sel_periodId sl) = None
               then (case periods doc of
                       [] \<Rightarrow> None
                     | p0 # ps \<Rightarrow>
                         Some (sl\<lparr>sel_periodId := JStr (period_id p0), sel_blockId := JNull,
                                  sel_week := JNull, sel_day := JNull,
                                  sel_exerciseId := JNull\<rparr>))
               else Some sl);
        p \<leftarrow> getPeriod doc (sel_periodId sl);
        (p', sl') \<leftarrow> ensureBlock p sl;
        Some (s\<lparr>baseData := doc\<lparr>periods := replace_first (isPeriod (sel_periodId sl)) p'
                                          (periods doc)\<rparr>,
                sel := sl'\<rparr>)
      })"

subsection \<open>Handlers\<close>

text \<open>
  A handler of \<open>wireManager\<close> ends by returning or by a TypeError; either way the module
  state stays as the handler left it, and \<open>Thrown\<close> carries the state at the throw. A
  handler that gets through its own checks goes on to \<open>persistBaseData\<close>, which writes
  to LocalStorage, to \<open>ensureSelected\<close>, to \<open>renderNav\<close> and to \<open>renderOverview\<close>.
  \<open>renderOverview\<close> (lines 353-419) reads \<open>baseData\<close> and \<open>edits\<close> and changes neither
  them nor the selection, so that the state after \<open>renderNav\<close> is the handler's last;
  \<open>Returned\<close> says that the handler has come through \<open>renderNav\<close>.
\<close>

datatype outcome = Returned state | Thrown state

fun final_state :: "outcome \<Rightarrow> state" where
  "final_state (Returned s) = s"
| "final_state (Thrown s) = s"

text \<open>
  \<open>renderNav\<close>, lines 308-351, as far as it touches the state, one function per level
  as for \<open>ensureSelected\<close>. At each level a falsy component of the selection is replaced
  by the identifier of the first child, or by \<open>null\<close> when that identifier is falsy or
  there is no child (\<open>xs[0]?.id || null\<close>); the lookup that follows uses the component
  as it is then. A lookup that finds nothing makes the list function of the next level
  read a property of \<open>undefined\<close>: a TypeError, with the selection as changed so far.
\<close>

definition first_or_null :: "'a list \<Rightarrow> ('a \<Rightarrow> jsval) \<Rightarrow> jsval" where
  "first_or_null xs f = js_or (case xs of [] \<Rightarrow> JUndefined | x # rest \<Rightarrow> f x) JNull"

definition renderNavExercises :: "day \<Rightarrow> state \<Rightarrow> outcome" where
  "renderNavExercises d s =
     Returned
       (if js_not (sel_exerciseId (sel s))
        then s\<lparr>sel := (sel s)\<lparr>sel_exerciseId :=
                         first_or_null (day_exercises d) (\<lambda>e. JStr (ex_id e))\<rparr>\<rparr>
        else s)"

definition renderNavDays :: "week \<Rightarrow> state \<Rightarrow> outcome" where
  "renderNavDays w s =
     (let s = (if js_not (sel_day (sel s))
               then s\<lparr>sel := (sel s)\<lparr>sel_day :=
                                first_or_null (week_days w) (\<lambda>d. JNum (day_day d))\<rparr>\<rparr>
               else s)
      in case getDay w (sel_day (sel s)) of
           None \<Rightarrow> Thrown s
         | Some d \<Rightarrow> renderNavExercises d s)"

definition renderNavWeeks :: "block \<Rightarrow> state \<Rightarrow> outcome" where
  "renderNavWeeks b s =
     (let s = (if js_not (sel_week (sel s))
               then s\<lparr>sel := (sel s)\<lparr>sel_week :=
                                first_or_null (block_weeks b) (\<lambda>w. JNum (week_week w))\<rparr>\<rparr>
               else s)
      in case getWeek b (sel_week (sel s)) of
           None \<Rightarrow> Thrown s
         | Some w \<Rightarrow> renderNavDays w s)"

definition renderNavBlocks :: "period \<Rightarrow> state \<Rightarrow> outcome" where
  "renderNavBlocks p s =
     (let s = (if js_not (sel_blockId (sel s))
               then s\<lparr>sel := (sel s)\<lparr>sel_blockId :=
                                first_or_null (period_blocks p) (\<lambda>b. JNum (block_id b))\<rparr>\<rparr>
               else s)
      in case getBlock p (sel_blockId (sel s)) of
           None \<Rightarrow> Thrown s
         | Some b \<Rightarrow> renderNavWeeks b s)"

definition renderNav :: "state \<Rightarrow> outcome" where
  "renderNav s =
     (let s = (if js_not (sel_periodId (sel s))
               then s\<lparr>sel := (sel s)\<lparr>sel_periodId :=
                                first_or_null (periods (baseData s)) (\<lambda>p. JStr (period_id p))\<rparr>\<rparr>
               else s)
      in case getPeriod (baseData s) (sel_periodId (sel s)) of
           None \<Rightarrow> Thrown s
         | Some p \<Rightarrow> renderNavBlocks p s)"

text \<open>
  The tail that the handlers share: \<open>ensureSelected\<close>, then \<open>renderNav\<close>. A TypeError
  inside \<open>ensureSelected\<close> leaves the state of its call.
\<close>

definition finish :: "state \<Rightarrow> outcome" where
  "finish s = (case ensureSelected s of None \<Rightarrow> Thrown s | Some s' \<Rightarrow> renderNav s')"

text \<open>Writing a change back to the node that the chain of lookups has found.\<close>

definition inPeriod :: "jsval \<Rightarrow> (period \<Rightarrow> period) \<Rightarrow> document \<Rightarrow> document" where
  "inPeriod periodId f doc = doc\<lparr>periods := modify_first (isPeriod periodId) f (periods doc)\<rparr>"

definition inBlock :: "jsval \<Rightarrow> (block \<Rightarrow> block) \<Rightarrow> period \<Rightarrow> period" where
  "inBlock blockId f p = p\<lparr>period_blocks := modify_first (isBlock blockId) f (period_blocks p)\<rparr>"

definition inWeek :: "jsval \<Rightarrow> (week \<Rightarrow> week) \<Rightarrow> block \<Rightarrow> block" where
  "inWeek week f b = b\<lparr>block_weeks := modify_first (isWeek week) f (block_weeks b)\<rparr>"

definition inDay :: "jsval \<Rightarrow> (day \<Rightarrow> day) \<Rightarrow> week \<Rightarrow> week" where
  "inDay day f w = w\<lparr>week_days := modify_first (isDay day) f (week_days w)\<rparr>"

text \<open>\<open>slugify\<close>, lines 35-42, on a string.\<close>

definition to_lower :: "char \<Rightarrow> char" where
  "to_lower c =
     (case map_of (zip ''ABCDEFGHIJKLMNOPQRSTUVWXYZ'' ''abcdefghijklmnopqrstuvwxyz'') c of
        None \<Rightarrow> c | Some l \<Rightarrow> l)"

definition is_slug_char :: "char \<Rightarrow> bool" where
  "is_slug_char c = (c \<in> set ''abcdefghijklmnopqrstuvwxyz0123456789'')"

function dash_runs :: "string \<Rightarrow> string" where
  "dash_runs [] = []"
| "dash_runs (c # cs) =
     (if is_slug_char c then c # dash_runs cs
      else CHR ''-'' # dash_runs (dropWhile (\<lambda>x. \<not> is_slug_char x) cs))"
  by pat_completeness auto
termination
  by (relation "measure length") (auto simp: length_dropWhile_le less_Suc_eq_le)

definition strip_dashes :: "string \<Rightarrow> string" where
  "strip_dashes s =
     (let s = (if s \<noteq> [] \<and> hd s = CHR ''-'' then tl s else s)
      in if s \<noteq> [] \<and> last s = CHR ''-'' then butlast s else s)"

definition slugify :: "string \<Rightarrow> string" where
  "slugify str =
     strip_dashes
       (dash_runs
          (filter (\<lambda>c. c \<noteq> CHR 0x27 \<and> c \<noteq> CHR 0x22) (map to_lower (js_trim str))))"

text \<open>
  The handlers that add a node, lines 897-995. What the handler reads from the page is a
  parameter: the text of a name, label or work field, and for a block, week or day the
  number that \<open>Number\<close> has made of the field's text (\<open>NaN\<close> when the text is no
  number). \<open>localeCompare\<close> is the collation of the browser, a parameter as well
  (\<open>le a b\<close> stands for \<open>a.localeCompare(b) <= 0\<close>).
\<close>

definition null_selection :: "jsval \<Rightarrow> selection" where
  "null_selection periodId =
     \<lparr>sel_periodId = periodId, sel_blockId = JNull, sel_week = JNull, sel_day = JNull,
      sel_exerciseId = JNull\<rparr>"





definition btnAddExercise ::
  "(string \<Rightarrow> string \<Rightarrow> bool) \<Rightarrow> string \<Rightarrow> string \<Rightarrow> state \<Rightarrow> outcome" where
  "btnAddExercise le nameInput workInput s =
     (case getPeriod (baseData s) (sel_periodId (sel s)) of
        None \<Rightarrow> Thrown s
      | Some p \<Rightarrow>
     (case getBlock p (sel_blockId (sel s)) of
        None \<Rightarrow> Thrown s
      | Some b \<Rightarrow>
     (case getWeek b (sel_week (sel s)) of
        None \<Rightarrow> Thrown s
      | Some w \<Rightarrow>
          let d = getDay w (sel_day (sel s));
              name = js_trim nameInput
          in if js_not (JStr name) then Returned s
             else
               let id = slugify name in
               (case d of
                  None \<Rightarrow> Thrown s
                | Some d \<Rightarrow>
                    if list_ex (\<lambda>e. strict_eq (JStr (ex_id e)) (JStr id)) (day_exercises d)
                    then Returned s
                    else
                      let work = js_trim workInput in
                      finish
                        (s\<lparr>baseData := inPeriod (sel_periodId (sel s))
                             (inBlock (sel_blockId (sel s))
                                (inWeek (sel_week (sel s))
                                   (inDay (sel_day (sel s))
                                      (\<lambda>d. d\<lparr>day_exercises :=
                                             js_sort (\<lambda>a b. le (ex_name a) (ex_name b))
                                               (day_exercises d @
                                                [\<lparr>ex_id = id, ex_name = name,
                                                  ex_work = JStr work, ex_videos = JArr [],
                                                  ex_lifterComment = JStr [],
                                                  ex_coachComment = JStr [],
                                                  ex_updatedAt = JNull\<rparr>])\<rparr>))))
                             (baseData s),
                           sel := (sel s)\<lparr>sel_exerciseId := JStr id\<rparr>\<rparr>)))))"

text \<open>
  The handlers that remove a node, lines 997-1088. The answer to \<open>confirm\<close> is the
  parameter \<open>confirmed\<close>.
\<close>

definition btnRemoveExercise :: "bool \<Rightarrow> state \<Rightarrow> outcome" where
  "btnRemoveExercise confirmed s =
     (if \<not> confirmed then Returned s
      else
     (case getPeriod (baseData s) (sel_periodId (sel s)) of
        None \<Rightarrow> Thrown s
      | Some p \<Rightarrow>
     (case getBlock p (sel_blockId (sel s)) of
        None \<Rightarrow> Thrown s
      | Some b \<Rightarrow>
     (case getWeek b (sel_week (sel s)) of
        None \<Rightarrow> Thrown s
      | Some w \<Rightarrow>
     (case getDay w (sel_day (sel s)) of
        None \<Rightarrow> Thrown s
      | Some d \<Rightarrow>
          if find (isExercise (sel_exerciseId (sel s))) (day_exercises d) = None
          then Returned s
          else
            let key = entryKey (sel_periodId (sel s)) (sel_blockId (sel s)) (sel_week (sel s))
                        (sel_day (sel s)) (sel_exerciseId (sel s))
            in finish
              (s\<lparr>baseData := inPeriod (sel_periodId (sel s))
                   (inBlock (sel_blockId (sel s))
                      (inWeek (sel_week (sel s))
                         (inDay (sel_day (sel s))
                            (\<lambda>d. d\<lparr>day_exercises :=
                                   remove_first (isExercise (sel_exerciseId (sel s)))
                                     (day_exercises d)\<rparr>))))
                   (baseData s),
                 edits := obj_delete key (edits s),
                 sel := (sel s)\<lparr>sel_exerciseId := JNull\<rparr>\<rparr>))))))"

definition btnRemoveDay :: "bool \<Rightarrow> state \<Rightarrow> outcome" where
  "btnRemoveDay confirmed s =
     (if \<not> confirmed then Returned s
      else
     (case getPeriod (baseData s) (sel_periodId (sel s)) of
        None \<Rightarrow> Thrown s
      | Some p \<Rightarrow>
     (case getBlock p (sel_blockId (sel s)) of
        None \<Rightarrow> Thrown s
      | Some b \<Rightarrow>
     (case getWeek b (sel_week (sel s)) of
        None \<Rightarrow> Thrown s
      | Some w \<Rightarrow>
          if find (isDay (sel_day (sel s))) (week_days w) = None
          then Returned s
          else finish
            (s\<lparr>baseData := inPeriod (sel_periodId (sel s))
                 (inBlock (sel_blockId (sel s))
                    (inWeek (sel_week (sel s))
                       (\<lambda>w. w\<lparr>week_days :=
                              remove_first (isDay (sel_day (sel s))) (week_days w)\<rparr>)))
                 (baseData s),
               sel := (sel s)\<lparr>sel_day := JNull, sel_exerciseId := JNull\<rparr>\<rparr>)))))"

definition btnRemoveWeek :: "bool \<Rightarrow> state \<Rightarrow> outcome" where
  "btnRemoveWeek confirmed s =
     (if \<not> confirmed then Returned s
      else
     (case getPeriod (baseData s) (sel_periodId (sel s)) of
        None \<Rightarrow> Thrown s
      | Some p \<Rightarrow>
     (case getBlock p (sel_blockId (sel s)) of
        None \<Rightarrow> Thrown s
      | Some b \<Rightarrow>
          if find (isWeek (sel_week (sel s))) (block_weeks b) = None
          then Returned s
          else finish
            (s\<lparr>baseData := inPeriod (sel_periodId (sel s))
                 (inBlock (sel_blockId (sel s))
                    (\<lambda>b. b\<lparr>block_weeks :=
                           remove_first (isWeek (sel_week (sel s))) (block_weeks b)\<rparr>))
                 (baseData s),
               sel := (sel s)\<lparr>sel_week := JNull, sel_day := JNull,
                              sel_exerciseId := JNull\<rparr>\<rparr>))))"

text \<open>
  Removing a block compares the identifiers as numbers (line 1057), where \<open>getBlock\<close>
  compares them as strings.
\<close>

definition isBlockNum :: "jsval \<Rightarrow> block \<Rightarrow> bool" where
  "isBlockNum blockId b = strict_eq (js_Number (JNum (block_id b))) (js_Number blockId)"

definition btnRemoveBlock :: "bool \<Rightarrow> state \<Rightarrow> outcome" where
  "btnRemoveBlock confirmed s =
     (if \<not> confirmed then Returned s
      else
     (case getPeriod (baseData s) (sel_periodId (sel s)) of
        None \<Rightarrow> Thrown s
      | Some p \<Rightarrow>
          if find (isBlockNum (sel_blockId (sel s))) (period_blocks p) = None
          then Returned s
          else finish
            (s\<lparr>baseData := inPeriod (sel_periodId (sel s))
                 (\<lambda>p. p\<lparr>period_blocks :=
                        remove_first (isBlockNum (sel_blockId (sel s))) (period_blocks p)\<rparr>)
                 (baseData s),
               sel := (sel s)\<lparr>sel_blockId := JNull, sel_week := JNull, sel_day := JNull,
                              sel_exerciseId := JNull\<rparr>\<rparr>)))"

definition btnRemovePeriod :: "bool \<Rightarrow> state \<Rightarrow> outcome" where
  "btnRemovePeriod confirmed s =
     (if \<not> confirmed then Returned s
      else if find (isPeriod (sel_periodId (sel s))) (periods (baseData s)) = None
      then Returned s
      else finish
        (s\<lparr>baseData := (baseData s)\<lparr>periods :=
               remove_first (isPeriod (sel_periodId (sel s))) (periods (baseData s))\<rparr>,
           sel := null_selection JNull\<rparr>))"

section \<open>The scenario of the specification\<close>

text \<open>
  The document of Scenario A: one period \<open>serie-1-2026\<close>, block 1, week 1, day 1 and
  the exercise \<open>squat\<close> with the work \<open>5x5\<close>; the selection points at that exercise.
  Scenario B adds a patch with one video.
\<close>

definition scenario_exercise :: exercise where
  "scenario_exercise =
     \<lparr>ex_id = ''squat'', ex_name = ''Squat'', ex_work = JStr ''5x5'', ex_videos = JUndefined,
      ex_lifterComment = JUndefined, ex_coachComment = JUndefined,
      ex_updatedAt = JUndefined\<rparr>"

definition scenario_doc :: document where
  "scenario_doc =
     \<lparr>periods =
        [\<lparr>period_id = ''serie-1-2026'', period_name = ''Serie 1 2026'',
          period_blocks =
            [\<lparr>block_id = 1,
              block_weeks =
                [\<lparr>week_week = 1,
                  week_days =
                    [\<lparr>day_day = 1, day_label = JStr ''Day 1'',
                      day_exercises = [scenario_exercise]\<rparr>]\<rparr>]\<rparr>]\<rparr>]\<rparr>"

definition scenario_sel :: selection where
  "scenario_sel =
     \<lparr>sel_periodId = JStr ''serie-1-2026'', sel_blockId = JNum 1, sel_week = JNum 1,
      sel_day = JNum 1, sel_exerciseId = JStr ''squat''\<rparr>"

definition scenario_state :: state where
  "scenario_state = \<lparr>baseData = scenario_doc, edits = [], sel = scenario_sel\<rparr>"

definition scenario_key :: string where
  "scenario_key = ''serie-1-2026|1|1|1|squat''"

definition scenario_patch :: jsval where
  "scenario_patch =
     JObj [(''videos'', JArr [JStr ''https://youtu.be/abc123'']),
           (''updatedAt'', JStr ''2026-01-01T00:00:00.000Z'')]"

definition scenario_patched :: state where
  "scenario_patched = scenario_state\<lparr>edits := [(scenario_key, scenario_patch)]\<rparr>"

text \<open>
  A collation for the scenarios: strings compared by their code units. The browser's
  \<open>localeCompare\<close> orders the names used here the same way.
\<close>

definition codeunit_le :: "string \<Rightarrow> string \<Rightarrow> bool" where
  "codeunit_le a b = (a \<le> b)"


text \<open>
  An overlay for Scenario D: the patch of Scenario B, and a patch for an exercise that the
  document does not have.
\<close>

definition scenario_orphan_key :: string where
  "scenario_orphan_key = ''serie-1-2026|1|1|2|bench''"

definition scenario_overlay :: jsobj where
  "scenario_overlay =
     [(scenario_key, scenario_patch),
      (scenario_orphan_key, JObj [(''work'', JStr ''3x8'')])]"
section \<open>Placeholder extension\<close>

text \<open>
  What the fallback selection may add to a document, in the words of its contract: a
  list of children that is empty may receive one default placeholder child (itself
  extended in the same way), and nothing else changes. \<open>ext_doc doc doc'\<close> holds when
  \<open>doc'\<close> is \<open>doc\<close> up to such placeholders.
\<close>

definition ext_exercises :: "exercise list \<Rightarrow> exercise list \<Rightarrow> bool" where
  "ext_exercises es es' = (if es = [] then es' = [] \<or> es' = [placeholder_exercise] else es' = es)"

definition ext_day :: "day \<Rightarrow> day \<Rightarrow> bool" where
  "ext_day d d' =
     (day_day d' = day_day d \<and> day_label d' = day_label d
      \<and> ext_exercises (day_exercises d) (day_exercises d'))"

definition ext_days :: "day list \<Rightarrow> day list \<Rightarrow> bool" where
  "ext_days ds ds' =
     (if ds = [] then (case ds' of [] \<Rightarrow> True | d' # rest \<Rightarrow> rest = [] \<and> ext_day placeholder_day d')
      else list_all2 ext_day ds ds')"

definition ext_week :: "week \<Rightarrow> week \<Rightarrow> bool" where
  "ext_week w w' = (week_week w' = week_week w \<and> ext_days (week_days w) (week_days w'))"

definition ext_weeks :: "week list \<Rightarrow> week list \<Rightarrow> bool" where
  "ext_weeks ws ws' =
     (if ws = [] then (case ws' of [] \<Rightarrow> True | w' # rest \<Rightarrow> rest = [] \<and> ext_week placeholder_week w')
      else list_all2 ext_week ws ws')"

definition ext_block :: "block \<Rightarrow> block \<Rightarrow> bool" where
  "ext_block b b' = (block_id b' = block_id b \<and> ext_weeks (block_weeks b) (block_weeks b'))"

definition ext_blocks :: "block list \<Rightarrow> block list \<Rightarrow> bool" where
  "ext_blocks bs bs' =
     (if bs = [] then (case bs' of [] \<Rightarrow> True | b' # rest \<Rightarrow> rest = [] \<and> ext_block placeholder_block b')
      else list_all2 ext_block bs bs')"

definition ext_period :: "period \<Rightarrow> period \<Rightarrow> bool" where
  "ext_period p p' =
     (period_id p' = period_id p \<and> period_name p' = period_name p
      \<and> ext_blocks (period_blocks p) (period_blocks p'))"

definition ext_periods :: "period list \<Rightarrow> period list \<Rightarrow> bool" where
  "ext_periods ps ps' =
     (if ps = [] then (case ps' of [] \<Rightarrow> True | p' # rest \<Rightarrow> rest = [] \<and> ext_period placeholder_period p')
      else list_all2 ext_period ps ps')"

definition ext_doc :: "document \<Rightarrow> document \<Rightarrow> bool" where
  "ext_doc doc doc' = ext_periods (periods doc) (periods doc')"

section \<open>The fallback rule\<close>

text \<open>
  The contract of the fallback selection, level by level: a component of the old
  selection is kept when every component above it was kept, it is truthy and it is found
  in the (extended) document; otherwise the component is the identifier of the first
  child. \<open>kept\<close> says whether the components above were kept; the predicates also say
  that the new selection resolves, each level having at least one child.
\<close>

definition fallback_exercise :: "bool \<Rightarrow> jsval \<Rightarrow> selection \<Rightarrow> day \<Rightarrow> bool" where
  "fallback_exercise kept oldE sl' d' =
     (day_exercises d' \<noteq> [] \<and> getExercise d' (sel_exerciseId sl') \<noteq> None
      \<and> sel_exerciseId sl' =
          (if kept \<and> truthy oldE \<and> getExercise d' oldE \<noteq> None then oldE
           else JStr (ex_id (hd (day_exercises d')))))"

definition fallback_day :: "bool \<Rightarrow> jsval \<Rightarrow> jsval \<Rightarrow> selection \<Rightarrow> week \<Rightarrow> bool" where
  "fallback_day kept oldD oldE sl' w' =
     (week_days w' \<noteq> []
      \<and> (let keep = (kept \<and> truthy oldD \<and> getDay w' oldD \<noteq> None) in
           sel_day sl' = (if keep then oldD else JNum (day_day (hd (week_days w'))))
           \<and> (case getDay w' (sel_day sl') of
                 None \<Rightarrow> False
               | Some d' \<Rightarrow> fallback_exercise keep oldE sl' d')))"

definition fallback_week ::
  "bool \<Rightarrow> jsval \<Rightarrow> jsval \<Rightarrow> jsval \<Rightarrow> selection \<Rightarrow> block \<Rightarrow> bool" where
  "fallback_week kept oldW oldD oldE sl' b' =
     (block_weeks b' \<noteq> []
      \<and> (let keep = (kept \<and> truthy oldW \<and> getWeek b' oldW \<noteq> None) in
           sel_week sl' = (if keep then oldW else JNum (week_week (hd (block_weeks b'))))
           \<and> (case getWeek b' (sel_week sl') of
                 None \<Rightarrow> False
               | Some w' \<Rightarrow> fallback_day keep oldD oldE sl' w')))"

definition fallback_block ::
  "bool \<Rightarrow> jsval \<Rightarrow> jsval \<Rightarrow> jsval \<Rightarrow> jsval \<Rightarrow> selection \<Rightarrow> period \<Rightarrow> bool" where
  "fallback_block kept oldB oldW oldD oldE sl' p' =
     (period_blocks p' \<noteq> []
      \<and> (let keep = (kept \<and> truthy oldB \<and> getBlock p' oldB \<noteq> None) in
           sel_blockId sl' = (if keep then oldB else JNum (block_id (hd (period_blocks p'))))
           \<and> (case getBlock p' (sel_blockId sl') of
                 None \<Rightarrow> False
               | Some b' \<Rightarrow> fallback_week keep oldW oldD oldE sl' b')))"

definition fallback_selection :: "selection \<Rightarrow> selection \<Rightarrow> document \<Rightarrow> bool" where
  "fallback_selection sl sl' doc' =
     (periods doc' \<noteq> []
      \<and> (let keep = (truthy (sel_periodId sl) \<and> getPeriod doc' (sel_periodId sl) \<noteq> None) in
           sel_periodId sl' =
             (if keep then sel_periodId sl else JStr (period_id (hd (periods doc'))))
           \<and> (case getPeriod doc' (sel_periodId sl') of
                 None \<Rightarrow> False
               | Some p' \<Rightarrow>
                   fallback_block keep (sel_blockId sl) (sel_week sl) (sel_day sl)
                     (sel_exerciseId sl) sl' p')))"


section \<open>Change at one node\<close>






section \<open>The merge of the specification\<close>

text \<open>
  Modelled from the spec's words, for the comparison with \<open>mergeBaseWithEdits\<close>: the
  specified merge copies the document and then, for every entry key of the overlay,
  decodes the key, resolves the locator in the copy by the hierarchy accessors and, if it
  is found, overwrites the fields of that exercise by the field-level override rule; a
  key that does not resolve is skipped.
\<close>

definition inExercise :: "jsval \<Rightarrow> (exercise \<Rightarrow> exercise) \<Rightarrow> day \<Rightarrow> day" where
  "inExercise exerciseId f d =
     d\<lparr>day_exercises := modify_first (isExercise exerciseId) f (day_exercises d)\<rparr>"

definition specApplyKey :: "jsobj \<Rightarrow> string \<Rightarrow> document \<Rightarrow> document" where
  "specApplyKey overlay k out =
     (case decodeKey k of
        (periodId, blockId, week, day, exerciseId) \<Rightarrow>
          (case lookup_chain out periodId blockId week day exerciseId of
             None \<Rightarrow> out
           | Some found \<Rightarrow>
               inPeriod periodId
                 (inBlock blockId
                    (inWeek week
                       (inDay day
                          (inExercise exerciseId (patchExercise (obj_get overlay k))))))
                 out))"

definition mergeOverlayIntoBase :: "document \<Rightarrow> jsobj \<Rightarrow> document" where
  "mergeOverlayIntoBase doc overlay =
     foldl (\<lambda>out k. specApplyKey overlay k out) (deep_clone doc) (map fst overlay)"

text \<open>
  The invariants of the data model: identifiers are unique among siblings, and the
  numbers of blocks, weeks and days are integers (safe integers, where the decimal text
  of the model is that of JavaScript).
\<close>

definition safe_int_number :: "rat \<Rightarrow> bool" where
  "safe_int_number r = (of_int \<lfloor>r\<rfloor> = r \<and> safe_integer \<lfloor>r\<rfloor>)"

definition unique_ids :: "document \<Rightarrow> bool" where
  "unique_ids doc =
     (distinct (map period_id (periods doc))
      \<and> (\<forall>p\<in>set (periods doc).
           distinct (map block_id (period_blocks p))
           \<and> (\<forall>b\<in>set (period_blocks p).
                distinct (map week_week (block_weeks b))
                \<and> (\<forall>w\<in>set (block_weeks b).
                     distinct (map day_day (week_days w))
                     \<and> (\<forall>d\<in>set (week_days w). distinct (map ex_id (day_exercises d)))))))"

definition integer_ids :: "document \<Rightarrow> bool" where
  "integer_ids doc =
     (\<forall>p\<in>set (periods doc).
        \<forall>b\<in>set (period_blocks p).
          safe_int_number (block_id b)
          \<and> (\<forall>w\<in>set (block_weeks b).
               safe_int_number (week_week w)
               \<and> (\<forall>d\<in>set (week_days w). safe_int_number (day_day d))))"

text \<open>An entry key that is the encoding of a locator.\<close>

definition locator_key :: "string \<Rightarrow> bool" where
  "locator_key k =
     (\<exists>p b w d e.
        CHR ''|'' \<notin> set p \<and> CHR ''|'' \<notin> set e
        \<and> safe_integer b \<and> safe_integer w \<and> safe_integer d
        \<and> k = entryKey (JStr p) (JNum (of_int b)) (JNum (of_int w)) (JNum (of_int d)) (JStr e))"

text \<open>
  A function applied to every exercise of a document, given the identifiers on the path
  to the exercise: the form in which the two merges are compared.
\<close>

definition map_day :: "(rat \<Rightarrow> exercise \<Rightarrow> exercise) \<Rightarrow> day \<Rightarrow> day" where
  "map_day F d = d\<lparr>day_exercises := map (F (day_day d)) (day_exercises d)\<rparr>"

definition map_week :: "(rat \<Rightarrow> rat \<Rightarrow> exercise \<Rightarrow> exercise) \<Rightarrow> week \<Rightarrow> week" where
  "map_week F w = w\<lparr>week_days := map (map_day (F (week_week w))) (week_days w)\<rparr>"

definition map_block :: "(rat \<Rightarrow> rat \<Rightarrow> rat \<Rightarrow> exercise \<Rightarrow> exercise) \<Rightarrow> block \<Rightarrow> block" where
  "map_block F b = b\<lparr>block_weeks := map (map_week (F (block_id b))) (block_weeks b)\<rparr>"

definition map_period ::
  "(string \<Rightarrow> rat \<Rightarrow> rat \<Rightarrow> rat \<Rightarrow> exercise \<Rightarrow> exercise) \<Rightarrow> period \<Rightarrow> period" where
  "map_period F p = p\<lparr>period_blocks := map (map_block (F (period_id p))) (period_blocks p)\<rparr>"

definition map_exercises ::
  "(string \<Rightarrow> rat \<Rightarrow> rat \<Rightarrow> rat \<Rightarrow> exercise \<Rightarrow> exercise) \<Rightarrow> document \<Rightarrow> document" where
  "map_exercises F doc = doc\<lparr>periods := map (map_period F) (periods doc)\<rparr>"
section \<open>Objects\<close>

lemma obj_get_obj_set: "obj_get (obj_set k v kvs) k' = (if k' = k then v else obj_get kvs k')"
  by (simp add: obj_get_def obj_set_def update_conv')

lemma map_of_obj_set: "map_of (obj_set k v kvs) = (map_of kvs)(k \<mapsto> v)"
  by (simp add: obj_set_def update_conv')

lemma map_of_obj_delete: "map_of (obj_delete k kvs) = (map_of kvs)(k := None)"
  by (simp add: obj_delete_def delete_conv')

lemma obj_get_obj_delete:
  "obj_get (obj_delete k kvs) k' = (if k' = k then JUndefined else obj_get kvs k')"
  by (simp add: obj_get_def map_of_obj_delete)

lemma js_get_falsy: "js_not p \<Longrightarrow> js_get p k = JUndefined"
  by (cases p) (simp_all add: js_not_def)

lemma map_of_spread:
  "distinct (map fst src) \<Longrightarrow> map_of (spread target src) = map_of target ++ map_of src"
proof (induction src arbitrary: target)
  case Nil
  then show ?case by (simp add: spread_def)
next
  case (Cons kv src)
  have step: "spread target (kv # src) = spread (obj_set (fst kv) (snd kv) target) src"
    by (simp add: spread_def)
  from Cons.prems have notin: "fst kv \<notin> fst ` set src" and d: "distinct (map fst src)"
    by auto
  from notin have none: "map_of src (fst kv) = None"
    by (simp add: map_of_eq_None_iff)
  have "map_of (spread target (kv # src))
          = map_of (obj_set (fst kv) (snd kv) target) ++ map_of src"
    using Cons.IH [OF d] step by simp
  also have "\<dots> = map_of target ++ map_of (kv # src)"
    using none
    by (cases kv) (auto simp: map_of_obj_set map_add_def fun_eq_iff split: option.splits)
  finally show ?case .
qed

lemma own_props_js_or: "own_props (js_or v (JObj [])) = own_props v"
  by (cases v) (auto simp: js_or_def indexed_def)

section \<open>Patch application\<close>

text \<open>
  C5. For each of the five overlayable fields the patched entry carries the patch's value
  when the patch supplies the field with the expected shape (a string for the text
  fields and \<open>updatedAt\<close>, an array for \<open>videos\<close>) and the base value otherwise. The
  \<open>videos\<close> value of the patch replaces the base sequence as a whole; a field of the
  wrong shape is ignored.
\<close>

theorem applyPatchToEntry_fields:
  "obj_get (applyPatchToEntry entry patch) ''work'' =
     (if is_string (js_get patch ''work'') then js_get patch ''work'' else obj_get entry ''work'')
   \<and> obj_get (applyPatchToEntry entry patch) ''videos'' =
     (if is_array (js_get patch ''videos'') then js_get patch ''videos'' else obj_get entry ''videos'')
   \<and> obj_get (applyPatchToEntry entry patch) ''lifterComment'' =
     (if is_string (js_get patch ''lifterComment'') then js_get patch ''lifterComment''
      else obj_get entry ''lifterComment'')
   \<and> obj_get (applyPatchToEntry entry patch) ''coachComment'' =
     (if is_string (js_get patch ''coachComment'') then js_get patch ''coachComment''
      else obj_get entry ''coachComment'')
   \<and> obj_get (applyPatchToEntry entry patch) ''updatedAt'' =
     (if is_string (js_get patch ''updatedAt'') then js_get patch ''updatedAt''
      else obj_get entry ''updatedAt'')"
proof (cases "js_not patch")
  case True
  then show ?thesis
    by (simp add: applyPatchToEntry_def js_get_falsy)
next
  case False
  then show ?thesis
    by (simp add: applyPatchToEntry_def Let_def obj_get_obj_set)
qed

text \<open>
  C10. Whatever the patch holds, also fields beyond the five, a property of the entry
  other than \<open>work\<close>, \<open>videos\<close>, \<open>lifterComment\<close>, \<open>coachComment\<close> and \<open>updatedAt\<close>
  is the same after patch application: present with the same value, or absent as before.
  This covers the identity and ancestor-context fields of a resolved entry
  (\<open>periodId\<close>, \<open>periodName\<close>, \<open>blockId\<close>, \<open>week\<close>, \<open>day\<close>, \<open>exerciseId\<close>,
  \<open>exerciseName\<close>).
\<close>

theorem applyPatchToEntry_frame:
  "k \<notin> set overlay_fields \<Longrightarrow> map_of (applyPatchToEntry entry patch) k = map_of entry k"
  by (simp add: applyPatchToEntry_def Let_def overlay_fields_def map_of_obj_set)

theorem applyPatchToEntry_frame_witness:
  "''periodId'' \<notin> set overlay_fields
   \<and> map_of (applyPatchToEntry [(''periodId'', JStr ''serie-1-2026''), (''work'', JStr ''5x5'')]
        (JObj [(''periodId'', JStr ''other''), (''work'', JStr ''3x3'')])) ''periodId''
     = Some (JStr ''serie-1-2026'')"
proof -
  have h: "''periodId'' \<notin> set overlay_fields"
    by (simp add: overlay_fields_def)
  show ?thesis
    using h applyPatchToEntry_frame [OF h,
      of "[(''periodId'', JStr ''serie-1-2026''), (''work'', JStr ''5x5'')]"
         "JObj [(''periodId'', JStr ''other''), (''work'', JStr ''3x3'')]"]
    by simp
qed

section \<open>Saving a patch\<close>

text \<open>
  C6. After \<open>saveEntryPatch\<close> the patch stored under the key of the selection is the
  previous patch overridden by the partial record: a field of the partial record has the
  partial record's value, any other field keeps the value of the previous patch (or stays
  absent), and \<open>updatedAt\<close> is the time of the write in every case. Reading the key
  right after the write returns this patch. The property names of an object are
  distinct.
\<close>

theorem saveEntryPatch_upsert:
  assumes "distinct (map fst partialPatch)"
    and "distinct (map fst (own_props (obj_get (edits s)
           (entryKey (sel_periodId (sel s)) (sel_blockId (sel s)) (sel_week (sel s))
              (sel_day (sel s)) (sel_exerciseId (sel s))))))"
  shows "\<exists>next.
           obj_get (edits (saveEntryPatch partialPatch now s))
             (entryKey (sel_periodId (sel s)) (sel_blockId (sel s)) (sel_week (sel s))
                (sel_day (sel s)) (sel_exerciseId (sel s))) = JObj next
         \<and> map_of next =
             (map_of (own_props (obj_get (edits s)
                (entryKey (sel_periodId (sel s)) (sel_blockId (sel s)) (sel_week (sel s))
                   (sel_day (sel s)) (sel_exerciseId (sel s)))))
              ++ map_of partialPatch)(''updatedAt'' \<mapsto> JStr now)"
  using assms
  by (simp add: saveEntryPatch_def Let_def obj_get_obj_set map_of_obj_set map_of_spread
      own_props_js_or)

theorem saveEntryPatch_upsert_witness:
  "distinct (map fst [(''work'', JStr ''3x3'')])
   \<and> distinct (map fst (own_props (obj_get (edits scenario_patched)
        (entryKey (sel_periodId (sel scenario_patched)) (sel_blockId (sel scenario_patched))
           (sel_week (sel scenario_patched)) (sel_day (sel scenario_patched))
           (sel_exerciseId (sel scenario_patched))))))
   \<and> (\<exists>next.
         obj_get (edits (saveEntryPatch [(''work'', JStr ''3x3'')] ''2026-02-02'' scenario_patched))
           scenario_key = JObj next
       \<and> map_of next ''work'' = Some (JStr ''3x3'')
       \<and> map_of next ''videos'' = Some (JArr [JStr ''https://youtu.be/abc123''])
       \<and> map_of next ''updatedAt'' = Some (JStr ''2026-02-02''))"
proof -
  have key: "entryKey (sel_periodId (sel scenario_patched)) (sel_blockId (sel scenario_patched))
      (sel_week (sel scenario_patched)) (sel_day (sel scenario_patched))
      (sel_exerciseId (sel scenario_patched)) = scenario_key"
    by code_simp
  have prev: "own_props (obj_get (edits scenario_patched) scenario_key)
      = [(''videos'', JArr [JStr ''https://youtu.be/abc123'']),
         (''updatedAt'', JStr ''2026-01-01T00:00:00.000Z'')]"
    by code_simp
  have h1: "distinct (map fst [(''work'', JStr ''3x3'')])"
    by simp
  have h2: "distinct (map fst (own_props (obj_get (edits scenario_patched)
        (entryKey (sel_periodId (sel scenario_patched)) (sel_blockId (sel scenario_patched))
           (sel_week (sel scenario_patched)) (sel_day (sel scenario_patched))
           (sel_exerciseId (sel scenario_patched))))))"
    by (simp add: key prev)
  from saveEntryPatch_upsert [OF h1 h2, of "''2026-02-02''"]
  obtain "next" where
    n1: "obj_get (edits (saveEntryPatch [(''work'', JStr ''3x3'')] ''2026-02-02'' scenario_patched))
           scenario_key = JObj next"
    and n2: "map_of next =
       (map_of (own_props (obj_get (edits scenario_patched) scenario_key))
        ++ map_of [(''work'', JStr ''3x3'')])(''updatedAt'' \<mapsto> JStr ''2026-02-02'')"
    unfolding key by blast
  have "map_of next ''work'' = Some (JStr ''3x3'')"
    and "map_of next ''videos'' = Some (JArr [JStr ''https://youtu.be/abc123''])"
    and "map_of next ''updatedAt'' = Some (JStr ''2026-02-02'')"
    by (simp_all add: n2 prev)
  with n1 h1 h2 show ?thesis
    by blast
qed

section \<open>Decimal text\<close>

lemma split_on_nosep: "c \<notin> set xs \<Longrightarrow> split_on c xs = [xs]"
  by (induction xs) auto

lemma split_on_append: "c \<notin> set xs \<Longrightarrow> split_on c (xs @ c # ys) = xs # split_on c ys"
  by (induction xs) auto

lemma split_on_nonempty: "split_on c xs \<noteq> []"
  by (induction xs) (auto split: list.splits)

lemma split_join:
  "xs \<noteq> [] \<Longrightarrow> (\<forall>x\<in>set xs. c \<notin> set x) \<Longrightarrow> split_on c (join_strings [c] xs) = xs"
proof (induction "[c]" xs rule: join_strings.induct)
  case 1
  then show ?case by simp
next
  case (2 x)
  then show ?case by (simp add: split_on_nosep)
next
  case (3 x y ys)
  then show ?case by (simp add: split_on_append)
qed

lemma lt10_cases: "d < 10 \<Longrightarrow> d \<in> {0, 1, 2, 3, 4, 5, 6, 7, 8, 9::nat}"
  by auto

lemma is_digit_digit_char: "d < 10 \<Longrightarrow> is_digit (digit_char d)"
  using lt10_cases [of d] by (auto simp: digit_char_def is_digit_def)

lemma digit_val_digit_char: "d < 10 \<Longrightarrow> digit_val (digit_char d) = d"
  using lt10_cases [of d] by (auto simp: digit_char_def digit_val_def)

lemma nat_digits_all_digits: "list_all is_digit (nat_digits n)"
proof (induction n rule: nat_digits.induct)
  case (1 n)
  show ?case
  proof (cases "n < 10")
    case True
    then show ?thesis
      by (subst nat_digits.simps) (simp add: is_digit_digit_char)
  next
    case False
    then show ?thesis
      using 1 [OF False] by (subst nat_digits.simps) (simp add: is_digit_digit_char)
  qed
qed

lemma nat_digits_nonempty: "nat_digits n \<noteq> []"
  by (subst nat_digits.simps) simp

lemma digits_value_snoc:
  "digits_value base (ds @ [c]) = base * digits_value base ds + digit_val c"
  by (simp add: digits_value_def)

lemma digits_value_nat_digits: "digits_value 10 (nat_digits n) = n"
proof (induction n rule: nat_digits.induct)
  case (1 n)
  show ?case
  proof (cases "n < 10")
    case True
    then show ?thesis
      by (subst nat_digits.simps) (simp add: digits_value_def digit_val_digit_char)
  next
    case False
    have "digits_value 10 (nat_digits n)
            = 10 * digits_value 10 (nat_digits (n div 10)) + digit_val (digit_char (n mod 10))"
      using False by (subst nat_digits.simps) (simp add: digits_value_snoc)
    also have "\<dots> = 10 * (n div 10) + n mod 10"
      using 1 [OF False] by (simp add: digit_val_digit_char)
    finally show ?thesis by simp
  qed
qed

lemma int_text_chars: "list_all is_int_char (int_text i)"
proof -
  have "list_all is_int_char (nat_digits n)" for n
    using nat_digits_all_digits [of n] by (simp add: list_all_iff is_int_char_def)
  then show ?thesis
    by (simp add: int_text_def is_int_char_def)
qed

lemma int_text_char: "c \<in> set (int_text i) \<Longrightarrow> is_int_char c"
  using int_text_chars [of i] by (simp add: list_all_iff)

lemma int_text_nonempty: "int_text i \<noteq> []"
  by (simp add: int_text_def nat_digits_nonempty)

lemma num_text_of_int: "num_text (of_int i) = int_text i"
proof -
  have a: "\<bar>rat_of_int i\<bar> = of_int \<bar>i\<bar>" by simp
  have "num_text (of_int i)
          = (if i < 0 then ''-'' else '''') @ nat_digits (nat \<bar>i\<bar>)"
    unfolding num_text_def Let_def a floor_of_int by simp
  also have "\<dots> = int_text i"
    by (simp add: int_text_def)
  finally show ?thesis .
qed


lemma parse_unsigned_nat_digits:
  "parse_unsigned_decimal (nat_digits n) = Some (of_nat n)"
proof -
  have all: "\<forall>c\<in>set (nat_digits n). is_digit c"
    using nat_digits_all_digits [of n] by (simp add: list_all_iff)
  have t: "takeWhile is_digit (nat_digits n) = nat_digits n"
    using all by (simp add: takeWhile_eq_all_conv)
  have d: "dropWhile is_digit (nat_digits n) = []"
    using all by simp
  show ?thesis
    by (simp add: parse_unsigned_decimal_def Let_def t d nat_digits_nonempty
        parse_exponent_def scale10_def digits_value_nat_digits digits_value_def[of _ "[]"])
qed

lemma js_trim_id: "\<forall>c\<in>set s. \<not> is_ws c \<Longrightarrow> js_trim s = s"
proof -
  assume a: "\<forall>c\<in>set s. \<not> is_ws c"
  have 1: "dropWhile is_ws s = s"
    using a by (cases s) auto
  have "\<forall>c\<in>set (rev s). \<not> is_ws c"
    using a by simp
  then have 2: "dropWhile is_ws (rev s) = rev s"
    by (cases "rev s") auto
  show ?thesis by (simp add: js_trim_def 1 2)
qed

lemma is_int_char_not_ws: "is_int_char c \<Longrightarrow> \<not> is_ws c"
  by (auto simp: is_int_char_def is_digit_def is_ws_def)

lemma js_trim_int_text: "js_trim (int_text i) = int_text i"
  by (rule js_trim_id) (auto dest: int_text_char is_int_char_not_ws)


lemma take2_snd_in: "take 2 t = [a, b] \<Longrightarrow> b \<in> set t"
  by (cases t; cases "tl t") auto

lemma int_text_no_radix_char:
  assumes "\<not> is_int_char b"
  shows "take 2 (int_text i) \<noteq> [a, b]"
proof
  assume "take 2 (int_text i) = [a, b]"
  then have "b \<in> set (int_text i)" by (rule take2_snd_in)
  then have "is_int_char b" by (rule int_text_char)
  with assms show False by simp
qed

lemma int_text_no_radix:
  "take 2 (int_text i) \<noteq> ''0x''" "take 2 (int_text i) \<noteq> ''0X''"
  "take 2 (int_text i) \<noteq> ''0o''" "take 2 (int_text i) \<noteq> ''0O''"
  "take 2 (int_text i) \<noteq> ''0b''" "take 2 (int_text i) \<noteq> ''0B''"
  by (rule int_text_no_radix_char, simp add: is_int_char_def is_digit_def)+

lemma hd_nat_digits: "is_digit (hd (nat_digits n))"
  using nat_digits_all_digits [of n] nat_digits_nonempty [of n]
  by (cases "nat_digits n") auto

lemma parse_decimal_int_text: "parse_decimal (int_text i) = Some (of_int i)"
proof (cases "i < 0")
  case True
  then show ?thesis
    by (simp add: parse_decimal_def int_text_def parse_unsigned_nat_digits)
next
  case False
  have "hd (nat_digits (nat i)) \<noteq> CHR ''-''" "hd (nat_digits (nat i)) \<noteq> CHR ''+''"
    using hd_nat_digits [of "nat i"] by (auto simp: is_digit_def)
  with False show ?thesis
    by (simp add: parse_decimal_def int_text_def parse_unsigned_nat_digits)
qed

lemma string_to_number_int_text: "string_to_number (int_text i) = Some (of_int i)"
  by (simp add: string_to_number_def Let_def js_trim_int_text int_text_nonempty
      int_text_no_radix parse_decimal_int_text)

lemma int_text_inj: "int_text i = int_text j \<Longrightarrow> i = j"
proof -
  assume "int_text i = int_text j"
  then have "string_to_number (int_text i) = string_to_number (int_text j)" by simp
  then show "i = j" by (simp add: string_to_number_int_text)
qed

lemma bar_not_in_int_text: "CHR ''|'' \<notin> set (int_text i)"
proof
  assume "CHR ''|'' \<in> set (int_text i)"
  then have "is_int_char CHR ''|''" by (rule int_text_char)
  then show False by (simp add: is_int_char_def is_digit_def)
qed

section \<open>Entry keys\<close>

lemma split_on_append_sep: "split_on c (xs @ c # ys) = split_on c xs @ split_on c ys"
  by (induction xs) (auto split: list.splits simp: split_on_nonempty)

lemma elem_text_simps:
  "elem_text (JStr s) = s" "elem_text (JNum (of_int i)) = int_text i"
  by (simp_all add: elem_text_def num_text_of_int)

lemma entryKey_typed:
  "entryKey (JStr p) (JNum (of_int b)) (JNum (of_int w)) (JNum (of_int d)) (JStr e)
     = join_strings ''|'' [p, int_text b, int_text w, int_text d, e]"
  by (simp add: entryKey_def js_join_def elem_text_simps)

lemma split_entryKey_typed:
  assumes "CHR ''|'' \<notin> set p" and "CHR ''|'' \<notin> set e"
  shows "split_on CHR ''|''
           (entryKey (JStr p) (JNum (of_int b)) (JNum (of_int w)) (JNum (of_int d)) (JStr e))
         = [p, int_text b, int_text w, int_text d, e]"
  unfolding entryKey_typed
  by (rule split_join) (simp_all add: assms bar_not_in_int_text)

lemma decodeKey_segments:
  "split_on CHR ''|'' k = a # b # c # d # e # rest
     \<Longrightarrow> decodeKey k = (JStr a, JStr b, JStr c, JStr d, JStr e)"
  by (simp add: decodeKey_def destructure_def)

lemma decodeKey_join:
  assumes "xs \<noteq> []" and "\<forall>x\<in>set xs. CHR ''|'' \<notin> set x"
  shows "decodeKey (join_strings ''|'' xs) =
           (if 0 < length xs then JStr (xs ! 0) else JUndefined,
            if 1 < length xs then JStr (xs ! 1) else JUndefined,
            if 2 < length xs then JStr (xs ! 2) else JUndefined,
            if 3 < length xs then JStr (xs ! 3) else JUndefined,
            if 4 < length xs then JStr (xs ! 4) else JUndefined)"
  unfolding decodeKey_def Let_def destructure_def split_join [OF assms] ..

lemma getExercise_undefined: "getExercise dy JUndefined = None"
  by (simp add: getExercise_def find_None_iff isExercise_def strict_eq_def)

lemma short_key_never_resolves:
  assumes "length (split_on CHR ''|'' k) < 5"
  shows "resolveKey doc ed k = None"
proof -
  have "destructure (split_on CHR ''|'' k) 4 = JUndefined"
    using assms by (simp add: destructure_def)
  then show ?thesis
    by (simp add: resolveKey_def decodeKey_def Let_def getPatchedEntry_def getExercise_undefined
        split: option.splits)
qed

text \<open>
  C4 (amended). For a locator whose slugs do not contain \<open>|\<close> and whose numbers are
  safe integers, splitting the entry key on \<open>|\<close> gives back the five components, the
  numbers as their decimal text; two such locators with the same key are equal; the key
  is the same whether block, week and day are given as numbers or as their decimal text.
  Decoding checks no segment count. A key that continues after the fifth segment is not
  rejected: it decodes like the key itself. Of any key the decoding takes the segments in
  order and gives \<open>undefined\<close> for each of the five that is missing; a key with fewer
  than five segments never resolves to an entry.
\<close>

theorem entryKey_codec:
  assumes "CHR ''|'' \<notin> set p" and "CHR ''|'' \<notin> set e"
    and "safe_integer b" and "safe_integer w" and "safe_integer d"
  shows "decodeKey (entryKey (JStr p) (JNum (of_int b)) (JNum (of_int w)) (JNum (of_int d)) (JStr e))
           = (JStr p, JStr (int_text b), JStr (int_text w), JStr (int_text d), JStr e)
       \<and> (\<forall>p' b' w' d' e'.
             CHR ''|'' \<notin> set p' \<longrightarrow> CHR ''|'' \<notin> set e' \<longrightarrow>
             safe_integer b' \<longrightarrow> safe_integer w' \<longrightarrow> safe_integer d' \<longrightarrow>
             entryKey (JStr p) (JNum (of_int b)) (JNum (of_int w)) (JNum (of_int d)) (JStr e)
               = entryKey (JStr p') (JNum (of_int b')) (JNum (of_int w')) (JNum (of_int d')) (JStr e')
             \<longrightarrow> p = p' \<and> b = b' \<and> w = w' \<and> d = d' \<and> e = e')
       \<and> (\<forall>rb rw rd.
             rb \<in> {JNum (of_int b), JStr (int_text b)} \<longrightarrow>
             rw \<in> {JNum (of_int w), JStr (int_text w)} \<longrightarrow>
             rd \<in> {JNum (of_int d), JStr (int_text d)} \<longrightarrow>
             entryKey (JStr p) rb rw rd (JStr e)
               = entryKey (JStr p) (JNum (of_int b)) (JNum (of_int w)) (JNum (of_int d)) (JStr e))
       \<and> (\<forall>extra.
             decodeKey (entryKey (JStr p) (JNum (of_int b)) (JNum (of_int w)) (JNum (of_int d))
                          (JStr e) @ CHR ''|'' # extra)
               = (JStr p, JStr (int_text b), JStr (int_text w), JStr (int_text d), JStr e))
       \<and> (\<forall>xs. xs \<noteq> [] \<longrightarrow> (\<forall>x\<in>set xs. CHR ''|'' \<notin> set x) \<longrightarrow>
             decodeKey (join_strings ''|'' xs) =
               (if 0 < length xs then JStr (xs ! 0) else JUndefined,
                if 1 < length xs then JStr (xs ! 1) else JUndefined,
                if 2 < length xs then JStr (xs ! 2) else JUndefined,
                if 3 < length xs then JStr (xs ! 3) else JUndefined,
                if 4 < length xs then JStr (xs ! 4) else JUndefined))
       \<and> (\<forall>k (doc :: document) (ed :: jsobj).
             length (split_on CHR ''|'' k) < 5 \<longrightarrow> resolveKey doc ed k = None)"
proof (intro conjI allI impI)
  show "decodeKey (entryKey (JStr p) (JNum (of_int b)) (JNum (of_int w)) (JNum (of_int d)) (JStr e))
           = (JStr p, JStr (int_text b), JStr (int_text w), JStr (int_text d), JStr e)"
    by (rule decodeKey_segments) (rule split_entryKey_typed [OF assms(1,2)])
next
  fix p' b' w' d' e'
  assume p': "CHR ''|'' \<notin> set p'" and e': "CHR ''|'' \<notin> set e'"
    and eq: "entryKey (JStr p) (JNum (of_int b)) (JNum (of_int w)) (JNum (of_int d)) (JStr e)
               = entryKey (JStr p') (JNum (of_int b')) (JNum (of_int w')) (JNum (of_int d')) (JStr e')"
  have "[p, int_text b, int_text w, int_text d, e] = [p', int_text b', int_text w', int_text d', e']"
    using split_entryKey_typed [OF assms(1,2), of b w d]
      split_entryKey_typed [OF p' e', of b' w' d'] eq
    by simp
  then show "p = p'" "b = b'" "w = w'" "d = d'" "e = e'"
    by (auto dest: int_text_inj)
next
  fix rb rw rd
  assume "rb \<in> {JNum (of_int b), JStr (int_text b)}"
    "rw \<in> {JNum (of_int w), JStr (int_text w)}"
    "rd \<in> {JNum (of_int d), JStr (int_text d)}"
  then have "elem_text rb = int_text b" "elem_text rw = int_text w" "elem_text rd = int_text d"
    by (auto simp: elem_text_simps)
  then show "entryKey (JStr p) rb rw rd (JStr e)
               = entryKey (JStr p) (JNum (of_int b)) (JNum (of_int w)) (JNum (of_int d)) (JStr e)"
    by (simp add: entryKey_def js_join_def elem_text_simps)
next
  fix extra
  have "split_on CHR ''|''
          (entryKey (JStr p) (JNum (of_int b)) (JNum (of_int w)) (JNum (of_int d)) (JStr e)
           @ CHR ''|'' # extra)
        = [p, int_text b, int_text w, int_text d, e] @ split_on CHR ''|'' extra"
    by (simp only: split_on_append_sep split_entryKey_typed [OF assms(1,2)])
  then show "decodeKey (entryKey (JStr p) (JNum (of_int b)) (JNum (of_int w)) (JNum (of_int d))
                          (JStr e) @ CHR ''|'' # extra)
               = (JStr p, JStr (int_text b), JStr (int_text w), JStr (int_text d), JStr e)"
    by (intro decodeKey_segments) simp
next
  fix xs :: "string list"
  assume "xs \<noteq> []" and "\<forall>x\<in>set xs. CHR ''|'' \<notin> set x"
  then show "decodeKey (join_strings ''|'' xs) =
               (if 0 < length xs then JStr (xs ! 0) else JUndefined,
                if 1 < length xs then JStr (xs ! 1) else JUndefined,
                if 2 < length xs then JStr (xs ! 2) else JUndefined,
                if 3 < length xs then JStr (xs ! 3) else JUndefined,
                if 4 < length xs then JStr (xs ! 4) else JUndefined)"
    by (rule decodeKey_join)
next
  fix k and doc :: document and ed :: jsobj
  assume "length (split_on CHR ''|'' k) < 5"
  then show "resolveKey doc ed k = None"
    by (rule short_key_never_resolves)
qed

theorem entryKey_codec_witness:
  "CHR ''|'' \<notin> set ''serie-1-2026'' \<and> CHR ''|'' \<notin> set ''squat'' \<and> safe_integer 1
   \<and> decodeKey scenario_key = (JStr ''serie-1-2026'', JStr ''1'', JStr ''1'', JStr ''1'', JStr ''squat'')
   \<and> entryKey (JStr ''serie-1-2026'') (JStr ''1'') (JNum 1) (JStr ''1'') (JStr ''squat'') = scenario_key
   \<and> decodeKey ''serie-1-2026|1|1''
       = (JStr ''serie-1-2026'', JStr ''1'', JStr ''1'', JUndefined, JUndefined)
   \<and> length (split_on CHR ''|'' ''serie-1-2026|1|1'') < 5
   \<and> resolveKey scenario_doc [] ''serie-1-2026|1|1'' = None"
proof -
  have h1: "CHR ''|'' \<notin> set ''serie-1-2026''" and h2: "CHR ''|'' \<notin> set ''squat''"
    by simp_all
  have h3: "safe_integer 1"
    by (simp add: safe_integer_def)
  have key: "entryKey (JStr ''serie-1-2026'') (JNum (of_int 1)) (JNum (of_int 1)) (JNum (of_int 1))
      (JStr ''squat'') = scenario_key"
    by code_simp
  have one: "int_text 1 = ''1''"
    by code_simp
  note t = entryKey_codec [OF h1 h2 h3 h3 h3]
  have a: "decodeKey scenario_key
             = (JStr ''serie-1-2026'', JStr ''1'', JStr ''1'', JStr ''1'', JStr ''squat'')"
    using t [THEN conjunct1] unfolding key one .
  have b: "entryKey (JStr ''serie-1-2026'') (JStr ''1'') (JNum 1) (JStr ''1'') (JStr ''squat'')
             = scenario_key"
    using t [THEN conjunct2, THEN conjunct2, THEN conjunct1, rule_format,
        of "JStr ''1''" "JNum 1" "JStr ''1''"]
    unfolding key one by simp
  have parts: "[''serie-1-2026'', ''1'', ''1''] \<noteq> []"
    "\<forall>x\<in>set [''serie-1-2026'', ''1'', ''1'']. CHR ''|'' \<notin> set x"
    by simp_all
  have c: "decodeKey ''serie-1-2026|1|1''
             = (JStr ''serie-1-2026'', JStr ''1'', JStr ''1'', JUndefined, JUndefined)"
    using t [THEN conjunct2, THEN conjunct2, THEN conjunct2, THEN conjunct2, THEN conjunct1,
        rule_format, OF parts(1) parts(2) [rule_format]]
    by simp
  have short: "length (split_on CHR ''|'' ''serie-1-2026|1|1'') < 5"
    by code_simp
  have d: "resolveKey scenario_doc [] ''serie-1-2026|1|1'' = None"
    using t [THEN conjunct2, THEN conjunct2, THEN conjunct2, THEN conjunct2, THEN conjunct2,
        rule_format, OF short] .
  from h1 h2 h3 a b c short d show ?thesis
    by blast
qed

text \<open>
  The claim that decoding fails on every key that does not have exactly five segments is
  false for a longer key: the key below has six segments, decodes to five strings and
  resolves to the entry of Scenario A.
\<close>

theorem decodeKey_extra_segment:
  "length (split_on CHR ''|'' ''serie-1-2026|1|1|1|squat|zzz'') = 6
   \<and> decodeKey ''serie-1-2026|1|1|1|squat|zzz''
       = (JStr ''serie-1-2026'', JStr ''1'', JStr ''1'', JStr ''1'', JStr ''squat'')
   \<and> resolveKey scenario_doc [] ''serie-1-2026|1|1|1|squat|zzz''
       = getPatchedEntry scenario_doc [] (JStr ''serie-1-2026'') (JNum 1) (JNum 1) (JNum 1)
           (JStr ''squat'')
   \<and> resolveKey scenario_doc [] ''serie-1-2026|1|1|1|squat|zzz'' \<noteq> None"
  by code_simp

section \<open>Resolving an entry\<close>

lemma getPatchedEntry_chain:
  "getPatchedEntry doc ed a b c d e =
     (case lookup_chain doc a b c d e of
        None \<Rightarrow> None
      | Some (p, bl, w, dy, x) \<Rightarrow>
          Some (applyPatchToEntry (baseEntry a p bl w dy x) (obj_get ed (entryKey a b c d e))))"
  by (simp add: getPatchedEntry_def lookup_chain_def Let_def split: option.splits)

lemma lookup_chain_None:
  "lookup_chain doc a b c d e = None \<longleftrightarrow>
     (getPeriod doc a = None
      \<or> (\<exists>p. getPeriod doc a = Some p \<and>
           (getBlock p b = None
            \<or> (\<exists>bl. getBlock p b = Some bl \<and>
                 (getWeek bl c = None
                  \<or> (\<exists>w. getWeek bl c = Some w \<and>
                       (getDay w d = None
                        \<or> (\<exists>dy. getDay w d = Some dy \<and> getExercise dy e = None))))))))"
  by (auto simp: lookup_chain_def split: option.splits Option.bind_splits)

lemma baseEntry_defaults:
  "obj_get (baseEntry a p bl w dy x) ''work'' = (if truthy (ex_work x) then ex_work x else JStr [])"
  "obj_get (baseEntry a p bl w dy x) ''videos''
     = (if is_array (ex_videos x) then ex_videos x else JArr [])"
  "obj_get (baseEntry a p bl w dy x) ''lifterComment''
     = (if truthy (ex_lifterComment x) then ex_lifterComment x else JStr [])"
  "obj_get (baseEntry a p bl w dy x) ''coachComment''
     = (if truthy (ex_coachComment x) then ex_coachComment x else JStr [])"
  "obj_get (baseEntry a p bl w dy x) ''updatedAt''
     = (if truthy (ex_updatedAt x) then ex_updatedAt x else JNull)"
  by (simp_all add: baseEntry_def obj_get_def js_or_def)

lemma baseEntry_identity:
  "map (obj_get (baseEntry a p bl w dy x))
     [''periodId'', ''periodName'', ''blockId'', ''week'', ''day'', ''exerciseId'', ''exerciseName'']
   = [a, JStr (period_name p), JNum (block_id bl), JNum (week_week w), JNum (day_day dy),
      JStr (ex_id x), JStr (ex_name x)]"
  by (simp add: baseEntry_def obj_get_def)

lemma applyPatchToEntry_other:
  "k \<notin> set overlay_fields \<Longrightarrow> obj_get (applyPatchToEntry entry patch) k = obj_get entry k"
  by (simp add: applyPatchToEntry_def Let_def overlay_fields_def obj_get_obj_set)

lemma applyPatchToEntry_identity:
  "map (obj_get (applyPatchToEntry entry patch))
     [''periodId'', ''periodName'', ''blockId'', ''week'', ''day'', ''exerciseId'', ''exerciseName'']
   = map (obj_get entry)
     [''periodId'', ''periodName'', ''blockId'', ''week'', ''day'', ''exerciseId'', ''exerciseName'']"
  by (simp add: applyPatchToEntry_other overlay_fields_def)

lemma applyPatchToEntry_text:
  assumes "k \<in> {''work'', ''lifterComment'', ''coachComment'', ''updatedAt''}"
  shows "obj_get (applyPatchToEntry entry patch) k =
           (if is_string (js_get patch k) then js_get patch k else obj_get entry k)"
proof (cases "js_not patch")
  case True
  then show ?thesis
    by (simp add: applyPatchToEntry_def js_get_falsy)
next
  case False
  with assms show ?thesis
    by (auto simp: applyPatchToEntry_def Let_def obj_get_obj_set)
qed

lemma applyPatchToEntry_videos:
  "obj_get (applyPatchToEntry entry patch) ''videos'' =
     (if is_array (js_get patch ''videos'') then js_get patch ''videos''
      else obj_get entry ''videos'')"
proof (cases "js_not patch")
  case True
  then show ?thesis
    by (simp add: applyPatchToEntry_def js_get_falsy)
next
  case False
  then show ?thesis
    by (simp add: applyPatchToEntry_def Let_def obj_get_obj_set)
qed

lemma lookup_chain_Some:
  assumes "getPeriod doc a = Some p" and "getBlock p b = Some bl" and "getWeek bl c = Some w"
    and "getDay w d = Some dy" and "getExercise dy e = Some x"
  shows "lookup_chain doc a b c d e = Some (p, bl, w, dy, x)"
  using assms by (simp add: lookup_chain_def)

text \<open>
  C2. \<open>getPatchedEntry\<close> returns \<open>null\<close> exactly when one of the five lookups
  \<open>getPeriod\<close>, \<open>getBlock\<close>, \<open>getWeek\<close>, \<open>getDay\<close>, \<open>getExercise\<close> fails for the
  locator in the base document, whatever the overlay holds. When all five succeed the
  result is the patch of the overlay applied to the base entry, in which a content field
  that is missing from the exercise has its default: the empty string for \<open>work\<close>,
  \<open>lifterComment\<close> and \<open>coachComment\<close>, the empty array for \<open>videos\<close>, \<open>null\<close> for
  \<open>updatedAt\<close>. Field by field, the entry returned when the five lookups succeed has
  the identity and context of the objects found, and for each content field the value of
  the patch stored under the locator's key when that value has the expected shape (a
  string, an array for \<open>videos\<close>), otherwise the value of the exercise, otherwise the
  default.
\<close>

theorem getPatchedEntry_resolves:
  "(getPatchedEntry doc ed a b c d e = None \<longleftrightarrow>
      (getPeriod doc a = None
       \<or> (\<exists>p. getPeriod doc a = Some p \<and>
            (getBlock p b = None
             \<or> (\<exists>bl. getBlock p b = Some bl \<and>
                  (getWeek bl c = None
                   \<or> (\<exists>w. getWeek bl c = Some w \<and>
                        (getDay w d = None
                         \<or> (\<exists>dy. getDay w d = Some dy \<and> getExercise dy e = None)))))))))
   \<and> getPatchedEntry doc ed a b c d e =
       (case lookup_chain doc a b c d e of
          None \<Rightarrow> None
        | Some (p, bl, w, dy, x) \<Rightarrow>
            Some (applyPatchToEntry (baseEntry a p bl w dy x) (obj_get ed (entryKey a b c d e))))
   \<and> obj_get (baseEntry a p bl w dy x) ''work''
       = (if truthy (ex_work x) then ex_work x else JStr [])
   \<and> obj_get (baseEntry a p bl w dy x) ''videos''
       = (if is_array (ex_videos x) then ex_videos x else JArr [])
   \<and> obj_get (baseEntry a p bl w dy x) ''lifterComment''
       = (if truthy (ex_lifterComment x) then ex_lifterComment x else JStr [])
   \<and> obj_get (baseEntry a p bl w dy x) ''coachComment''
       = (if truthy (ex_coachComment x) then ex_coachComment x else JStr [])
   \<and> obj_get (baseEntry a p bl w dy x) ''updatedAt''
       = (if truthy (ex_updatedAt x) then ex_updatedAt x else JNull)
   \<and> map (obj_get (baseEntry a p bl w dy
               (x\<lparr>ex_work := JUndefined, ex_videos := JUndefined, ex_lifterComment := JUndefined,
                  ex_coachComment := JUndefined, ex_updatedAt := JUndefined\<rparr>)))
         overlay_fields
       = [JStr [], JArr [], JStr [], JStr [], JNull]
   \<and> (\<forall>fp fb fw fd fx.
         getPeriod doc a = Some fp \<longrightarrow> getBlock fp b = Some fb \<longrightarrow> getWeek fb c = Some fw \<longrightarrow>
         getDay fw d = Some fd \<longrightarrow> getExercise fd e = Some fx \<longrightarrow>
         (\<exists>entry.
            getPatchedEntry doc ed a b c d e = Some entry
          \<and> map (obj_get entry)
              [''periodId'', ''periodName'', ''blockId'', ''week'', ''day'', ''exerciseId'',
               ''exerciseName'']
            = [a, JStr (period_name fp), JNum (block_id fb), JNum (week_week fw),
               JNum (day_day fd), JStr (ex_id fx), JStr (ex_name fx)]
          \<and> obj_get entry ''work'' =
              (if is_string (js_get (obj_get ed (entryKey a b c d e)) ''work'')
               then js_get (obj_get ed (entryKey a b c d e)) ''work''
               else if truthy (ex_work fx) then ex_work fx else JStr [])
          \<and> obj_get entry ''videos'' =
              (if is_array (js_get (obj_get ed (entryKey a b c d e)) ''videos'')
               then js_get (obj_get ed (entryKey a b c d e)) ''videos''
               else if is_array (ex_videos fx) then ex_videos fx else JArr [])
          \<and> obj_get entry ''lifterComment'' =
              (if is_string (js_get (obj_get ed (entryKey a b c d e)) ''lifterComment'')
               then js_get (obj_get ed (entryKey a b c d e)) ''lifterComment''
               else if truthy (ex_lifterComment fx) then ex_lifterComment fx else JStr [])
          \<and> obj_get entry ''coachComment'' =
              (if is_string (js_get (obj_get ed (entryKey a b c d e)) ''coachComment'')
               then js_get (obj_get ed (entryKey a b c d e)) ''coachComment''
               else if truthy (ex_coachComment fx) then ex_coachComment fx else JStr [])
          \<and> obj_get entry ''updatedAt'' =
              (if is_string (js_get (obj_get ed (entryKey a b c d e)) ''updatedAt'')
               then js_get (obj_get ed (entryKey a b c d e)) ''updatedAt''
               else if truthy (ex_updatedAt fx) then ex_updatedAt fx else JNull)))"
proof -
  have none: "getPatchedEntry doc ed a b c d e = None \<longleftrightarrow> lookup_chain doc a b c d e = None"
    by (simp add: getPatchedEntry_chain split: option.splits)
  have missing: "map (obj_get (baseEntry a p bl w dy
               (x\<lparr>ex_work := JUndefined, ex_videos := JUndefined, ex_lifterComment := JUndefined,
                  ex_coachComment := JUndefined, ex_updatedAt := JUndefined\<rparr>)))
         overlay_fields
       = [JStr [], JArr [], JStr [], JStr [], JNull]"
    by (simp add: overlay_fields_def baseEntry_defaults)
  have fields: "\<exists>entry.
            getPatchedEntry doc ed a b c d e = Some entry
          \<and> map (obj_get entry)
              [''periodId'', ''periodName'', ''blockId'', ''week'', ''day'', ''exerciseId'',
               ''exerciseName'']
            = [a, JStr (period_name fp), JNum (block_id fb), JNum (week_week fw),
               JNum (day_day fd), JStr (ex_id fx), JStr (ex_name fx)]
          \<and> obj_get entry ''work'' =
              (if is_string (js_get (obj_get ed (entryKey a b c d e)) ''work'')
               then js_get (obj_get ed (entryKey a b c d e)) ''work''
               else if truthy (ex_work fx) then ex_work fx else JStr [])
          \<and> obj_get entry ''videos'' =
              (if is_array (js_get (obj_get ed (entryKey a b c d e)) ''videos'')
               then js_get (obj_get ed (entryKey a b c d e)) ''videos''
               else if is_array (ex_videos fx) then ex_videos fx else JArr [])
          \<and> obj_get entry ''lifterComment'' =
              (if is_string (js_get (obj_get ed (entryKey a b c d e)) ''lifterComment'')
               then js_get (obj_get ed (entryKey a b c d e)) ''lifterComment''
               else if truthy (ex_lifterComment fx) then ex_lifterComment fx else JStr [])
          \<and> obj_get entry ''coachComment'' =
              (if is_string (js_get (obj_get ed (entryKey a b c d e)) ''coachComment'')
               then js_get (obj_get ed (entryKey a b c d e)) ''coachComment''
               else if truthy (ex_coachComment fx) then ex_coachComment fx else JStr [])
          \<and> obj_get entry ''updatedAt'' =
              (if is_string (js_get (obj_get ed (entryKey a b c d e)) ''updatedAt'')
               then js_get (obj_get ed (entryKey a b c d e)) ''updatedAt''
               else if truthy (ex_updatedAt fx) then ex_updatedAt fx else JNull)"
    if "getPeriod doc a = Some fp" "getBlock fp b = Some fb" "getWeek fb c = Some fw"
      "getDay fw d = Some fd" "getExercise fd e = Some fx" for fp fb fw fd fx
  proof -
    have res: "getPatchedEntry doc ed a b c d e =
        Some (applyPatchToEntry (baseEntry a fp fb fw fd fx) (obj_get ed (entryKey a b c d e)))"
      by (simp add: getPatchedEntry_chain lookup_chain_Some [OF that])
    have ids: "map (obj_get (applyPatchToEntry (baseEntry a fp fb fw fd fx)
                 (obj_get ed (entryKey a b c d e))))
              [''periodId'', ''periodName'', ''blockId'', ''week'', ''day'', ''exerciseId'',
               ''exerciseName'']
            = [a, JStr (period_name fp), JNum (block_id fb), JNum (week_week fw),
               JNum (day_day fd), JStr (ex_id fx), JStr (ex_name fx)]"
      by (simp only: applyPatchToEntry_identity baseEntry_identity)
    show ?thesis
      unfolding res
      by (rule exI [of _ "applyPatchToEntry (baseEntry a fp fb fw fd fx)
            (obj_get ed (entryKey a b c d e))"])
        (simp add: ids applyPatchToEntry_videos applyPatchToEntry_text baseEntry_defaults
          del: list.map)
  qed
  have base: "getPatchedEntry doc ed a b c d e = None \<longleftrightarrow>
      (getPeriod doc a = None
       \<or> (\<exists>p. getPeriod doc a = Some p \<and>
            (getBlock p b = None
             \<or> (\<exists>bl. getBlock p b = Some bl \<and>
                  (getWeek bl c = None
                   \<or> (\<exists>w. getWeek bl c = Some w \<and>
                        (getDay w d = None
                         \<or> (\<exists>dy. getDay w d = Some dy \<and> getExercise dy e = None))))))))"
    unfolding none lookup_chain_None ..
  show ?thesis
    by (intro conjI allI impI base getPatchedEntry_chain baseEntry_defaults missing fields)
qed

theorem getPatchedEntry_resolves_witness:
  "getPeriod scenario_doc (JStr ''serie-1-2026'') = Some (hd (periods scenario_doc))
   \<and> getExercise (hd (week_days (hd (block_weeks (hd (period_blocks (hd (periods scenario_doc))))))))
       (JStr ''squat'') = Some scenario_exercise
   \<and> (\<exists>entry.
        getPatchedEntry scenario_doc (edits scenario_patched)
          (JStr ''serie-1-2026'') (JNum 1) (JNum 1) (JNum 1) (JStr ''squat'') = Some entry
      \<and> map (obj_get entry)
          [''periodId'', ''periodName'', ''blockId'', ''week'', ''day'', ''exerciseId'',
           ''exerciseName'']
        = [JStr ''serie-1-2026'', JStr ''Serie 1 2026'', JNum 1, JNum 1, JNum 1, JStr ''squat'',
           JStr ''Squat'']
      \<and> obj_get entry ''work'' = JStr ''5x5''
      \<and> obj_get entry ''videos'' = JArr [JStr ''https://youtu.be/abc123'']
      \<and> obj_get entry ''lifterComment'' = JStr []
      \<and> obj_get entry ''coachComment'' = JStr []
      \<and> obj_get entry ''updatedAt'' = JStr ''2026-01-01T00:00:00.000Z'')"
proof -
  define p where "p = hd (periods scenario_doc)"
  define bl where "bl = hd (period_blocks p)"
  define w where "w = hd (block_weeks bl)"
  define dy where "dy = hd (week_days w)"
  have l1: "getPeriod scenario_doc (JStr ''serie-1-2026'') = Some p"
    unfolding p_def by code_simp
  have l2: "getBlock p (JNum 1) = Some bl"
    unfolding bl_def p_def by code_simp
  have l3: "getWeek bl (JNum 1) = Some w"
    unfolding w_def bl_def p_def by code_simp
  have l4: "getDay w (JNum 1) = Some dy"
    unfolding dy_def w_def bl_def p_def by code_simp
  have l5: "getExercise dy (JStr ''squat'') = Some scenario_exercise"
    unfolding dy_def w_def bl_def p_def by code_simp
  have patch: "obj_get (edits scenario_patched)
      (entryKey (JStr ''serie-1-2026'') (JNum 1) (JNum 1) (JNum 1) (JStr ''squat'')) = scenario_patch"
    by code_simp
  have names: "period_name p = ''Serie 1 2026''" "block_id bl = 1" "week_week w = 1"
    "day_day dy = 1"
    unfolding dy_def w_def bl_def p_def by code_simp+
  note t = getPatchedEntry_resolves [of scenario_doc "edits scenario_patched"
      "JStr ''serie-1-2026''" "JNum 1" "JNum 1" "JNum 1" "JStr ''squat''",
      THEN conjunct2, THEN conjunct2, THEN conjunct2, THEN conjunct2, THEN conjunct2,
      THEN conjunct2, THEN conjunct2, THEN conjunct2, rule_format, OF l1 l2 l3 l4 l5]
  have r: "\<exists>entry.
        getPatchedEntry scenario_doc (edits scenario_patched)
          (JStr ''serie-1-2026'') (JNum 1) (JNum 1) (JNum 1) (JStr ''squat'') = Some entry
      \<and> map (obj_get entry)
          [''periodId'', ''periodName'', ''blockId'', ''week'', ''day'', ''exerciseId'',
           ''exerciseName'']
        = [JStr ''serie-1-2026'', JStr ''Serie 1 2026'', JNum 1, JNum 1, JNum 1, JStr ''squat'',
           JStr ''Squat'']
      \<and> obj_get entry ''work'' = JStr ''5x5''
      \<and> obj_get entry ''videos'' = JArr [JStr ''https://youtu.be/abc123'']
      \<and> obj_get entry ''lifterComment'' = JStr []
      \<and> obj_get entry ''coachComment'' = JStr []
      \<and> obj_get entry ''updatedAt'' = JStr ''2026-01-01T00:00:00.000Z''"
    using t unfolding patch names
    by (simp add: scenario_patch_def scenario_exercise_def obj_get_def)
  from l1 l5 r show ?thesis
    unfolding dy_def w_def bl_def p_def by blast
qed
section \<open>Removal and the overlay\<close>

lemma renderNavExercises_edits: "edits (final_state (renderNavExercises d s)) = edits s"
  by (simp add: renderNavExercises_def)

lemma renderNavDays_edits: "edits (final_state (renderNavDays w s)) = edits s"
  by (simp add: renderNavDays_def Let_def renderNavExercises_edits split: option.splits)

lemma renderNavWeeks_edits: "edits (final_state (renderNavWeeks b s)) = edits s"
  by (simp add: renderNavWeeks_def Let_def renderNavDays_edits split: option.splits)

lemma renderNavBlocks_edits: "edits (final_state (renderNavBlocks p s)) = edits s"
  by (simp add: renderNavBlocks_def Let_def renderNavWeeks_edits split: option.splits)

lemma renderNav_edits: "edits (final_state (renderNav s)) = edits s"
  by (simp add: renderNav_def Let_def renderNavBlocks_edits split: option.splits)

lemma ensureSelected_edits: "ensureSelected s = Some s' \<Longrightarrow> edits s' = edits s"
  by (auto simp: ensureSelected_def Let_def split: option.splits Option.bind_splits if_splits list.splits prod.splits)

lemma finish_edits: "edits (final_state (finish s)) = edits s"
  by (simp add: finish_def renderNav_edits ensureSelected_edits split: option.splits)

lemma btnRemoveDay_edits: "edits (final_state (btnRemoveDay c s)) = edits s"
  by (simp add: btnRemoveDay_def finish_edits split: option.splits)

lemma btnRemoveWeek_edits: "edits (final_state (btnRemoveWeek c s)) = edits s"
  by (simp add: btnRemoveWeek_def finish_edits split: option.splits)

lemma btnRemoveBlock_edits: "edits (final_state (btnRemoveBlock c s)) = edits s"
  by (simp add: btnRemoveBlock_def finish_edits split: option.splits)

lemma btnRemovePeriod_edits: "edits (final_state (btnRemovePeriod c s)) = edits s"
  by (simp add: btnRemovePeriod_def finish_edits split: option.splits)

lemma btnRemoveExercise_purges:
  "lookup_chain (baseData s) (sel_periodId (sel s)) (sel_blockId (sel s)) (sel_week (sel s))
      (sel_day (sel s)) (sel_exerciseId (sel s)) \<noteq> None
   \<Longrightarrow> map_of (edits (final_state (btnRemoveExercise True s)))
        (entryKey (sel_periodId (sel s)) (sel_blockId (sel s)) (sel_week (sel s))
           (sel_day (sel s)) (sel_exerciseId (sel s))) = None"
  by (auto simp: btnRemoveExercise_def lookup_chain_def getExercise_def finish_edits
      map_of_obj_delete Let_def split: option.splits Option.bind_splits)

text \<open>
  C1 holds for the removal of an exercise (\<open>btnRemoveExercise_purges\<close>) and fails at
  every level above it: the handlers that remove a day, a week, a block or a period leave
  the overlay as it was (the four lemmas above). On Scenario B, after Day 1 is removed
  the exercise \<open>squat\<close> no longer resolves, and its patch is still stored under its
  key.
\<close>

theorem btnRemoveDay_keeps_patch:
  "(case btnRemoveDay True scenario_patched of
      Returned s' \<Rightarrow>
        obj_get (edits s') scenario_key = scenario_patch
        \<and> lookup_chain (baseData s') (JStr ''serie-1-2026'') (JNum 1) (JNum 1) (JNum 1)
              (JStr ''squat'') = None
    | Thrown s' \<Rightarrow> False)"
  by code_simp

text \<open>
  C8 fails for the same reason. On Scenario B, Day 1 is removed (the fallback selection
  creates an empty Day 1 in its place) and an exercise named \<open>Squat\<close> is added again: it
  has the entry key of the removed exercise, and resolving it returns the video and the
  time stamp of the patch that was written before the removal.
\<close>

theorem removed_day_patch_reappears:
  "(case btnRemoveDay True scenario_patched of
      Returned s1 \<Rightarrow>
        (case btnAddExercise codeunit_le ''Squat'' ''3x3'' s1 of
           Returned s2 \<Rightarrow>
             entryKey (sel_periodId (sel s2)) (sel_blockId (sel s2)) (sel_week (sel s2))
               (sel_day (sel s2)) (sel_exerciseId (sel s2)) = scenario_key
             \<and> map_option (\<lambda>entry. (obj_get entry ''work'', obj_get entry ''videos'', obj_get entry ''updatedAt''))
                 (getPatchedEntry (baseData s2) (edits s2) (sel_periodId (sel s2))
                    (sel_blockId (sel s2)) (sel_week (sel s2)) (sel_day (sel s2))
                    (sel_exerciseId (sel s2)))
               = Some (JStr ''3x3'', JArr [JStr ''https://youtu.be/abc123''], JStr ''2026-01-01T00:00:00.000Z'')
         | Thrown s2 \<Rightarrow> False)
    | Thrown s1 \<Rightarrow> False)"
  by code_simp

section \<open>Fallback selection\<close>

lemma find_replace_first: "find P xs = Some x \<Longrightarrow> P y \<Longrightarrow> find P (replace_first P y xs) = Some y"
  by (induction xs) (auto split: if_splits)

lemma map_replace_first:
  "find P xs = Some x \<Longrightarrow> f y = f x \<Longrightarrow> map f (replace_first P y xs) = map f xs"
  by (induction xs) (auto split: if_splits)

lemma list_all2_replace_first:
  "find P xs = Some x \<Longrightarrow> R x y \<Longrightarrow> (\<And>z. R z z) \<Longrightarrow> list_all2 R xs (replace_first P y xs)"
  by (induction xs) (auto split: if_splits simp: list_all2_same)

lemma replace_first_single: "find P [x] = Some x' \<Longrightarrow> replace_first P y [x] = [y]"
  by (auto split: if_splits)

lemma find_map_cong:
  assumes "map f xs = map f ys" and "\<And>x. P x = Q (f x)"
  shows "(find P xs = None) = (find P ys = None)"
proof -
  have "(find P zs = None) = (\<not> list_ex Q (map f zs))" for zs
    by (induction zs) (auto simp: assms(2))
  then show ?thesis using assms(1) by simp
qed

lemma hd_map_cong: "map f xs = map f ys \<Longrightarrow> xs \<noteq> [] \<Longrightarrow> f (hd xs) = f (hd ys)"
  by (cases xs; cases ys) auto

lemma isExercise_own: "isExercise (JStr (ex_id e)) e"
  by (simp add: isExercise_def strict_eq_def)

lemma isDay_own: "isDay (JNum (day_day d)) d"
  by (simp add: isDay_def strict_eq_def js_Number_def)

lemma isWeek_own: "isWeek (JNum (week_week w)) w"
  by (simp add: isWeek_def strict_eq_def js_Number_def)

lemma isBlock_own: "isBlock (JNum (block_id b)) b"
  by (simp add: isBlock_def strict_eq_def)

lemma isPeriod_own: "isPeriod (JStr (period_id p)) p"
  by (simp add: isPeriod_def strict_eq_def)

lemma ext_exercises_refl: "ext_exercises es es"
  by (simp add: ext_exercises_def)

lemma ext_day_refl: "ext_day d d"
  by (simp add: ext_day_def ext_exercises_refl)

lemma ext_days_refl: "ext_days ds ds"
  by (simp add: ext_days_def list_all2_same ext_day_refl)

lemma ext_week_refl: "ext_week w w"
  by (simp add: ext_week_def ext_days_refl)

lemma ext_weeks_refl: "ext_weeks ws ws"
  by (simp add: ext_weeks_def list_all2_same ext_week_refl)

lemma ext_block_refl: "ext_block b b"
  by (simp add: ext_block_def ext_weeks_refl)

lemma ext_blocks_refl: "ext_blocks bs bs"
  by (simp add: ext_blocks_def list_all2_same ext_block_refl)

lemma ext_period_refl: "ext_period p p"
  by (simp add: ext_period_def ext_blocks_refl)

lemma ensureExercise_spec:
  "\<exists>d' sl'. ensureExercise d sl = Some (d', sl')
     \<and> day_day d' = day_day d \<and> ext_day d d'
     \<and> fallback_exercise True (sel_exerciseId sl) sl' d'
     \<and> sel_periodId sl' = sel_periodId sl \<and> sel_blockId sl' = sel_blockId sl
     \<and> sel_week sl' = sel_week sl \<and> sel_day sl' = sel_day sl"
proof -
  define d1 where "d1 = (if day_exercises d = []
               then d\<lparr>day_exercises := day_exercises d @ [placeholder_exercise]\<rparr> else d)"
  have ne: "day_exercises d1 \<noteq> []" and dd: "day_day d1 = day_day d" and ext: "ext_day d d1"
    by (auto simp: d1_def ext_day_def ext_exercises_def)
  then obtain e0 es where es: "day_exercises d1 = e0 # es"
    by (cases "day_exercises d1") auto
  show ?thesis
  proof (cases "js_not (sel_exerciseId sl) \<or> getExercise d1 (sel_exerciseId sl) = None")
    case True
    have r: "ensureExercise d sl = Some (d1, sl\<lparr>sel_exerciseId := JStr (ex_id e0)\<rparr>)"
      using True es unfolding ensureExercise_def d1_def [symmetric] Let_def by simp
    have g: "getExercise d1 (JStr (ex_id e0)) = Some e0"
      by (simp add: getExercise_def es isExercise_own)
    have "fallback_exercise True (sel_exerciseId sl) (sl\<lparr>sel_exerciseId := JStr (ex_id e0)\<rparr>) d1"
      using True g es by (auto simp: fallback_exercise_def js_not_def)
    with r dd ext show ?thesis by simp
  next
    case False
    have r: "ensureExercise d sl = Some (d1, sl)"
      using False unfolding ensureExercise_def d1_def [symmetric] Let_def by auto
    have "fallback_exercise True (sel_exerciseId sl) sl d1"
      using False ne by (auto simp: fallback_exercise_def js_not_def)
    with r dd ext show ?thesis by simp
  qed
qed

lemma fallback_exercise_null:
  "fallback_exercise True JNull sl' d' = fallback_exercise False oldE sl' d'"
  by (simp add: fallback_exercise_def)

lemma fallback_day_null:
  "fallback_day True JNull JNull sl' w' = fallback_day False oldD oldE sl' w'"
  by (simp add: fallback_day_def fallback_exercise_def Let_def cong: option.case_cong)

lemma isDay_day: "isDay k x = strict_eq (js_Number (JNum (day_day x))) (js_Number k)"
  by (simp add: isDay_def)

lemma ensureDay_spec:
  "\<exists>w' sl'. ensureDay w sl = Some (w', sl')
     \<and> week_week w' = week_week w \<and> ext_week w w'
     \<and> fallback_day True (sel_day sl) (sel_exerciseId sl) sl' w'
     \<and> sel_periodId sl' = sel_periodId sl \<and> sel_blockId sl' = sel_blockId sl
     \<and> sel_week sl' = sel_week sl"
proof -
  define w1 where "w1 = (if week_days w = []
               then w\<lparr>week_days := week_days w @ [placeholder_day]\<rparr> else w)"
  have ne: "week_days w1 \<noteq> []" and ww: "week_week w1 = week_week w"
    by (auto simp: w1_def)
  then obtain d0 ds where ds: "week_days w1 = d0 # ds"
    by (cases "week_days w1") auto
  define replaced where "replaced = (js_not (sel_day sl) \<or> getDay w1 (sel_day sl) = None)"
  define sl1 where "sl1 = (if replaced
       then sl\<lparr>sel_day := JNum (day_day d0), sel_exerciseId := JNull\<rparr> else sl)"
  have "getDay w1 (sel_day sl1) \<noteq> None"
    by (auto simp: sl1_def replaced_def getDay_def ds isDay_own)
  then obtain d where gd: "getDay w1 (sel_day sl1) = Some d"
    by auto
  then have fd: "find (isDay (sel_day sl1)) (week_days w1) = Some d"
    by (simp add: getDay_def)
  then have isd: "isDay (sel_day sl1) d"
    by (auto simp: find_Some_iff)
  from ensureExercise_spec [of d sl1] obtain d' sl' where
    ex: "ensureExercise d sl1 = Some (d', sl')"
    and dd: "day_day d' = day_day d" and extd: "ext_day d d'"
    and fbe: "fallback_exercise True (sel_exerciseId sl1) sl' d'"
    and same: "sel_periodId sl' = sel_periodId sl1" "sel_blockId sl' = sel_blockId sl1"
      "sel_week sl' = sel_week sl1" "sel_day sl' = sel_day sl1"
    by blast
  define w' where "w' = w1\<lparr>week_days := replace_first (isDay (sel_day sl1)) d' (week_days w1)\<rparr>"
  have step: "(if js_not (sel_day sl) \<or> getDay w1 (sel_day sl) = None
               then (case week_days w1 of
                       [] \<Rightarrow> None
                     | d0 # ds \<Rightarrow>
                         Some (sl\<lparr>sel_day := JNum (day_day d0), sel_exerciseId := JNull\<rparr>))
               else Some sl) = Some sl1"
    by (simp add: sl1_def replaced_def ds)
  have r: "ensureDay w sl = Some (w', sl')"
    unfolding ensureDay_def Let_def w1_def [symmetric] step
    by (simp add: gd ex w'_def)
  have ids: "map day_day (week_days w') = map day_day (week_days w1)"
    unfolding w'_def using map_replace_first [OF fd, of day_day d'] dd by simp
  have found: "(getDay w' k = None) = (getDay w1 k = None)" for k
    unfolding getDay_def by (rule find_map_cong [OF ids]) (rule isDay_day)
  have ne': "week_days w' \<noteq> []"
    using ids ne by (metis map_is_Nil_conv)
  have hd: "day_day (hd (week_days w')) = day_day d0"
    using hd_map_cong [OF ids ne'] ds by simp
  have isd': "isDay (sel_day sl1) d'"
    using isd dd by (simp add: isDay_day)
  have gd': "getDay w' (sel_day sl') = Some d'"
    unfolding getDay_def w'_def same using find_replace_first [OF fd isd'] by simp
  have ext: "ext_week w w'"
  proof (cases "week_days w = []")
    case True
    then have "week_days w1 = [placeholder_day]"
      by (simp add: w1_def)
    with fd have "d = placeholder_day" "week_days w' = [d']"
      by (auto simp: w'_def split: if_splits)
    with True extd ww show ?thesis
      by (simp add: ext_week_def ext_days_def w'_def)
  next
    case False
    then have "w1 = w" by (simp add: w1_def)
    with False list_all2_replace_first [OF fd extd ext_day_refl] show ?thesis
      by (simp add: ext_week_def ext_days_def w'_def)
  qed
  have keep: "(True \<and> truthy (sel_day sl) \<and> getDay w' (sel_day sl) \<noteq> None) = (\<not> replaced)"
    by (simp add: replaced_def found js_not_def)
  have fb: "fallback_day True (sel_day sl) (sel_exerciseId sl) sl' w'"
  proof -
    have e: "fallback_exercise (\<not> replaced) (sel_exerciseId sl) sl' d'"
      using fbe by (cases replaced) (simp_all add: sl1_def fallback_exercise_null [symmetric])
    have sd: "sel_day sl' =
        (if \<not> replaced then sel_day sl else JNum (day_day (hd (week_days w'))))"
      using same hd by (simp add: sl1_def)
    show ?thesis
      unfolding fallback_day_def Let_def keep
    proof (intro conjI)
      show "week_days w' \<noteq> []"
        by (rule ne')
      show "sel_day sl' =
          (if \<not> replaced then sel_day sl else JNum (day_day (hd (week_days w'))))"
        by (rule sd)
      show "case getDay w' (sel_day sl') of
              None \<Rightarrow> False
            | Some d' \<Rightarrow> fallback_exercise (\<not> replaced) (sel_exerciseId sl) sl' d'"
        by (simp add: gd' e)
    qed
  qed
  from r ww ext fb same show ?thesis
    by (simp add: w'_def sl1_def)
qed

lemma fallback_week_null:
  "fallback_week True JNull JNull JNull sl' b' = fallback_week False oldW oldD oldE sl' b'"
  by (simp add: fallback_week_def fallback_day_def fallback_exercise_def Let_def cong: option.case_cong)

lemma isWeek_week_week: "isWeek k x = strict_eq (js_Number (JNum (week_week x))) (js_Number k)"
  by (simp add: isWeek_def)

lemma ensureWeek_spec:
  "\<exists>b' sl'. ensureWeek b sl = Some (b', sl')
     \<and> block_id b' = block_id b \<and> ext_block b b'
     \<and> fallback_week True (sel_week sl) (sel_day sl) (sel_exerciseId sl) sl' b'
     \<and> sel_periodId sl' = sel_periodId sl \<and> sel_blockId sl' = sel_blockId sl"
proof -
  define b1 where "b1 = (if block_weeks b = []
               then b\<lparr>block_weeks := block_weeks b @ [placeholder_week]\<rparr> else b)"
  have ne: "block_weeks b1 \<noteq> []" and ww: "block_id b1 = block_id b" 
    by (auto simp: b1_def)
  then obtain c0 cs where cs: "block_weeks b1 = c0 # cs"
    by (cases "block_weeks b1") auto
  define replaced where "replaced = (js_not (sel_week sl) \<or> getWeek b1 (sel_week sl) = None)"
  define sl1 where "sl1 = (if replaced
       then sl\<lparr>sel_week := JNum (week_week c0), sel_day := JNull,
                                  sel_exerciseId := JNull\<rparr> else sl)"
  have "getWeek b1 (sel_week sl1) \<noteq> None"
    by (auto simp: sl1_def replaced_def getWeek_def cs isWeek_own)
  then obtain c where gd: "getWeek b1 (sel_week sl1) = Some c"
    by auto
  then have fd: "find (isWeek (sel_week sl1)) (block_weeks b1) = Some c"
    by (simp add: getWeek_def)
  then have isd: "isWeek (sel_week sl1) c"
    by (auto simp: find_Some_iff)
  from ensureDay_spec [of c sl1] obtain c' sl' where
    ex: "ensureDay c sl1 = Some (c', sl')"
    and dd: "week_week c' = week_week c" and extd: "ext_week c c'"
    and fbe: "fallback_day True (sel_day sl1) (sel_exerciseId sl1) sl' c'"
    and same: "sel_periodId sl' = sel_periodId sl1" "sel_blockId sl' = sel_blockId sl1"
      "sel_week sl' = sel_week sl1"
    by blast
  define b' where "b' = b1\<lparr>block_weeks := replace_first (isWeek (sel_week sl1)) c' (block_weeks b1)\<rparr>"
  have step: "(if js_not (sel_week sl) \<or> getWeek b1 (sel_week sl) = None
               then (case block_weeks b1 of
                       [] \<Rightarrow> None
                     | c0 # cs \<Rightarrow>
                         Some (sl\<lparr>sel_week := JNum (week_week c0), sel_day := JNull,
                                  sel_exerciseId := JNull\<rparr>))
               else Some sl) = Some sl1"
    by (simp add: sl1_def replaced_def cs)
  have r: "ensureWeek b sl = Some (b', sl')"
    unfolding ensureWeek_def Let_def b1_def [symmetric] step
    by (simp add: gd ex b'_def)
  have ids: "map week_week (block_weeks b') = map week_week (block_weeks b1)"
    unfolding b'_def using map_replace_first [OF fd, of week_week c'] dd by simp
  have found: "(getWeek b' k = None) = (getWeek b1 k = None)" for k
    unfolding getWeek_def by (rule find_map_cong [OF ids]) (rule isWeek_week_week)
  have ne': "block_weeks b' \<noteq> []"
    using ids ne by (metis map_is_Nil_conv)
  have hd: "week_week (hd (block_weeks b')) = week_week c0"
    using hd_map_cong [OF ids ne'] cs by simp
  have isd': "isWeek (sel_week sl1) c'"
    using isd dd by (simp add: isWeek_week_week)
  have gd': "getWeek b' (sel_week sl') = Some c'"
    unfolding getWeek_def b'_def same using find_replace_first [OF fd isd'] by simp
  have ext: "ext_block b b'"
  proof (cases "block_weeks b = []")
    case True
    then have "block_weeks b1 = [placeholder_week]"
      by (simp add: b1_def)
    with fd have "c = placeholder_week" "block_weeks b' = [c']"
      by (auto simp: b'_def split: if_splits)
    with True extd ww show ?thesis
      by (simp add: ext_block_def ext_weeks_def b'_def b1_def)
  next
    case False
    then have "b1 = b" by (simp add: b1_def)
    with False list_all2_replace_first [OF fd extd ext_week_refl] show ?thesis
      by (simp add: ext_block_def ext_weeks_def b'_def)
  qed
  have keep: "(True \<and> truthy (sel_week sl) \<and> getWeek b' (sel_week sl) \<noteq> None) = (\<not> replaced)"
    by (simp add: replaced_def found js_not_def)
  have fb: "fallback_week True (sel_week sl) (sel_day sl) (sel_exerciseId sl) sl' b'"
  proof -
    have e: "fallback_day (\<not> replaced) (sel_day sl) (sel_exerciseId sl) sl' c'"
      using fbe by (cases replaced) (simp_all add: sl1_def fallback_day_null [symmetric])
    have sd: "sel_week sl' =
        (if \<not> replaced then sel_week sl else JNum (week_week (hd (block_weeks b'))))"
      using same hd by (simp add: sl1_def)
    show ?thesis
      unfolding fallback_week_def Let_def keep
    proof (intro conjI)
      show "block_weeks b' \<noteq> []"
        by (rule ne')
      show "sel_week sl' =
          (if \<not> replaced then sel_week sl else JNum (week_week (hd (block_weeks b'))))"
        by (rule sd)
      show "case getWeek b' (sel_week sl') of
              None \<Rightarrow> False
            | Some c' \<Rightarrow> fallback_day (\<not> replaced) (sel_day sl) (sel_exerciseId sl) sl' c'"
        by (simp add: gd' e)
    qed
  qed
  from r ww ext fb same show ?thesis
    by (simp add: b'_def b1_def sl1_def)
qed

lemma fallback_block_null:
  "fallback_block True JNull JNull JNull JNull sl' p' = fallback_block False oldB oldW oldD oldE sl' p'"
  by (simp add: fallback_block_def fallback_week_def fallback_day_def fallback_exercise_def Let_def cong: option.case_cong)

lemma isBlock_block_id: "isBlock k x = strict_eq (JStr (js_String (JNum (block_id x)))) (JStr (js_String k))"
  by (simp add: isBlock_def)

lemma ensureBlock_spec:
  "\<exists>p' sl'. ensureBlock p sl = Some (p', sl')
     \<and> period_id p' = period_id p \<and> period_name p' = period_name p \<and> ext_period p p'
     \<and> fallback_block True (sel_blockId sl) (sel_week sl) (sel_day sl) (sel_exerciseId sl) sl' p'
     \<and> sel_periodId sl' = sel_periodId sl"
proof -
  define p1 where "p1 = (if period_blocks p = []
               then p\<lparr>period_blocks := period_blocks p @ [placeholder_block]\<rparr> else p)"
  have ne: "period_blocks p1 \<noteq> []" and ww: "period_id p1 = period_id p" and nn: "period_name p1 = period_name p"
    by (auto simp: p1_def)
  then obtain c0 cs where cs: "period_blocks p1 = c0 # cs"
    by (cases "period_blocks p1") auto
  define replaced where "replaced = (js_not (sel_blockId sl) \<or> getBlock p1 (sel_blockId sl) = None)"
  define sl1 where "sl1 = (if replaced
       then sl\<lparr>sel_blockId := JNum (block_id c0), sel_week := JNull,
                                  sel_day := JNull, sel_exerciseId := JNull\<rparr> else sl)"
  have "getBlock p1 (sel_blockId sl1) \<noteq> None"
    by (auto simp: sl1_def replaced_def getBlock_def cs isBlock_own)
  then obtain c where gd: "getBlock p1 (sel_blockId sl1) = Some c"
    by auto
  then have fd: "find (isBlock (sel_blockId sl1)) (period_blocks p1) = Some c"
    by (simp add: getBlock_def)
  then have isd: "isBlock (sel_blockId sl1) c"
    by (auto simp: find_Some_iff)
  from ensureWeek_spec [of c sl1] obtain c' sl' where
    ex: "ensureWeek c sl1 = Some (c', sl')"
    and dd: "block_id c' = block_id c" and extd: "ext_block c c'"
    and fbe: "fallback_week True (sel_week sl1) (sel_day sl1) (sel_exerciseId sl1) sl' c'"
    and same: "sel_periodId sl' = sel_periodId sl1" "sel_blockId sl' = sel_blockId sl1"
    by blast
  define p' where "p' = p1\<lparr>period_blocks := replace_first (isBlock (sel_blockId sl1)) c' (period_blocks p1)\<rparr>"
  have step: "(if js_not (sel_blockId sl) \<or> getBlock p1 (sel_blockId sl) = None
               then (case period_blocks p1 of
                       [] \<Rightarrow> None
                     | c0 # cs \<Rightarrow>
                         Some (sl\<lparr>sel_blockId := JNum (block_id c0), sel_week := JNull,
                                  sel_day := JNull, sel_exerciseId := JNull\<rparr>))
               else Some sl) = Some sl1"
    by (simp add: sl1_def replaced_def cs)
  have r: "ensureBlock p sl = Some (p', sl')"
    unfolding ensureBlock_def Let_def p1_def [symmetric] step
    by (simp add: gd ex p'_def)
  have ids: "map block_id (period_blocks p') = map block_id (period_blocks p1)"
    unfolding p'_def using map_replace_first [OF fd, of block_id c'] dd by simp
  have found: "(getBlock p' k = None) = (getBlock p1 k = None)" for k
    unfolding getBlock_def by (rule find_map_cong [OF ids]) (rule isBlock_block_id)
  have ne': "period_blocks p' \<noteq> []"
    using ids ne by (metis map_is_Nil_conv)
  have hd: "block_id (hd (period_blocks p')) = block_id c0"
    using hd_map_cong [OF ids ne'] cs by simp
  have isd': "isBlock (sel_blockId sl1) c'"
    using isd dd by (simp add: isBlock_block_id)
  have gd': "getBlock p' (sel_blockId sl') = Some c'"
    unfolding getBlock_def p'_def same using find_replace_first [OF fd isd'] by simp
  have ext: "ext_period p p'"
  proof (cases "period_blocks p = []")
    case True
    then have "period_blocks p1 = [placeholder_block]"
      by (simp add: p1_def)
    with fd have "c = placeholder_block" "period_blocks p' = [c']"
      by (auto simp: p'_def split: if_splits)
    with True extd ww nn show ?thesis
      by (simp add: ext_period_def ext_blocks_def p'_def p1_def)
  next
    case False
    then have "p1 = p" by (simp add: p1_def)
    with False list_all2_replace_first [OF fd extd ext_block_refl] show ?thesis
      by (simp add: ext_period_def ext_blocks_def p'_def)
  qed
  have keep: "(True \<and> truthy (sel_blockId sl) \<and> getBlock p' (sel_blockId sl) \<noteq> None) = (\<not> replaced)"
    by (simp add: replaced_def found js_not_def)
  have fb: "fallback_block True (sel_blockId sl) (sel_week sl) (sel_day sl) (sel_exerciseId sl) sl' p'"
  proof -
    have e: "fallback_week (\<not> replaced) (sel_week sl) (sel_day sl) (sel_exerciseId sl) sl' c'"
      using fbe by (cases replaced) (simp_all add: sl1_def fallback_week_null [symmetric])
    have sd: "sel_blockId sl' =
        (if \<not> replaced then sel_blockId sl else JNum (block_id (hd (period_blocks p'))))"
      using same hd by (simp add: sl1_def)
    show ?thesis
      unfolding fallback_block_def Let_def keep
    proof (intro conjI)
      show "period_blocks p' \<noteq> []"
        by (rule ne')
      show "sel_blockId sl' =
          (if \<not> replaced then sel_blockId sl else JNum (block_id (hd (period_blocks p'))))"
        by (rule sd)
      show "case getBlock p' (sel_blockId sl') of
              None \<Rightarrow> False
            | Some c' \<Rightarrow> fallback_week (\<not> replaced) (sel_week sl) (sel_day sl) (sel_exerciseId sl) sl' c'"
        by (simp add: gd' e)
    qed
  qed
  from r ww nn ext fb same show ?thesis
    by (simp add: p'_def p1_def sl1_def)
qed

lemma isPeriod_period_id: "isPeriod k x = strict_eq (JStr (period_id x)) k"
  by (simp add: isPeriod_def)

lemma fallback_exercise_step:
  "fallback_exercise k oldE sl' d' \<Longrightarrow>
     getExercise d' (sel_exerciseId sl') \<noteq> None
     \<and> sel_exerciseId sl' \<noteq> JNull \<and> sel_exerciseId sl' \<noteq> JUndefined"
  unfolding fallback_exercise_def by (cases "k \<and> truthy oldE \<and> getExercise d' oldE \<noteq> None") auto

lemma fallback_day_step:
  assumes "fallback_day k oldD oldE sl' w'"
  shows "\<exists>d' k'. getDay w' (sel_day sl') = Some d' \<and> fallback_exercise k' oldE sl' d'
           \<and> sel_day sl' \<noteq> JNull \<and> sel_day sl' \<noteq> JUndefined"
proof -
  define keep where "keep = (k \<and> truthy oldD \<and> getDay w' oldD \<noteq> None)"
  from assms have sd: "sel_day sl' = (if keep then oldD else JNum (day_day (hd (week_days w'))))"
    and c: "case getDay w' (sel_day sl') of None \<Rightarrow> False
            | Some d' \<Rightarrow> fallback_exercise keep oldE sl' d'"
    unfolding fallback_day_def Let_def keep_def by blast+
  from c obtain d' where "getDay w' (sel_day sl') = Some d'" "fallback_exercise keep oldE sl' d'"
    by (cases "getDay w' (sel_day sl')") auto
  moreover have "sel_day sl' \<noteq> JNull \<and> sel_day sl' \<noteq> JUndefined"
    using sd by (cases keep) (auto simp: keep_def)
  ultimately show ?thesis by blast
qed

lemma fallback_week_step:
  assumes "fallback_week k oldW oldD oldE sl' b'"
  shows "\<exists>w' k'. getWeek b' (sel_week sl') = Some w' \<and> fallback_day k' oldD oldE sl' w'
           \<and> sel_week sl' \<noteq> JNull \<and> sel_week sl' \<noteq> JUndefined"
proof -
  define keep where "keep = (k \<and> truthy oldW \<and> getWeek b' oldW \<noteq> None)"
  from assms have sd: "sel_week sl' = (if keep then oldW else JNum (week_week (hd (block_weeks b'))))"
    and c: "case getWeek b' (sel_week sl') of None \<Rightarrow> False
            | Some w' \<Rightarrow> fallback_day keep oldD oldE sl' w'"
    unfolding fallback_week_def Let_def keep_def by blast+
  from c obtain w' where "getWeek b' (sel_week sl') = Some w'" "fallback_day keep oldD oldE sl' w'"
    by (cases "getWeek b' (sel_week sl')") auto
  moreover have "sel_week sl' \<noteq> JNull \<and> sel_week sl' \<noteq> JUndefined"
    using sd by (cases keep) (auto simp: keep_def)
  ultimately show ?thesis by blast
qed

lemma fallback_block_step:
  assumes "fallback_block k oldB oldW oldD oldE sl' p'"
  shows "\<exists>b' k'. getBlock p' (sel_blockId sl') = Some b' \<and> fallback_week k' oldW oldD oldE sl' b'
           \<and> sel_blockId sl' \<noteq> JNull \<and> sel_blockId sl' \<noteq> JUndefined"
proof -
  define keep where "keep = (k \<and> truthy oldB \<and> getBlock p' oldB \<noteq> None)"
  from assms have sd: "sel_blockId sl' = (if keep then oldB else JNum (block_id (hd (period_blocks p'))))"
    and c: "case getBlock p' (sel_blockId sl') of None \<Rightarrow> False
            | Some b' \<Rightarrow> fallback_week keep oldW oldD oldE sl' b'"
    unfolding fallback_block_def Let_def keep_def by blast+
  from c obtain b' where "getBlock p' (sel_blockId sl') = Some b'"
      "fallback_week keep oldW oldD oldE sl' b'"
    by (cases "getBlock p' (sel_blockId sl')") auto
  moreover have "sel_blockId sl' \<noteq> JNull \<and> sel_blockId sl' \<noteq> JUndefined"
    using sd by (cases keep) (auto simp: keep_def)
  ultimately show ?thesis by blast
qed

lemma fallback_selection_step:
  assumes "fallback_selection sl sl' doc'"
  shows "\<exists>p' k'. getPeriod doc' (sel_periodId sl') = Some p'
           \<and> fallback_block k' (sel_blockId sl) (sel_week sl) (sel_day sl) (sel_exerciseId sl) sl' p'
           \<and> sel_periodId sl' \<noteq> JNull \<and> sel_periodId sl' \<noteq> JUndefined"
proof -
  define keep where "keep = (truthy (sel_periodId sl) \<and> getPeriod doc' (sel_periodId sl) \<noteq> None)"
  from assms have sd: "sel_periodId sl' =
        (if keep then sel_periodId sl else JStr (period_id (hd (periods doc'))))"
    and c: "case getPeriod doc' (sel_periodId sl') of None \<Rightarrow> False
            | Some p' \<Rightarrow> fallback_block keep (sel_blockId sl) (sel_week sl) (sel_day sl)
                  (sel_exerciseId sl) sl' p'"
    unfolding fallback_selection_def Let_def keep_def by blast+
  from c obtain p' where "getPeriod doc' (sel_periodId sl') = Some p'"
      "fallback_block keep (sel_blockId sl) (sel_week sl) (sel_day sl) (sel_exerciseId sl) sl' p'"
    by (cases "getPeriod doc' (sel_periodId sl')") auto
  moreover have "sel_periodId sl' \<noteq> JNull \<and> sel_periodId sl' \<noteq> JUndefined"
    using sd by (cases keep) (auto simp: keep_def)
  ultimately show ?thesis by blast
qed

lemma fallback_selection_resolves:
  assumes "fallback_selection sl sl' doc'"
  shows "lookup_chain doc' (sel_periodId sl') (sel_blockId sl') (sel_week sl') (sel_day sl')
           (sel_exerciseId sl') \<noteq> None
         \<and> JNull \<notin> set [sel_periodId sl', sel_blockId sl', sel_week sl', sel_day sl',
              sel_exerciseId sl']
         \<and> JUndefined \<notin> set [sel_periodId sl', sel_blockId sl', sel_week sl', sel_day sl',
              sel_exerciseId sl']"
proof -
  from fallback_selection_step [OF assms] obtain p' k1 where
    p: "getPeriod doc' (sel_periodId sl') = Some p'"
    and fp: "fallback_block k1 (sel_blockId sl) (sel_week sl) (sel_day sl) (sel_exerciseId sl) sl' p'"
    and np: "sel_periodId sl' \<noteq> JNull" "sel_periodId sl' \<noteq> JUndefined"
    by blast
  from fallback_block_step [OF fp] obtain b' k2 where
    b: "getBlock p' (sel_blockId sl') = Some b'"
    and fw: "fallback_week k2 (sel_week sl) (sel_day sl) (sel_exerciseId sl) sl' b'"
    and nb: "sel_blockId sl' \<noteq> JNull" "sel_blockId sl' \<noteq> JUndefined"
    by blast
  from fallback_week_step [OF fw] obtain w' k3 where
    w: "getWeek b' (sel_week sl') = Some w'"
    and fdy: "fallback_day k3 (sel_day sl) (sel_exerciseId sl) sl' w'"
    and nw: "sel_week sl' \<noteq> JNull" "sel_week sl' \<noteq> JUndefined"
    by blast
  from fallback_day_step [OF fdy] obtain d' k4 where
    d: "getDay w' (sel_day sl') = Some d'"
    and fe: "fallback_exercise k4 (sel_exerciseId sl) sl' d'"
    and nd: "sel_day sl' \<noteq> JNull" "sel_day sl' \<noteq> JUndefined"
    by blast
  from fallback_exercise_step [OF fe] have
    e: "getExercise d' (sel_exerciseId sl') \<noteq> None"
    and nx: "sel_exerciseId sl' \<noteq> JNull" "sel_exerciseId sl' \<noteq> JUndefined"
    by blast+
  from e obtain x where "getExercise d' (sel_exerciseId sl') = Some x"
    by auto
  with p b w d have "lookup_chain doc' (sel_periodId sl') (sel_blockId sl') (sel_week sl')
      (sel_day sl') (sel_exerciseId sl') = Some (p', b', w', d', x)"
    by (simp add: lookup_chain_def)
  with np nb nw nd nx show ?thesis
    by auto
qed

lemma ensureSelected_spec:
  "\<exists>s'. ensureSelected s = Some s'
     \<and> edits s' = edits s
     \<and> ext_doc (baseData s) (baseData s')
     \<and> fallback_selection (sel s) (sel s') (baseData s')"
proof -
  define doc1 where "doc1 = (if periods (baseData s) = []
                 then (baseData s)\<lparr>periods := periods (baseData s) @ [placeholder_period]\<rparr>
                 else baseData s)"
  have ne: "periods doc1 \<noteq> []"
    by (auto simp: doc1_def)
  then obtain c0 cs where cs: "periods doc1 = c0 # cs"
    by (cases "periods doc1") auto
  define replaced where
    "replaced = (js_not (sel_periodId (sel s)) \<or> getPeriod doc1 (sel_periodId (sel s)) = None)"
  define sl1 where "sl1 = (if replaced
       then (sel s)\<lparr>sel_periodId := JStr (period_id c0), sel_blockId := JNull,
                    sel_week := JNull, sel_day := JNull, sel_exerciseId := JNull\<rparr>
       else sel s)"
  have "getPeriod doc1 (sel_periodId sl1) \<noteq> None"
    by (auto simp: sl1_def replaced_def getPeriod_def cs isPeriod_own)
  then obtain c where gd: "getPeriod doc1 (sel_periodId sl1) = Some c"
    by auto
  then have fd: "find (isPeriod (sel_periodId sl1)) (periods doc1) = Some c"
    by (simp add: getPeriod_def)
  then have isd: "isPeriod (sel_periodId sl1) c"
    by (auto simp: find_Some_iff)
  from ensureBlock_spec [of c sl1] obtain c' sl' where
    ex: "ensureBlock c sl1 = Some (c', sl')"
    and dd: "period_id c' = period_id c" and extd: "ext_period c c'"
    and fbe: "fallback_block True (sel_blockId sl1) (sel_week sl1) (sel_day sl1)
                (sel_exerciseId sl1) sl' c'"
    and same: "sel_periodId sl' = sel_periodId sl1"
    by blast
  define doc' where
    "doc' = doc1\<lparr>periods := replace_first (isPeriod (sel_periodId sl1)) c' (periods doc1)\<rparr>"
  have step: "(if js_not (sel_periodId (sel s)) \<or> getPeriod doc1 (sel_periodId (sel s)) = None
               then (case periods doc1 of
                       [] \<Rightarrow> None
                     | p0 # ps \<Rightarrow>
                         Some ((sel s)\<lparr>sel_periodId := JStr (period_id p0), sel_blockId := JNull,
                                  sel_week := JNull, sel_day := JNull,
                                  sel_exerciseId := JNull\<rparr>))
               else Some (sel s)) = Some sl1"
    by (simp add: sl1_def replaced_def cs)
  have r: "ensureSelected s = Some (s\<lparr>baseData := doc', sel := sl'\<rparr>)"
    unfolding ensureSelected_def Let_def doc1_def [symmetric] step
    by (simp add: gd ex doc'_def)
  have ids: "map period_id (periods doc') = map period_id (periods doc1)"
    unfolding doc'_def using map_replace_first [OF fd, of period_id c'] dd by simp
  have found: "(getPeriod doc' k = None) = (getPeriod doc1 k = None)" for k
    unfolding getPeriod_def by (rule find_map_cong [OF ids]) (rule isPeriod_period_id)
  have ne': "periods doc' \<noteq> []"
    using ids ne by (metis map_is_Nil_conv)
  have hd: "period_id (hd (periods doc')) = period_id c0"
    using hd_map_cong [OF ids ne'] cs by simp
  have isd': "isPeriod (sel_periodId sl1) c'"
    using isd dd by (simp add: isPeriod_period_id)
  have gd': "getPeriod doc' (sel_periodId sl') = Some c'"
    unfolding getPeriod_def doc'_def same using find_replace_first [OF fd isd'] by simp
  have ext: "ext_doc (baseData s) doc'"
  proof (cases "periods (baseData s) = []")
    case True
    then have "periods doc1 = [placeholder_period]"
      by (simp add: doc1_def)
    with fd have "c = placeholder_period" "periods doc' = [c']"
      by (auto simp: doc'_def split: if_splits)
    with True extd show ?thesis
      by (simp add: ext_doc_def ext_periods_def)
  next
    case False
    then have "doc1 = baseData s" by (simp add: doc1_def)
    with False list_all2_replace_first [OF fd extd ext_period_refl] show ?thesis
      by (simp add: ext_doc_def ext_periods_def doc'_def)
  qed
  have keep: "(truthy (sel_periodId (sel s)) \<and> getPeriod doc' (sel_periodId (sel s)) \<noteq> None)
      = (\<not> replaced)"
    by (simp add: replaced_def found js_not_def)
  have fb: "fallback_selection (sel s) sl' doc'"
  proof -
    have e: "fallback_block (\<not> replaced) (sel_blockId (sel s)) (sel_week (sel s))
               (sel_day (sel s)) (sel_exerciseId (sel s)) sl' c'"
      using fbe by (cases replaced) (simp_all add: sl1_def fallback_block_null [symmetric])
    have sd: "sel_periodId sl' =
        (if \<not> replaced then sel_periodId (sel s) else JStr (period_id (hd (periods doc'))))"
      using same hd by (simp add: sl1_def)
    show ?thesis
      unfolding fallback_selection_def Let_def keep
    proof (intro conjI)
      show "periods doc' \<noteq> []"
        by (rule ne')
      show "sel_periodId sl' =
          (if \<not> replaced then sel_periodId (sel s) else JStr (period_id (hd (periods doc'))))"
        by (rule sd)
      show "case getPeriod doc' (sel_periodId sl') of
              None \<Rightarrow> False
            | Some c' \<Rightarrow>
                fallback_block (\<not> replaced) (sel_blockId (sel s)) (sel_week (sel s))
                  (sel_day (sel s)) (sel_exerciseId (sel s)) sl' c'"
        by (simp add: gd' e)
    qed
  qed
  from r ext fb show ?thesis
    by simp
qed

text \<open>
  C9. \<open>ensureSelected\<close> never throws, and after it the selection is a complete
  locator that resolves in the document: no component is \<open>null\<close> or \<open>undefined\<close>, and
  the five lookups succeed. A component that was truthy and is found (all components
  above it being kept) is kept; any other component is the identifier of the first child
  of its level, the levels below starting again from \<open>null\<close>
  (\<^const>\<open>fallback_selection\<close>). The document changes only by placeholders: a list of
  children that was empty may have received one default child (\<^const>\<open>ext_doc\<close>), and
  on the selected path every list has at least one child. The overlay is not touched.
\<close>

theorem ensureSelected_fallback:
  "\<exists>s'. ensureSelected s = Some s'
     \<and> edits s' = edits s
     \<and> ext_doc (baseData s) (baseData s')
     \<and> fallback_selection (sel s) (sel s') (baseData s')
     \<and> lookup_chain (baseData s') (sel_periodId (sel s')) (sel_blockId (sel s'))
           (sel_week (sel s')) (sel_day (sel s')) (sel_exerciseId (sel s')) \<noteq> None
     \<and> JNull \<notin> set [sel_periodId (sel s'), sel_blockId (sel s'), sel_week (sel s'),
           sel_day (sel s'), sel_exerciseId (sel s')]
     \<and> JUndefined \<notin> set [sel_periodId (sel s'), sel_blockId (sel s'), sel_week (sel s'),
           sel_day (sel s'), sel_exerciseId (sel s')]"
proof -
  from ensureSelected_spec [of s] obtain s' where
    r: "ensureSelected s = Some s'" and e: "edits s' = edits s"
    and x: "ext_doc (baseData s) (baseData s')"
    and f: "fallback_selection (sel s) (sel s') (baseData s')"
    by blast
  from fallback_selection_resolves [OF f] r e x f show ?thesis
    by blast
qed

text \<open>On the empty document the walk builds the placeholder tree and selects its leaf.\<close>

lemma ensureSelected_empty:
  "ensureSelected \<lparr>baseData = \<lparr>periods = []\<rparr>, edits = [], sel = null_selection JNull\<rparr>
     = Some \<lparr>baseData = \<lparr>periods =
               [\<lparr>period_id = ''period-1'', period_name = ''Period 1'',
                 period_blocks =
                   [\<lparr>block_id = 1,
                     block_weeks =
                       [\<lparr>week_week = 1,
                         week_days =
                           [\<lparr>day_day = 1, day_label = JStr ''Day 1'',
                             day_exercises = [placeholder_exercise]\<rparr>]\<rparr>]\<rparr>]\<rparr>]\<rparr>,
             edits = [],
             sel = \<lparr>sel_periodId = JStr ''period-1'', sel_blockId = JNum 1, sel_week = JNum 1,
                     sel_day = JNum 1, sel_exerciseId = JStr ''exercise-1''\<rparr>\<rparr>"
  by code_simp



section \<open>Adding a node\<close>




































section \<open>Export: the two merges\<close>

lemma mergeBaseWithEdits_map:
  "mergeBaseWithEdits base ed =
     map_exercises
       (\<lambda>a b c d x.
          let patch = obj_get ed (entryKey (JStr a) (JNum b) (JNum c) (JNum d) (JStr (ex_id x)))
          in if js_not patch then x else patchExercise patch x)
       (deep_clone base)"
  by (simp add: mergeBaseWithEdits_def map_exercises_def map_period_def map_block_def
      map_week_def map_day_def mergeExercise_def Let_def)

lemma map_day_comp: "map_day G (map_day F d) = map_day (\<lambda>dd x. G dd (F dd x)) d"
  by (simp add: map_day_def)

lemma map_week_comp: "map_week G (map_week F w) = map_week (\<lambda>c dd x. G c dd (F c dd x)) w"
  by (simp add: map_week_def map_day_comp)

lemma map_block_comp:
  "map_block G (map_block F b) = map_block (\<lambda>bb c dd x. G bb c dd (F bb c dd x)) b"
  by (simp add: map_block_def map_week_comp)

lemma map_period_comp:
  "map_period G (map_period F p) = map_period (\<lambda>a bb c dd x. G a bb c dd (F a bb c dd x)) p"
  by (simp add: map_period_def map_block_comp)

lemma map_exercises_comp:
  "map_exercises G (map_exercises F doc)
     = map_exercises (\<lambda>a bb c dd x. G a bb c dd (F a bb c dd x)) doc"
  by (simp add: map_exercises_def map_period_comp)

lemma map_day_id: "map_day (\<lambda>dd x. x) = id"
  by (rule ext) (simp add: map_day_def)

lemma map_week_id: "map_week (\<lambda>c dd x. x) = id"
  by (rule ext) (simp add: map_week_def map_day_id)

lemma map_block_id: "map_block (\<lambda>bb c dd x. x) = id"
  by (rule ext) (simp add: map_block_def map_week_id)

lemma map_period_id: "map_period (\<lambda>a bb c dd x. x) = id"
  by (rule ext) (simp add: map_period_def map_block_id)

lemma map_exercises_id: "map_exercises (\<lambda>a bb c dd x. x) doc = doc"
  by (simp add: map_exercises_def map_period_id)

lemma map_exercises_foldl:
  "foldl (\<lambda>out k. map_exercises (G k) out) doc ks
     = map_exercises (\<lambda>a bb c dd x. foldl (\<lambda>y k. G k a bb c dd y) x ks) doc"
proof (induction ks arbitrary: doc rule: rev_induct)
  case Nil
  then show ?case by (simp add: map_exercises_id)
next
  case (snoc k ks)
  then show ?case by (simp add: map_exercises_comp)
qed

lemma map_exercises_cong:
  assumes "\<And>p b w d x. p \<in> set (periods doc) \<Longrightarrow> b \<in> set (period_blocks p)
             \<Longrightarrow> w \<in> set (block_weeks b) \<Longrightarrow> d \<in> set (week_days w)
             \<Longrightarrow> x \<in> set (day_exercises d)
             \<Longrightarrow> F (period_id p) (block_id b) (week_week w) (day_day d) x
                 = G (period_id p) (block_id b) (week_week w) (day_day d) x"
  shows "map_exercises F doc = map_exercises G doc"
  using assms
  by (simp add: map_exercises_def map_period_def map_block_def map_week_def map_day_def)

lemma foldl_keyed:
  assumes "distinct ks" and "\<And>k y. K (h k y) = K y"
  shows "foldl (\<lambda>y k. if K y = k then h k y else y) x ks
           = (if K x \<in> set ks then h (K x) x else x)"
  using assms(1)
proof (induction ks rule: rev_induct)
  case Nil
  then show ?case by simp
next
  case (snoc k ks)
  then show ?case
    by (auto simp: assms(2))
qed

lemma patchExercise_id: "ex_id (patchExercise patch x) = ex_id x"
  by (simp add: patchExercise_def Let_def)

lemma patchExercise_falsy: "js_not patch \<Longrightarrow> patchExercise patch x = x"
  by (simp add: patchExercise_def Let_def js_get_falsy)

lemma obj_get_absent: "k \<notin> set (map fst ed) \<Longrightarrow> obj_get ed k = JUndefined"
  by (simp add: obj_get_def map_of_eq_None_iff [THEN iffD2])

lemma split_on_single: "split_on c xs = [s] \<Longrightarrow> xs = s"
proof (induction xs arbitrary: s)
  case Nil
  then show ?case by simp
next
  case (Cons x xs)
  then show ?case
    by (auto split: if_splits list.splits simp: split_on_nonempty)
qed

lemma split_entryKey_any:
  "split_on CHR ''|''
     (entryKey (JStr a) (JNum (of_int b)) (JNum (of_int c)) (JNum (of_int d)) (JStr y))
   = split_on CHR ''|'' a @ [int_text b, int_text c, int_text d] @ split_on CHR ''|'' y"
proof -
  have "entryKey (JStr a) (JNum (of_int b)) (JNum (of_int c)) (JNum (of_int d)) (JStr y)
          = a @ CHR ''|'' # (int_text b @ CHR ''|'' # (int_text c @ CHR ''|'' #
              (int_text d @ CHR ''|'' # y)))"
    by (simp add: entryKey_typed)
  then show ?thesis
    by (simp add: split_on_append_sep split_on_nosep bar_not_in_int_text)
qed

lemma entryKey_eq_iff:
  assumes "CHR ''|'' \<notin> set p" and "CHR ''|'' \<notin> set e"
  shows "entryKey (JStr a) (JNum (of_int b)) (JNum (of_int c)) (JNum (of_int d)) (JStr y)
           = entryKey (JStr p) (JNum (of_int b')) (JNum (of_int c')) (JNum (of_int d')) (JStr e)
         \<longleftrightarrow> a = p \<and> b = b' \<and> c = c' \<and> d = d' \<and> y = e"
proof
  assume eq: "entryKey (JStr a) (JNum (of_int b)) (JNum (of_int c)) (JNum (of_int d)) (JStr y)
           = entryKey (JStr p) (JNum (of_int b')) (JNum (of_int c')) (JNum (of_int d')) (JStr e)"
  have s: "split_on CHR ''|'' a @ [int_text b, int_text c, int_text d] @ split_on CHR ''|'' y
        = [p, int_text b', int_text c', int_text d', e]"
    using split_entryKey_any [of a b c d y] split_entryKey_typed [OF assms, of b' c' d'] eq
    by simp
  obtain a1 ar where a: "split_on CHR ''|'' a = a1 # ar"
    using split_on_nonempty [of "CHR ''|''" a] by (cases "split_on CHR ''|'' a") auto
  obtain y1 yr where y: "split_on CHR ''|'' y = y1 # yr"
    using split_on_nonempty [of "CHR ''|''" y] by (cases "split_on CHR ''|'' y") auto
  from s have len: "length ar + length yr = 0"
    unfolding a y by (drule_tac arg_cong [where f = length]) simp
  then have "ar = []" "yr = []"
    by simp_all
  with s a y have "split_on CHR ''|'' a = [p]" "split_on CHR ''|'' y = [e]"
    "int_text b = int_text b'" "int_text c = int_text c'" "int_text d = int_text d'"
    by simp_all
  then show "a = p \<and> b = b' \<and> c = c' \<and> d = d' \<and> y = e"
    by (auto dest: split_on_single int_text_inj)
next
  assume "a = p \<and> b = b' \<and> c = c' \<and> d = d' \<and> y = e"
  then show "entryKey (JStr a) (JNum (of_int b)) (JNum (of_int c)) (JNum (of_int d)) (JStr y)
           = entryKey (JStr p) (JNum (of_int b')) (JNum (of_int c')) (JNum (of_int d')) (JStr e)"
    by simp
qed

lemma modify_first_None: "find P xs = None \<Longrightarrow> modify_first P f xs = xs"
  by (induction xs) (auto split: if_splits)

lemma modify_first_fix: "find P xs = Some x \<Longrightarrow> f x = x \<Longrightarrow> modify_first P f xs = xs"
  by (induction xs) (auto split: if_splits)

lemma modify_first_map:
  assumes "distinct (map key xs)" and "\<forall>x\<in>set xs. P x \<longleftrightarrow> key x = a"
  shows "modify_first P f xs = map (\<lambda>x. if key x = a then f x else x) xs"
  using assms
proof (induction xs)
  case Nil
  then show ?case by simp
next
  case (Cons x xs)
  show ?case
  proof (cases "key x = a")
    case True
    with Cons.prems have "\<forall>y\<in>set xs. key y \<noteq> a"
      by (auto simp: image_iff)
    then have "map (\<lambda>x. if key x = a then f x else x) xs = xs"
      by (induction xs) auto
    with True Cons.prems show ?thesis
      by simp
  next
    case False
    with Cons show ?thesis
      by simp
  qed
qed

lemma inExercise_fix: "getExercise d eid = None \<Longrightarrow> inExercise eid f d = d"
  by (simp add: inExercise_def getExercise_def modify_first_None)

lemma inDay_fix:
  "getDay w dy = None \<or> (\<exists>d. getDay w dy = Some d \<and> g d = d) \<Longrightarrow> inDay dy g w = w"
  by (auto simp: inDay_def getDay_def modify_first_None modify_first_fix)

lemma inWeek_fix:
  "getWeek b wk = None \<or> (\<exists>w. getWeek b wk = Some w \<and> g w = w) \<Longrightarrow> inWeek wk g b = b"
  by (auto simp: inWeek_def getWeek_def modify_first_None modify_first_fix)

lemma inBlock_fix:
  "getBlock p bid = None \<or> (\<exists>b. getBlock p bid = Some b \<and> g b = b) \<Longrightarrow> inBlock bid g p = p"
  by (auto simp: inBlock_def getBlock_def modify_first_None modify_first_fix)

lemma inPeriod_fix:
  "getPeriod doc pid = None \<or> (\<exists>p. getPeriod doc pid = Some p \<and> g p = p)
     \<Longrightarrow> inPeriod pid g doc = doc"
  by (auto simp: inPeriod_def getPeriod_def modify_first_None modify_first_fix)

lemma in_chain_None:
  assumes "lookup_chain out pid bid wk dy eid = None"
  shows "inPeriod pid (inBlock bid (inWeek wk (inDay dy (inExercise eid f)))) out = out"
proof (rule inPeriod_fix)
  show "getPeriod out pid = None
        \<or> (\<exists>p. getPeriod out pid = Some p
              \<and> inBlock bid (inWeek wk (inDay dy (inExercise eid f))) p = p)"
  proof (cases "getPeriod out pid")
    case None
    then show ?thesis by simp
  next
    case (Some p)
    have "inBlock bid (inWeek wk (inDay dy (inExercise eid f))) p = p"
    proof (rule inBlock_fix, cases "getBlock p bid")
      case None
      then show "getBlock p bid = None
        \<or> (\<exists>b. getBlock p bid = Some b \<and> inWeek wk (inDay dy (inExercise eid f)) b = b)"
        by simp
    next
      case b: (Some b)
      have "inWeek wk (inDay dy (inExercise eid f)) b = b"
      proof (rule inWeek_fix, cases "getWeek b wk")
        case None
        then show "getWeek b wk = None
          \<or> (\<exists>w. getWeek b wk = Some w \<and> inDay dy (inExercise eid f) w = w)"
          by simp
      next
        case w: (Some w)
        have "inDay dy (inExercise eid f) w = w"
        proof (rule inDay_fix, cases "getDay w dy")
          case None
          then show "getDay w dy = None
            \<or> (\<exists>d. getDay w dy = Some d \<and> inExercise eid f d = d)"
            by simp
        next
          case d: (Some d)
          from assms Some b w d have "getExercise d eid = None"
            by (simp add: lookup_chain_def split: Option.bind_splits)
          then have "inExercise eid f d = d"
            by (rule inExercise_fix)
          with d show "getDay w dy = None
            \<or> (\<exists>d. getDay w dy = Some d \<and> inExercise eid f d = d)"
            by simp
        qed
        with w show "getWeek b wk = None
          \<or> (\<exists>w. getWeek b wk = Some w \<and> inDay dy (inExercise eid f) w = w)"
          by simp
      qed
      with b show "getBlock p bid = None
        \<or> (\<exists>b. getBlock p bid = Some b \<and> inWeek wk (inDay dy (inExercise eid f)) b = b)"
        by simp
    qed
    with Some show ?thesis
      by simp
  qed
qed

lemma specApplyKey_always:
  "specApplyKey ed k out =
     (case decodeKey k of
        (pid, bid, wk, dy, eid) \<Rightarrow>
          inPeriod pid (inBlock bid (inWeek wk (inDay dy
            (inExercise eid (patchExercise (obj_get ed k)))))) out)"
  by (auto simp: specApplyKey_def in_chain_None split: prod.splits option.splits)

lemma isExercise_JStr: "isExercise (JStr e) x \<longleftrightarrow> ex_id x = e"
  by (simp add: isExercise_def strict_eq_def)

lemma isDay_text: "isDay (JStr (int_text k)) d \<longleftrightarrow> day_day d = of_int k"
  by (simp add: isDay_def js_Number_def strict_eq_def string_to_number_int_text)

lemma isWeek_text: "isWeek (JStr (int_text k)) w \<longleftrightarrow> week_week w = of_int k"
  by (simp add: isWeek_def js_Number_def strict_eq_def string_to_number_int_text)

lemma isBlock_text:
  assumes "safe_int_number (block_id b)"
  shows "isBlock (JStr (int_text k)) b \<longleftrightarrow> block_id b = of_int k"
proof -
  from assms have "of_int \<lfloor>block_id b\<rfloor> = block_id b"
    unfolding safe_int_number_def by (rule conjunct1)
  then have m: "block_id b = of_int \<lfloor>block_id b\<rfloor>"
    by (rule sym)
  have "isBlock (JStr (int_text k)) b \<longleftrightarrow> num_text (block_id b) = int_text k"
    by (simp add: isBlock_def strict_eq_def)
  also have "\<dots> \<longleftrightarrow> int_text \<lfloor>block_id b\<rfloor> = int_text k"
    by (subst m) (simp only: num_text_of_int)
  also have "\<dots> \<longleftrightarrow> \<lfloor>block_id b\<rfloor> = k"
    by (auto dest: int_text_inj)
  also have "\<dots> \<longleftrightarrow> block_id b = of_int k"
    using m by (metis floor_of_int)
  finally show ?thesis .
qed

lemma isPeriod_JStr: "isPeriod (JStr a) p \<longleftrightarrow> period_id p = a"
  by (simp add: isPeriod_def strict_eq_def)

lemma inExercise_map:
  assumes "distinct (map ex_id (day_exercises d))"
  shows "inExercise (JStr e) f d = map_day (\<lambda>dd x. if ex_id x = e then f x else x) d"
  using assms
  by (simp add: inExercise_def map_day_def modify_first_map [where key = ex_id and a = e]
      isExercise_JStr)

lemma inDay_map:
  assumes "distinct (map day_day (week_days w))"
    and "\<forall>d\<in>set (week_days w). distinct (map ex_id (day_exercises d))"
  shows "inDay (JStr (int_text dn)) (inExercise (JStr e) f) w
           = map_week (\<lambda>c dd x. if dd = of_int dn \<and> ex_id x = e then f x else x) w"
proof -
  have "modify_first (isDay (JStr (int_text dn))) (inExercise (JStr e) f) (week_days w)
          = map (\<lambda>d. if day_day d = of_int dn then inExercise (JStr e) f d else d) (week_days w)"
    by (rule modify_first_map) (simp_all add: assms isDay_text)
  also have "\<dots> = map (map_day (\<lambda>dd x. if dd = of_int dn \<and> ex_id x = e then f x else x))
                      (week_days w)"
    using assms(2) by (auto simp: inExercise_map map_day_def)
  finally show ?thesis
    by (simp add: inDay_def map_week_def)
qed

lemma inWeek_map:
  assumes "distinct (map week_week (block_weeks b))"
    and "\<forall>w\<in>set (block_weeks b). distinct (map day_day (week_days w))
           \<and> (\<forall>d\<in>set (week_days w). distinct (map ex_id (day_exercises d)))"
  shows "inWeek (JStr (int_text wn)) (inDay (JStr (int_text dn)) (inExercise (JStr e) f)) b
           = map_block (\<lambda>bb c dd x. if c = of_int wn \<and> dd = of_int dn \<and> ex_id x = e
                                     then f x else x) b"
proof -
  have "modify_first (isWeek (JStr (int_text wn)))
          (inDay (JStr (int_text dn)) (inExercise (JStr e) f)) (block_weeks b)
          = map (\<lambda>w. if week_week w = of_int wn
                      then inDay (JStr (int_text dn)) (inExercise (JStr e) f) w else w)
              (block_weeks b)"
    by (rule modify_first_map) (simp_all add: assms isWeek_text)
  also have "\<dots> = map (map_week (\<lambda>c dd x. if c = of_int wn \<and> dd = of_int dn \<and> ex_id x = e
                                     then f x else x))
                      (block_weeks b)"
    using assms(2) by (auto simp: inDay_map map_week_def map_day_def map_day_id)
  finally show ?thesis
    by (simp add: inWeek_def map_block_def)
qed

lemma inBlock_map:
  assumes "distinct (map block_id (period_blocks p))"
    and "\<forall>b\<in>set (period_blocks p). safe_int_number (block_id b)"
    and "\<forall>b\<in>set (period_blocks p). distinct (map week_week (block_weeks b))
           \<and> (\<forall>w\<in>set (block_weeks b). distinct (map day_day (week_days w))
                \<and> (\<forall>d\<in>set (week_days w). distinct (map ex_id (day_exercises d))))"
  shows "inBlock (JStr (int_text bn))
           (inWeek (JStr (int_text wn)) (inDay (JStr (int_text dn)) (inExercise (JStr e) f))) p
           = map_period (\<lambda>a bb c dd x. if bb = of_int bn \<and> c = of_int wn \<and> dd = of_int dn
                                          \<and> ex_id x = e
                                       then f x else x) p"
proof -
  have "modify_first (isBlock (JStr (int_text bn)))
          (inWeek (JStr (int_text wn)) (inDay (JStr (int_text dn)) (inExercise (JStr e) f)))
          (period_blocks p)
          = map (\<lambda>b. if block_id b = of_int bn
                      then inWeek (JStr (int_text wn))
                             (inDay (JStr (int_text dn)) (inExercise (JStr e) f)) b
                      else b)
              (period_blocks p)"
    by (rule modify_first_map) (simp_all add: assms isBlock_text)
  also have "\<dots> = map (map_block (\<lambda>bb c dd x. if bb = of_int bn \<and> c = of_int wn
                                          \<and> dd = of_int dn \<and> ex_id x = e
                                       then f x else x))
                      (period_blocks p)"
    using assms(3)
    by (auto simp: inWeek_map map_block_def map_week_def map_day_def map_day_id map_week_id)
  finally show ?thesis
    by (simp add: inBlock_def map_period_def)
qed

lemma inPeriod_map:
  assumes "unique_ids doc" and "integer_ids doc"
  shows "inPeriod (JStr a)
           (inBlock (JStr (int_text bn))
              (inWeek (JStr (int_text wn)) (inDay (JStr (int_text dn)) (inExercise (JStr e) f))))
           doc
           = map_exercises (\<lambda>pp bb c dd x. if pp = a \<and> bb = of_int bn \<and> c = of_int wn
                                             \<and> dd = of_int dn \<and> ex_id x = e
                                          then f x else x) doc"
proof -
  have "modify_first (isPeriod (JStr a))
          (inBlock (JStr (int_text bn))
              (inWeek (JStr (int_text wn)) (inDay (JStr (int_text dn)) (inExercise (JStr e) f))))
          (periods doc)
          = map (\<lambda>p. if period_id p = a
                      then inBlock (JStr (int_text bn))
                             (inWeek (JStr (int_text wn))
                                (inDay (JStr (int_text dn)) (inExercise (JStr e) f))) p
                      else p)
              (periods doc)"
    by (rule modify_first_map) (use assms in \<open>simp_all add: unique_ids_def isPeriod_JStr\<close>)
  also have "\<dots> = map (map_period (\<lambda>pp bb c dd x. if pp = a \<and> bb = of_int bn \<and> c = of_int wn
                                             \<and> dd = of_int dn \<and> ex_id x = e
                                          then f x else x))
                      (periods doc)"
  proof (rule map_cong [OF refl])
    fix p assume p: "p \<in> set (periods doc)"
    from p assms have u: "distinct (map block_id (period_blocks p))"
      "\<forall>b\<in>set (period_blocks p). safe_int_number (block_id b)"
      "\<forall>b\<in>set (period_blocks p). distinct (map week_week (block_weeks b))
           \<and> (\<forall>w\<in>set (block_weeks b). distinct (map day_day (week_days w))
                \<and> (\<forall>d\<in>set (week_days w). distinct (map ex_id (day_exercises d))))"
      by (auto simp: unique_ids_def integer_ids_def)
    show "(if period_id p = a
           then inBlock (JStr (int_text bn))
                  (inWeek (JStr (int_text wn))
                     (inDay (JStr (int_text dn)) (inExercise (JStr e) f))) p
           else p)
          = map_period (\<lambda>pp bb c dd x. if pp = a \<and> bb = of_int bn \<and> c = of_int wn
                                             \<and> dd = of_int dn \<and> ex_id x = e
                                          then f x else x) p"
      by (simp add: inBlock_map [OF u] map_period_def map_block_def map_week_def map_day_def
          map_day_id map_week_id map_block_id)
  qed
  finally show ?thesis
    by (simp add: inPeriod_def map_exercises_def)
qed

lemma safe_int_numberD: "safe_int_number r \<Longrightarrow> r = of_int \<lfloor>r\<rfloor>"
  unfolding safe_int_number_def by (rule sym) (rule conjunct1)

lemma specApplyKey_map:
  assumes u: "unique_ids out" and i: "integer_ids out" and k: "locator_key k"
  shows "specApplyKey ed k out =
           map_exercises
             (\<lambda>a b c d x.
                if entryKey (JStr a) (JNum b) (JNum c) (JNum d) (JStr (ex_id x)) = k
                then patchExercise (obj_get ed k) x else x)
             out"
proof -
  from k obtain p bn wn dn e where
    p: "CHR ''|'' \<notin> set p" and e: "CHR ''|'' \<notin> set e"
    and key: "k = entryKey (JStr p) (JNum (of_int bn)) (JNum (of_int wn)) (JNum (of_int dn)) (JStr e)"
    unfolding locator_key_def by blast
  have dec: "decodeKey k = (JStr p, JStr (int_text bn), JStr (int_text wn), JStr (int_text dn), JStr e)"
    unfolding key by (rule decodeKey_segments) (rule split_entryKey_typed [OF p e])
  have "specApplyKey ed k out =
          map_exercises (\<lambda>pp bb c dd x. if pp = p \<and> bb = of_int bn \<and> c = of_int wn
                                             \<and> dd = of_int dn \<and> ex_id x = e
                                          then patchExercise (obj_get ed k) x else x) out"
    by (simp add: specApplyKey_always dec inPeriod_map [OF u i])
  also have "\<dots> = map_exercises
             (\<lambda>a b c d x.
                if entryKey (JStr a) (JNum b) (JNum c) (JNum d) (JStr (ex_id x)) = k
                then patchExercise (obj_get ed k) x else x)
             out"
  proof (rule map_exercises_cong)
    fix pp b w d x
    assume "pp \<in> set (periods out)" "b \<in> set (period_blocks pp)" "w \<in> set (block_weeks b)"
      "d \<in> set (week_days w)" "x \<in> set (day_exercises d)"
    with i have "safe_int_number (block_id b)" "safe_int_number (week_week w)"
      "safe_int_number (day_day d)"
      by (auto simp: integer_ids_def)
    then obtain m1 m2 m3 where m: "block_id b = of_int m1" "week_week w = of_int m2"
      "day_day d = of_int m3"
      by (blast dest: safe_int_numberD)
    show "(if period_id pp = p \<and> block_id b = of_int bn \<and> week_week w = of_int wn
              \<and> day_day d = of_int dn \<and> ex_id x = e
           then patchExercise (obj_get ed k) x else x)
        = (if entryKey (JStr (period_id pp)) (JNum (block_id b)) (JNum (week_week w))
                (JNum (day_day d)) (JStr (ex_id x)) = k
           then patchExercise (obj_get ed k) x else x)"
      unfolding m key entryKey_eq_iff [OF p e] by simp
  qed
  finally show ?thesis .
qed

lemma unique_ids_map_exercises:
  assumes "unique_ids doc" and "\<And>a b c d x. ex_id (H a b c d x) = ex_id x"
  shows "unique_ids (map_exercises H doc)"
  using assms(1)
  by (simp add: unique_ids_def map_exercises_def map_period_def map_block_def map_week_def
      map_day_def comp_def assms(2))

lemma integer_ids_map_exercises:
  assumes "integer_ids doc"
  shows "integer_ids (map_exercises H doc)"
  using assms
  by (simp add: integer_ids_def map_exercises_def map_period_def map_block_def map_week_def
      map_day_def)

lemma unique_ids_deep_clone: "unique_ids doc \<Longrightarrow> unique_ids (deep_clone doc)"
  by (simp add: unique_ids_def deep_clone_def clone_period_def clone_block_def clone_week_def
      clone_day_def clone_exercise_def comp_def)

lemma integer_ids_deep_clone: "integer_ids doc \<Longrightarrow> integer_ids (deep_clone doc)"
  by (simp add: integer_ids_def deep_clone_def clone_period_def clone_block_def clone_week_def
      clone_day_def)

lemma foldl_patch_id:
  "ex_id (foldl (\<lambda>y k. if K y = k then patchExercise (h k) y else y) x ks) = ex_id x"
  by (induction ks arbitrary: x rule: rev_induct) (simp_all add: patchExercise_id)

lemma specMerge_map:
  assumes u: "unique_ids D" and i: "integer_ids D" and ks: "\<forall>k\<in>set ks. locator_key k"
  shows "foldl (\<lambda>out k. specApplyKey ed k out) D ks
           = map_exercises
               (\<lambda>a b c d x.
                  foldl (\<lambda>y k.
                           if entryKey (JStr a) (JNum b) (JNum c) (JNum d) (JStr (ex_id y)) = k
                           then patchExercise (obj_get ed k) y else y) x ks)
               D"
  using ks
proof (induction ks rule: rev_induct)
  case Nil
  then show ?case by (simp add: map_exercises_id)
next
  case (snoc k ks)
  define H where "H = (\<lambda>a b c d x.
                  foldl (\<lambda>y k.
                           if entryKey (JStr a) (JNum b) (JNum c) (JNum d) (JStr (ex_id y)) = k
                           then patchExercise (obj_get ed k) y else y) x ks)"
  have keep: "ex_id (H a b c d x) = ex_id x" for a b c d x
    unfolding H_def
    by (induction ks arbitrary: x rule: rev_induct) (simp_all add: patchExercise_id)
  from snoc have IH: "foldl (\<lambda>out k. specApplyKey ed k out) D ks = map_exercises H D"
    by (simp add: H_def)
  have u': "unique_ids (map_exercises H D)"
    by (rule unique_ids_map_exercises [OF u keep])
  have i': "integer_ids (map_exercises H D)"
    by (rule integer_ids_map_exercises [OF i])
  from snoc.prems have k: "locator_key k"
    by simp
  have "foldl (\<lambda>out k. specApplyKey ed k out) D (ks @ [k])
          = specApplyKey ed k (map_exercises H D)"
    by (simp add: IH)
  also have "\<dots> = map_exercises
             (\<lambda>a b c d x.
                if entryKey (JStr a) (JNum b) (JNum c) (JNum d) (JStr (ex_id x)) = k
                then patchExercise (obj_get ed k) x else x)
             (map_exercises H D)"
    by (rule specApplyKey_map [OF u' i' k])
  also have "\<dots> = map_exercises
             (\<lambda>a b c d x.
                if entryKey (JStr a) (JNum b) (JNum c) (JNum d) (JStr (ex_id (H a b c d x))) = k
                then patchExercise (obj_get ed k) (H a b c d x) else H a b c d x)
             D"
    by (rule map_exercises_comp)
  also have "\<dots> = map_exercises
               (\<lambda>a b c d x.
                  foldl (\<lambda>y k.
                           if entryKey (JStr a) (JNum b) (JNum c) (JNum d) (JStr (ex_id y)) = k
                           then patchExercise (obj_get ed k) y else y) x (ks @ [k]))
               D"
    unfolding H_def by simp
  finally show ?case .
qed

lemma mergeExercise_keyed:
  "(let patch = obj_get ed k in if js_not patch then x else patchExercise patch x)
     = (if k \<in> set (map fst ed) then patchExercise (obj_get ed k) x else x)"
proof (cases "k \<in> set (map fst ed)")
  case True
  then show ?thesis
    by (simp add: Let_def patchExercise_falsy)
next
  case False
  then have "obj_get ed k = JUndefined"
    by (rule obj_get_absent)
  with False show ?thesis
    by (simp add: Let_def js_not_def)
qed

lemma merge_refines:
  assumes u: "unique_ids doc" and i: "integer_ids doc"
    and d: "distinct (map fst ed)" and ks: "\<forall>k\<in>set (map fst ed). locator_key k"
  shows "mergeBaseWithEdits doc ed = mergeOverlayIntoBase doc ed"
proof -
  have u': "unique_ids (deep_clone doc)"
    by (rule unique_ids_deep_clone [OF u])
  have i': "integer_ids (deep_clone doc)"
    by (rule integer_ids_deep_clone [OF i])
  have fold: "foldl (\<lambda>y k.
                 if entryKey (JStr a) (JNum b) (JNum c) (JNum dd) (JStr (ex_id y)) = k
                 then patchExercise (obj_get ed k) y else y) x (map fst ed)
        = (let patch = obj_get ed (entryKey (JStr a) (JNum b) (JNum c) (JNum dd) (JStr (ex_id x)))
           in if js_not patch then x else patchExercise patch x)" for a b c dd x
    unfolding mergeExercise_keyed
    by (rule foldl_keyed [where K = "\<lambda>y. entryKey (JStr a) (JNum b) (JNum c) (JNum dd) (JStr (ex_id y))"
                            and h = "\<lambda>k y. patchExercise (obj_get ed k) y", OF d])
      (simp add: patchExercise_id)
  show ?thesis
    unfolding mergeOverlayIntoBase_def specMerge_map [OF u' i' ks] mergeBaseWithEdits_map fold ..
qed

lemma map_fixD: "map f xs = xs \<Longrightarrow> x \<in> set xs \<Longrightarrow> f x = x"
  by (induction xs) auto

lemma map_exercises_fixD:
  assumes "map_exercises F doc = doc"
    and "p \<in> set (periods doc)" "b \<in> set (period_blocks p)" "w \<in> set (block_weeks b)"
      "d \<in> set (week_days w)" "x \<in> set (day_exercises d)"
  shows "F (period_id p) (block_id b) (week_week w) (day_day d) x = x"
proof -
  from assms(1) have "periods (map_exercises F doc) = periods doc"
    by simp
  then have "map (map_period F) (periods doc) = periods doc"
    by (simp add: map_exercises_def)
  from this assms(2) have "map_period F p = p"
    by (rule map_fixD)
  then have "period_blocks (map_period F p) = period_blocks p"
    by simp
  then have "map (map_block (F (period_id p))) (period_blocks p) = period_blocks p"
    by (simp add: map_period_def)
  from this assms(3) have "map_block (F (period_id p)) b = b"
    by (rule map_fixD)
  then have "block_weeks (map_block (F (period_id p)) b) = block_weeks b"
    by simp
  then have "map (map_week (F (period_id p) (block_id b))) (block_weeks b) = block_weeks b"
    by (simp add: map_block_def)
  from this assms(4) have "map_week (F (period_id p) (block_id b)) w = w"
    by (rule map_fixD)
  then have "week_days (map_week (F (period_id p) (block_id b)) w) = week_days w"
    by simp
  then have "map (map_day (F (period_id p) (block_id b) (week_week w))) (week_days w) = week_days w"
    by (simp add: map_week_def)
  from this assms(5) have "map_day (F (period_id p) (block_id b) (week_week w)) d = d"
    by (rule map_fixD)
  then have "day_exercises (map_day (F (period_id p) (block_id b) (week_week w)) d)
               = day_exercises d"
    by simp
  then have "map (F (period_id p) (block_id b) (week_week w) (day_day d)) (day_exercises d)
               = day_exercises d"
    by (simp add: map_day_def)
  from this assms(6) show ?thesis
    by (rule map_fixD)
qed

lemma isWeek_Number: "isWeek (js_Number v) = isWeek v"
  by (rule ext) (cases v; simp add: isWeek_def js_Number_def split: option.splits)

lemma isDay_Number: "isDay (js_Number v) = isDay v"
  by (rule ext) (cases v; simp add: isDay_def js_Number_def split: option.splits)

lemma lookup_chain_Number:
  "lookup_chain doc a b (js_Number c) (js_Number d) e = lookup_chain doc a b c d e"
  by (simp add: lookup_chain_def getWeek_def getDay_def isWeek_Number isDay_Number)

lemma resolveKey_None:
  "resolveKey doc ed k = None \<longleftrightarrow>
     (case decodeKey k of (a, b, c, d, e) \<Rightarrow> lookup_chain doc a b c d e = None)"
  by (simp add: resolveKey_def getPatchedEntry_chain lookup_chain_Number
      split: prod.splits option.splits)

lemma unresolved_no_path:
  assumes u: "unique_ids doc" and i: "integer_ids doc" and k: "locator_key k"
    and r: "resolveKey doc ed k = None"
    and path: "p \<in> set (periods doc)" "b \<in> set (period_blocks p)" "w \<in> set (block_weeks b)"
      "d \<in> set (week_days w)" "x \<in> set (day_exercises d)"
  shows "entryKey (JStr (period_id p)) (JNum (block_id b)) (JNum (week_week w))
           (JNum (day_day d)) (JStr (ex_id x)) \<noteq> k"
proof -
  from k obtain a bn wn dn e where
    a: "CHR ''|'' \<notin> set a" and e: "CHR ''|'' \<notin> set e"
    and key: "k = entryKey (JStr a) (JNum (of_int bn)) (JNum (of_int wn)) (JNum (of_int dn)) (JStr e)"
    unfolding locator_key_def by blast
  have dec: "decodeKey k = (JStr a, JStr (int_text bn), JStr (int_text wn), JStr (int_text dn), JStr e)"
    unfolding key by (rule decodeKey_segments) (rule split_entryKey_typed [OF a e])
  define flip where "flip = (\<lambda>y :: exercise. y\<lparr>ex_name := CHR ''x'' # ex_name y\<rparr>)"
  have ne: "flip y \<noteq> y" for y
  proof
    assume "flip y = y"
    then have "ex_name (flip y) = ex_name y"
      by simp
    then show False
      by (simp add: flip_def)
  qed
  from r have "lookup_chain doc (JStr a) (JStr (int_text bn)) (JStr (int_text wn))
                 (JStr (int_text dn)) (JStr e) = None"
    by (simp add: resolveKey_None dec)
  then have "inPeriod (JStr a)
           (inBlock (JStr (int_text bn))
              (inWeek (JStr (int_text wn)) (inDay (JStr (int_text dn)) (inExercise (JStr e) flip))))
           doc = doc"
    by (rule in_chain_None)
  then have "map_exercises (\<lambda>pp bb c dd y. if pp = a \<and> bb = of_int bn \<and> c = of_int wn
                                             \<and> dd = of_int dn \<and> ex_id y = e
                                          then flip y else y) doc = doc"
    by (simp only: inPeriod_map [OF u i])
  from map_exercises_fixD [OF this path] ne
  have nomatch: "\<not> (period_id p = a \<and> block_id b = of_int bn \<and> week_week w = of_int wn
                    \<and> day_day d = of_int dn \<and> ex_id x = e)"
    by (auto split: if_splits)
  from path i have "safe_int_number (block_id b)" "safe_int_number (week_week w)"
      "safe_int_number (day_day d)"
    by (auto simp: integer_ids_def)
  then obtain m1 m2 m3 where m: "block_id b = of_int m1" "week_week w = of_int m2"
      "day_day d = of_int m3"
    by (blast dest: safe_int_numberD)
  from nomatch show ?thesis
    unfolding m key entryKey_eq_iff [OF a e] by simp
qed

lemma merge_skips_unresolved:
  assumes u: "unique_ids doc" and i: "integer_ids doc" and k: "locator_key k"
    and r: "resolveKey doc ed k = None"
  shows "mergeBaseWithEdits doc (obj_delete k ed) = mergeBaseWithEdits doc ed"
  unfolding mergeBaseWithEdits_map
proof (rule map_exercises_cong)
  fix p' b' w' d' x'
  assume "p' \<in> set (periods (deep_clone doc))" "b' \<in> set (period_blocks p')"
    "w' \<in> set (block_weeks b')" "d' \<in> set (week_days w')" "x' \<in> set (day_exercises d')"
  then obtain p b w d x where path: "p \<in> set (periods doc)" "b \<in> set (period_blocks p)"
    "w \<in> set (block_weeks b)" "d \<in> set (week_days w)" "x \<in> set (day_exercises d)"
    and ids: "period_id p' = period_id p" "block_id b' = block_id b" "week_week w' = week_week w"
      "day_day d' = day_day d" "ex_id x' = ex_id x"
    by (auto simp: deep_clone_def clone_period_def clone_block_def clone_week_def clone_day_def
        clone_exercise_def)
  have "entryKey (JStr (period_id p')) (JNum (block_id b')) (JNum (week_week w'))
           (JNum (day_day d')) (JStr (ex_id x')) \<noteq> k"
    unfolding ids by (rule unresolved_no_path [OF u i k r path])
  then show "(let patch = obj_get (obj_delete k ed)
                   (entryKey (JStr (period_id p')) (JNum (block_id b')) (JNum (week_week w'))
                      (JNum (day_day d')) (JStr (ex_id x')))
              in if js_not patch then x' else patchExercise patch x')
           = (let patch = obj_get ed
                   (entryKey (JStr (period_id p')) (JNum (block_id b')) (JNum (week_week w'))
                      (JNum (day_day d')) (JStr (ex_id x')))
              in if js_not patch then x' else patchExercise patch x')"
    by (simp add: obj_get_obj_delete)
qed

text \<open>
  C3. For a document whose identifiers are unique among siblings and whose block, week
  and day numbers are integers, and an overlay whose keys are distinct and are encodings
  of locators (slugs without \<open>|\<close>, integer numbers), the merge of the program ---
  copy the document, visit every exercise of the copy, apply the patch stored under the
  key of that exercise --- returns the same document as the merge of the specification
  --- copy the document, visit every key of the overlay, decode it, resolve it in the copy
  and patch the exercise found, skipping a key that does not resolve. Both are total
  functions: no key raises an error. A key of the overlay that does not resolve in the
  document is left unapplied: the merge is the same without it.
\<close>

theorem mergeBaseWithEdits_refines:
  assumes "unique_ids doc" and "integer_ids doc"
    and "distinct (map fst overlay)" and "\<forall>k\<in>set (map fst overlay). locator_key k"
  shows "mergeBaseWithEdits doc overlay = mergeOverlayIntoBase doc overlay
       \<and> (\<forall>k\<in>set (map fst overlay).
             resolveKey doc overlay k = None \<longrightarrow>
             mergeBaseWithEdits doc (obj_delete k overlay) = mergeBaseWithEdits doc overlay)"
proof (intro conjI ballI impI)
  show "mergeBaseWithEdits doc overlay = mergeOverlayIntoBase doc overlay"
    by (rule merge_refines [OF assms])
next
  fix k
  assume "k \<in> set (map fst overlay)" and r: "resolveKey doc overlay k = None"
  with assms(4) have "locator_key k"
    by blast
  from merge_skips_unresolved [OF assms(1,2) this r]
  show "mergeBaseWithEdits doc (obj_delete k overlay) = mergeBaseWithEdits doc overlay" .
qed

theorem mergeBaseWithEdits_refines_witness:
  "unique_ids scenario_doc \<and> integer_ids scenario_doc
   \<and> distinct (map fst scenario_overlay)
   \<and> locator_key scenario_key \<and> locator_key scenario_orphan_key
   \<and> resolveKey scenario_doc scenario_overlay scenario_orphan_key = None
   \<and> mergeBaseWithEdits scenario_doc scenario_overlay
       = mergeOverlayIntoBase scenario_doc scenario_overlay
   \<and> mergeBaseWithEdits scenario_doc (obj_delete scenario_orphan_key scenario_overlay)
       = mergeBaseWithEdits scenario_doc scenario_overlay
   \<and> map ex_videos
        (day_exercises (hd (week_days (hd (block_weeks (hd (period_blocks (hd (periods
           (mergeOverlayIntoBase scenario_doc scenario_overlay))))))))))
       = [JArr [JStr ''https://youtu.be/abc123'']]"
proof -
  have u: "unique_ids scenario_doc"
    by code_simp
  have i: "integer_ids scenario_doc"
    by code_simp
  have d: "distinct (map fst scenario_overlay)"
    by code_simp
  have s1: "safe_integer 1" and s2: "safe_integer 2"
    by (simp_all add: safe_integer_def)
  have k1: "locator_key scenario_key"
    unfolding locator_key_def
  proof (intro exI conjI)
    show "scenario_key = entryKey (JStr ''serie-1-2026'') (JNum (of_int 1)) (JNum (of_int 1))
            (JNum (of_int 1)) (JStr ''squat'')"
      by code_simp
  qed (simp_all add: s1)
  have k2: "locator_key scenario_orphan_key"
    unfolding locator_key_def
  proof (intro exI conjI)
    show "scenario_orphan_key = entryKey (JStr ''serie-1-2026'') (JNum (of_int 1))
            (JNum (of_int 1)) (JNum (of_int 2)) (JStr ''bench'')"
      by code_simp
  qed (simp_all add: s1 s2)
  have ks: "\<forall>k\<in>set (map fst scenario_overlay). locator_key k"
    using k1 k2 by (simp add: scenario_overlay_def)
  have r: "resolveKey scenario_doc scenario_overlay scenario_orphan_key = None"
    by code_simp
  have mem: "scenario_orphan_key \<in> set (map fst scenario_overlay)"
    by (simp add: scenario_overlay_def)
  note t = mergeBaseWithEdits_refines [OF u i d ks]
  have a: "mergeBaseWithEdits scenario_doc scenario_overlay
       = mergeOverlayIntoBase scenario_doc scenario_overlay"
    using t by (rule conjunct1)
  have b: "mergeBaseWithEdits scenario_doc (obj_delete scenario_orphan_key scenario_overlay)
       = mergeBaseWithEdits scenario_doc scenario_overlay"
    using t [THEN conjunct2, rule_format, OF mem r] .
  have c: "map ex_videos
        (day_exercises (hd (week_days (hd (block_weeks (hd (period_blocks (hd (periods
           (mergeBaseWithEdits scenario_doc scenario_overlay))))))))))
       = [JArr [JStr ''https://youtu.be/abc123'']]"
    by code_simp
  from u i d k1 k2 r a b c [unfolded a] show ?thesis
    by blast
qed

end
